(* ===== verification/Prelude.thy ===== *)
theory Prelude
  imports Main "HOL-Library.Word" "HOL-Library.Char_ord" "HOL-Library.List_Lexorder"
    "HOL-Library.Product_Lexorder" "HOL-Library.Multiset"
begin

text \<open>
  What the component theories share: the Go types the program uses (64-bit integers with
  their wrap-around, times, error values with \<open>errors.Is\<close> and \<open>errors.As\<close>), the
  functions of code outside the repository that every component takes as parameters, the
  collections of simplification rules, and generic facts about lists, sums and sorting.
\<close>

named_theorems db_defs \<open>definitions of the SQL statements\<close>
named_theorems frame \<open>which tables an operation leaves alone\<close>

section \<open>Integers\<close>

text \<open>
  Go's \<open>int\<close> and \<open>int64\<close> are 64-bit two's complement. They are modelled by \<^typ>\<open>int\<close>;
  every arithmetic operation of the source that could leave the range is wrapped with
  \<open>wrap64\<close>.
\<close>

type_synonym int64 = int

definition maxInt64 :: int64 where
  "maxInt64 = 9223372036854775807"

definition minInt64 :: int64 where
  "minInt64 = - 9223372036854775808"

definition in_int64 :: "int \<Rightarrow> bool" where
  "in_int64 x \<longleftrightarrow> minInt64 \<le> x \<and> x \<le> maxInt64"

definition wrap64 :: "int \<Rightarrow> int64" where
  "wrap64 x = (x + 9223372036854775808) mod 18446744073709551616 - 9223372036854775808"

lemma wrap64_in_range [simp]: "in_int64 (wrap64 x)"
proof -
  have "0 \<le> (x + 9223372036854775808) mod 18446744073709551616"
    and "(x + 9223372036854775808) mod 18446744073709551616 < 18446744073709551616"
    by simp_all
  then show ?thesis
    unfolding in_int64_def wrap64_def minInt64_def maxInt64_def by linarith
qed

lemma wrap64_id [simp]: "in_int64 x \<Longrightarrow> wrap64 x = x"
  unfolding wrap64_def in_int64_def minInt64_def maxInt64_def
  by (subst mod_pos_pos_trivial) linarith+

lemma wrap64_add_left: "wrap64 (wrap64 a + b) = wrap64 (a + b)"
proof -
  have "(wrap64 a + b + 9223372036854775808) mod 18446744073709551616 =
      ((a + 9223372036854775808) mod 18446744073709551616 + b) mod 18446744073709551616"
    by (simp add: wrap64_def)
  also have "\<dots> = (a + b + 9223372036854775808) mod 18446744073709551616"
    by (subst mod_add_left_eq) (simp add: ac_simps)
  finally show ?thesis by (simp add: wrap64_def [of "wrap64 a + b"] wrap64_def [of "a + b"])
qed

lemma wrap64_add_right: "wrap64 (b + wrap64 a) = wrap64 (b + a)"
  using wrap64_add_left [of a b] by (simp add: add.commute)

lemma wrap64_0 [simp]: "wrap64 0 = 0"
  by (simp add: wrap64_def)

text \<open>Division of the source truncates towards zero.\<close>

definition go_div :: "int \<Rightarrow> int \<Rightarrow> int" where
  "go_div a b = sgn a * sgn b * (\<bar>a\<bar> div \<bar>b\<bar>)"

lemma go_div_nonneg: "0 \<le> a \<Longrightarrow> 0 < b \<Longrightarrow> go_div a b = a div b"
  by (cases "a = 0") (simp_all add: go_div_def)

section \<open>Times\<close>

text \<open>
  A \<open>time.Time\<close> is the number of nanoseconds since 1970; a \<open>time.Duration\<close> is a number of
  nanoseconds. The zero \<open>time.Time\<close> is 1 January of year 1.
\<close>

type_synonym time = int
type_synonym duration = int64

abbreviation time_Millisecond :: duration where "time_Millisecond \<equiv> 1000000"
abbreviation time_Second :: duration where "time_Second \<equiv> 1000000000"

definition zero_time :: time where
  "zero_time = - 62135596800000000000"

text \<open>\<open>Time.Sub\<close> saturates.\<close>

definition time_Sub :: "time \<Rightarrow> time \<Rightarrow> duration" where
  "time_Sub t u = max minInt64 (min maxInt64 (t - u))"

lemma time_Sub_in_range: "in_int64 (time_Sub t u)"
  by (auto simp: time_Sub_def in_int64_def minInt64_def maxInt64_def)

lemma time_Sub_exact: "in_int64 (t - u) \<Longrightarrow> time_Sub t u = t - u"
  by (auto simp: time_Sub_def in_int64_def)

section \<open>JSON documents\<close>

datatype json =
    JNull
  | JBool bool
  | JNumber string
  | JString string
  | JArray "json list"
  | JObject "(string \<times> json) list"

section \<open>Errors\<close>

text \<open>
  The package-level error variables. The store and the service packages declare variables of
  the same text; \<open>errors.Is\<close> tells them apart by identity, so each has its own constructor.
\<close>

datatype sentinel =
    StoreErrTenantNotFound | StoreErrTenantConflict | StoreErrCounterNotFound
  | StoreErrCounterConflict | StoreErrDeltaExceedsMaximum | StoreErrCounterOverflow
  | StoreErrIdempotencyKeyReused | StoreErrOperationInProgress | StoreErrCredentialNotFound
  | ErrMetadataNotFound | ErrMetadataPrecondition | ErrInvalidMetadata | ErrMetadataTooLarge
  | ErrNotFound | ErrTenantNotFound | ErrCounterNotFound | ErrConflict
  | ErrDeltaExceedsMaximum | ErrIdempotencyKeyReused | ErrOperationInProgress
  | ErrCounterOverflow | ErrCredentialNotFound
  | ErrNoRows | ErrDeadlineExceeded | ErrCanceled | ErrConnDone
  | ErrInvalidCredentials | ErrCredentialUnavailable
  | ErrIdempotencyKeyRequired | ErrInvalidIdempotencyKey
  | ErrLabelTooLong | ErrLabelTooShort | ErrLabelInvalidChars | ErrInvalidUUID
  | ErrCounterValueOverflow | ErrCounterValueUnderflow
  | ErrNotStarted | ErrSchemaMismatch | ErrDraining

text \<open>
  \<open>Sentinel\<close> is one of those variables, \<open>Pq\<close> a \<open>*pq.Error\<close> with its SQLSTATE code, \<open>Msg\<close> an
  error made in place and \<open>Wrapf m e\<close> the value of \<open>fmt.Errorf(m + ": %w", e)\<close>.
\<close>

datatype go_error =
    Sentinel sentinel
  | Pq string
  | Msg string
  | Wrapf string go_error

fun errors_Is :: "go_error \<Rightarrow> sentinel \<Rightarrow> bool" where
  "errors_Is (Sentinel s) t = (s = t)"
| "errors_Is (Wrapf m e) t = errors_Is e t"
| "errors_Is _ t = False"

fun errors_As_pq :: "go_error \<Rightarrow> string option" where
  "errors_As_pq (Pq code) = Some code"
| "errors_As_pq (Wrapf m e) = errors_As_pq e"
| "errors_As_pq _ = None"

definition sentinel_text :: "sentinel \<Rightarrow> string" where
  "sentinel_text s =
     (case s of
        StoreErrTenantNotFound \<Rightarrow> ''tenant not found'' | StoreErrTenantConflict \<Rightarrow> ''tenant label already exists''
      | StoreErrCounterNotFound \<Rightarrow> ''counter not found'' | StoreErrCounterConflict \<Rightarrow> ''counter label already exists''
      | StoreErrDeltaExceedsMaximum \<Rightarrow> ''delta exceeds maximum'' | StoreErrCounterOverflow \<Rightarrow> ''counter overflow''
      | StoreErrIdempotencyKeyReused \<Rightarrow> ''idempotency key reused''
      | StoreErrOperationInProgress \<Rightarrow> ''operation is already in progress''
      | StoreErrCredentialNotFound \<Rightarrow> ''credential not found''
      | ErrMetadataNotFound \<Rightarrow> ''metadata not found''
      | ErrMetadataPrecondition \<Rightarrow> ''metadata revision precondition failed''
      | ErrInvalidMetadata \<Rightarrow> ''metadata cannot be represented as PostgreSQL JSONB''
      | ErrMetadataTooLarge \<Rightarrow> ''metadata exceeds 64 KiB''
      | ErrNotFound \<Rightarrow> ''not found'' | ErrTenantNotFound \<Rightarrow> ''tenant not found''
      | ErrCounterNotFound \<Rightarrow> ''counter not found'' | ErrConflict \<Rightarrow> ''conflict''
      | ErrDeltaExceedsMaximum \<Rightarrow> ''delta exceeds maximum'' | ErrIdempotencyKeyReused \<Rightarrow> ''idempotency key reused''
      | ErrOperationInProgress \<Rightarrow> ''operation is already in progress'' | ErrCounterOverflow \<Rightarrow> ''counter overflow''
      | ErrCredentialNotFound \<Rightarrow> ''credential not found''
      | ErrNoRows \<Rightarrow> ''sql: no rows in result set'' | ErrDeadlineExceeded \<Rightarrow> ''context deadline exceeded''
      | ErrCanceled \<Rightarrow> ''context canceled'' | ErrConnDone \<Rightarrow> ''sql: connection is already closed''
      | ErrInvalidCredentials \<Rightarrow> ''invalid credentials'' | ErrCredentialUnavailable \<Rightarrow> ''credential service unavailable''
      | ErrIdempotencyKeyRequired \<Rightarrow> ''idempotency key is required''
      | ErrInvalidIdempotencyKey \<Rightarrow> ''idempotency key must be a UUID''
      | ErrLabelTooLong \<Rightarrow> ''label exceeds maximum length'' | ErrLabelTooShort \<Rightarrow> ''label is too short''
      | ErrLabelInvalidChars \<Rightarrow> ''label contains invalid characters'' | ErrInvalidUUID \<Rightarrow> ''invalid UUID format''
      | ErrCounterValueOverflow \<Rightarrow> ''counter value would cause overflow''
      | ErrCounterValueUnderflow \<Rightarrow> ''counter value would cause underflow''
      | ErrNotStarted \<Rightarrow> ''service has not completed startup''
      | ErrSchemaMismatch \<Rightarrow> ''database schema is incompatible'' | ErrDraining \<Rightarrow> ''service is draining'')"

text \<open>Wrapping the error of a call, leaving its value alone.\<close>

fun wrap_err :: "string \<Rightarrow> go_error + 'a \<Rightarrow> go_error + 'a" where
  "wrap_err m (Inl e) = Inl (Wrapf m e)"
| "wrap_err m (Inr x) = Inr x"

lemma wrap_err_Inr_iff [simp]: "wrap_err m r = Inr x \<longleftrightarrow> r = Inr x"
  by (cases r) auto

lemma wrap_err_Inl_iff: "wrap_err m r = Inl e \<longleftrightarrow> (\<exists>e'. r = Inl e' \<and> e = Wrapf m e')"
  by (cases r) auto

section \<open>Code outside the repository\<close>

text \<open>
  The functions the program calls and does not contain, one field each.
  \<^item> \<open>uuid_parse\<close>: \<open>uuid.Parse\<close> of github.com/google/uuid followed by \<open>String()\<close>, \<open>None\<close> for
    an error.
  \<^item> \<open>pg_uuid\<close>: PostgreSQL's reading of a text as a UUID, printed back, \<open>None\<close> for SQLSTATE
    22P02.
  \<^item> \<open>pg_time\<close>: what a TIMESTAMPTZ column keeps of a time (it has microsecond precision).
  \<^item> \<open>pg_jsonb\<close>: PostgreSQL's reading of a text as JSONB, printed back, or the SQLSTATE of its
    refusal (it refuses some valid JSON, an escaped NUL for one).
  \<^item> \<open>pq_message\<close>: the text of a \<open>*pq.Error\<close>, which comes from the server.
  \<^item> \<open>md5_uuid\<close>, \<open>md5_bytes\<close>: the SQL expressions \<open>md5(t)::uuid\<close> and \<open>decode(md5(t), 'hex')\<close>.
  \<^item> \<open>sha256\<close>: the digest function of \<open>crypto/sha256\<close>.
  \<^item> \<open>unicode_upper\<close>, \<open>unicode_lower\<close>: the simple case mappings of the Unicode data, for code points
    outside ASCII.
\<close>

record externals =
  uuid_parse :: "string \<Rightarrow> string option"
  pg_uuid :: "string \<Rightarrow> string option"
  pg_time :: "time \<Rightarrow> time"
  pg_jsonb :: "string \<Rightarrow> string + string"
  pq_message :: "string \<Rightarrow> string"
  md5_uuid :: "string \<Rightarrow> string"
  md5_bytes :: "string \<Rightarrow> string"
  sha256 :: "string \<Rightarrow> string"
  unicode_upper :: "nat \<Rightarrow> nat"
  unicode_lower :: "nat \<Rightarrow> nat"

text \<open>The text of an error.\<close>

fun error_text :: "externals \<Rightarrow> go_error \<Rightarrow> string" where
  "error_text X (Sentinel s) = sentinel_text s"
| "error_text X (Pq code) = pq_message X code"
| "error_text X (Msg m) = m"
| "error_text X (Wrapf m e) = m @ '': '' @ error_text X e"

text \<open>
  What PostgreSQL documents of these types: a UUID prints in one canonical form, which it reads
  back as itself, is never empty, and a stored time is stored again unchanged.
\<close>

definition pg_laws :: "externals \<Rightarrow> bool" where
  "pg_laws X \<longleftrightarrow>
     (\<forall>s u. pg_uuid X s = Some u \<longrightarrow> pg_uuid X u = Some u) \<and>
     pg_uuid X [] = None \<and>
     (\<forall>s. pg_uuid X (md5_uuid X s) = Some (md5_uuid X s)) \<and>
     (\<forall>t. pg_time X (pg_time X t) = pg_time X t)"

lemma pg_lawsD:
  assumes "pg_laws X"
  shows "pg_uuid X s = Some u \<Longrightarrow> pg_uuid X u = Some u"
    and "pg_uuid X [] = None"
    and "pg_uuid X (md5_uuid X s) = Some (md5_uuid X s)"
    and "pg_time X (pg_time X t) = pg_time X t"
  using assms unfolding pg_laws_def by blast+

text \<open>A stand-in for the external functions, to evaluate the definitions on concrete inputs.\<close>

definition ascii_lower :: "char \<Rightarrow> char" where
  "ascii_lower c = (if CHR ''A'' \<le> c \<and> c \<le> CHR ''Z'' then char_of (of_char c + (32::nat)) else c)"

definition to_lower :: "string \<Rightarrow> string" where
  "to_lower s = map ascii_lower s"

definition sample_ext :: externals where
  "sample_ext = \<lparr>
     uuid_parse = (\<lambda>s. if s = [] then None else Some (to_lower s)),
     pg_uuid = (\<lambda>s. if s = [] then None else Some (to_lower s)),
     pg_time = (\<lambda>t. (t + 500) div 1000 * 1000),
     pg_jsonb = Inr,
     pq_message = (\<lambda>code. ''pq: error '' @ code),
     md5_uuid = (\<lambda>s. ''md5-'' @ to_lower s),
     md5_bytes = (\<lambda>s. ''hash-'' @ s),
     sha256 = (\<lambda>s. s),
     unicode_upper = (\<lambda>r. r),
     unicode_lower = (\<lambda>r. r) \<rparr>"

lemma of_char_of_nat_small: "n < 256 \<Longrightarrow> of_char (char_of n :: char) = (n :: nat)"
  by (simp add: of_char_of)

lemma ascii_lower_code: "of_char (ascii_lower c) = (if 65 \<le> (of_char c :: nat) \<and> of_char c \<le> (90::nat)
    then of_char c + 32 else (of_char c :: nat))"
proof -
  have *: "(CHR ''A'' \<le> c) = (65 \<le> (of_char c :: nat))" "(c \<le> CHR ''Z'') = (of_char c \<le> (90 :: nat))"
    by (simp_all add: less_eq_char_def)
  show ?thesis
    unfolding ascii_lower_def * by (auto simp del: of_char_of simp: of_char_of_nat_small)
qed

lemma ascii_lower_idem [simp]: "ascii_lower (ascii_lower c) = ascii_lower c"
proof -
  have "(of_char (ascii_lower (ascii_lower c)) :: nat) = of_char (ascii_lower c)"
    by (simp add: ascii_lower_code)
  then show ?thesis by simp
qed

lemma to_lower_idem [simp]: "to_lower (to_lower s) = to_lower s"
  by (simp add: to_lower_def comp_def)

lemma to_lower_Nil_iff [simp]: "to_lower s = [] \<longleftrightarrow> s = []"
  by (simp add: to_lower_def)

lemma to_lower_append: "to_lower (s @ t) = to_lower s @ to_lower t"
  by (simp add: to_lower_def)

lemma to_lower_md5: "to_lower ''md5-'' = ''md5-''"
  by (simp add: to_lower_def ascii_lower_def less_eq_char_def)

lemma sample_ext_laws: "pg_laws sample_ext"
  using to_lower_md5 by (auto simp: pg_laws_def sample_ext_def to_lower_def)

section \<open>Lists\<close>

lemma find_Some_in: "find P xs = Some x \<Longrightarrow> x \<in> set xs \<and> P x"
  by (induction xs) (auto split: if_splits)

lemma find_None_all: "find P xs = None \<longleftrightarrow> (\<forall>x \<in> set xs. \<not> P x)"
  by (auto simp add: find_None_iff)

lemma find_unique:
  assumes "x \<in> set xs" and "P x" and "\<And>y. y \<in> set xs \<Longrightarrow> P y \<Longrightarrow> y = x"
  shows "find P xs = Some x"
proof (cases "find P xs")
  case None
  with assms(1,2) show ?thesis by (simp add: find_None_all)
next
  case (Some y)
  with find_Some_in [OF this] assms(3) show ?thesis by simp
qed

lemma distinct_map_eq:
  "distinct (map f xs) \<Longrightarrow> x \<in> set xs \<Longrightarrow> y \<in> set xs \<Longrightarrow> f x = f y \<Longrightarrow> x = y"
  by (simp add: distinct_map inj_on_def)

text \<open>
  Updating the rows of a table that satisfy a condition: \<open>UPDATE \<dots> SET \<dots> WHERE\<close>.
\<close>

definition update_where :: "('a \<Rightarrow> bool) \<Rightarrow> ('a \<Rightarrow> 'a) \<Rightarrow> 'a list \<Rightarrow> 'a list" where
  "update_where P f xs = map (\<lambda>x. if P x then f x else x) xs"

lemma update_where_Nil [simp]: "update_where P f [] = []"
  by (simp add: update_where_def)

lemma update_where_Cons [simp]:
  "update_where P f (x # xs) = (if P x then f x else x) # update_where P f xs"
  by (simp add: update_where_def)

lemma update_where_append [simp]:
  "update_where P f (xs @ ys) = update_where P f xs @ update_where P f ys"
  by (simp add: update_where_def)

lemma update_where_none: "(\<And>x. x \<in> set xs \<Longrightarrow> \<not> P x) \<Longrightarrow> update_where P f xs = xs"
  by (induction xs) auto

lemma set_update_where: "set (update_where P f xs) = (\<lambda>x. if P x then f x else x) ` set xs"
  by (simp add: update_where_def)

lemma in_update_where: "x \<in> set (update_where P f xs) \<Longrightarrow> \<exists>y \<in> set xs. x = (if P y then f y else y)"
  by (auto simp: set_update_where)

lemma map_update_where:
  "(\<And>x. x \<in> set xs \<Longrightarrow> P x \<Longrightarrow> g (f x) = g x) \<Longrightarrow> map g (update_where P f xs) = map g xs"
  by (induction xs) auto

lemma filter_update_where:
  "(\<And>x. x \<in> set xs \<Longrightarrow> P x \<Longrightarrow> \<not> Q x \<and> \<not> Q (f x)) \<Longrightarrow> filter Q (update_where P f xs) = filter Q xs"
  by (induction xs) auto

lemma list_ex_update_where:
  "(\<And>x. P x \<Longrightarrow> Q (f x) = Q x) \<Longrightarrow> list_ex Q (update_where P f xs) = list_ex Q xs"
  by (induction xs) auto

section \<open>Sorted listings\<close>

text \<open>
  A keyset page: sorting and cutting commute with the filter that a cursor adds, when the keys
  are distinct.
\<close>

lemma sorted_filter_greater:
  assumes "sorted (map k xs)" and "distinct (map k xs)" and "n < length xs"
  shows "filter (\<lambda>x. k (xs ! n) < (k x :: 'b :: linorder)) xs = drop (Suc n) xs"
  using assms
proof (induction xs arbitrary: n)
  case Nil
  then show ?case by simp
next
  case (Cons x xs)
  show ?case
  proof (cases n)
    case 0
    have "\<forall>y \<in> set xs. k x < k y"
      using Cons.prems by (auto simp: order.strict_iff_order)
    then show ?thesis using 0 by simp
  next
    case (Suc m)
    then have m: "m < length xs" using Cons.prems by simp
    then have "k x \<le> k (xs ! m)" using Cons.prems by auto
    then have "\<not> k (xs ! m) < k x" by simp
    moreover have "filter (\<lambda>y. k (xs ! m) < k y) xs = drop (Suc m) xs"
      using Cons.IH [OF _ _ m] Cons.prems by simp
    ultimately show ?thesis using Suc by simp
  qed
qed

lemma filter_sort_key: "filter P (sort_key k xs) = sort_key k (filter P xs)"
  by (rule filter_sort)

end
