(* ===== verification/Text.thy ===== *)
theory Text
  imports Prelude
begin

text \<open>
  The text functions of Go's standard library that the program uses, on byte strings: decimal
  printing and reading of integers (\<open>strconv\<close>, \<open>math/big\<close>), prefixes, splitting and trimming
  (\<open>strings\<close>).
\<close>

section \<open>Decimal numbers\<close>

definition digit :: "nat \<Rightarrow> char" where
  "digit d = char_of (48 + d)"

definition is_digit :: "char \<Rightarrow> bool" where
  "is_digit c \<longleftrightarrow> 48 \<le> (of_char c :: nat) \<and> (of_char c :: nat) \<le> 57"

fun digits :: "nat \<Rightarrow> string" where
  "digits n = (if n < 10 then [digit n] else digits (n div 10) @ [digit (n mod 10)])"

declare digits.simps [simp del]

definition itoa :: "int \<Rightarrow> string" where
  "itoa i = (if i < 0 then CHR ''-'' # digits (nat (- i)) else digits (nat i))"

fun parse_digits :: "nat \<Rightarrow> string \<Rightarrow> nat option" where
  "parse_digits acc [] = Some acc"
| "parse_digits acc (c # cs) =
     (if is_digit c then parse_digits (acc * 10 + (of_char c - 48)) cs else None)"

definition parse_nat :: "string \<Rightarrow> nat option" where
  "parse_nat s = (if s = [] then None else parse_digits 0 s)"

text \<open>\<open>new(big.Int).SetString(s, 10)\<close>: an optional sign and digits.\<close>

fun parse_int :: "string \<Rightarrow> int option" where
  "parse_int [] = None"
| "parse_int (c # cs) =
     (if c = CHR ''-'' then map_option (\<lambda>n. - int n) (parse_nat cs)
      else if c = CHR ''+'' then map_option int (parse_nat cs)
      else map_option int (parse_nat (c # cs)))"

text \<open>\<open>strconv.ParseInt(s, 10, 64)\<close>, \<open>None\<close> for a syntax or a range error.\<close>

definition ParseInt64 :: "string \<Rightarrow> int64 option" where
  "ParseInt64 s = (case parse_int s of None \<Rightarrow> None | Some i \<Rightarrow> if in_int64 i then Some i else None)"

lemma of_char_digit: "d < 10 \<Longrightarrow> of_char (digit d) = (48 + d :: nat)"
  by (simp add: digit_def of_char_of)

lemma is_digit_digit: "d < 10 \<Longrightarrow> is_digit (digit d)"
  by (simp add: is_digit_def of_char_digit)

lemma parse_digits_append:
  "parse_digits acc (s @ t) = Option.bind (parse_digits acc s) (\<lambda>a. parse_digits a t)"
  by (induction s arbitrary: acc) auto

lemma digits_not_Nil: "digits n \<noteq> []"
  by (subst digits.simps) simp

lemma parse_digits_digits: "parse_digits 0 (digits n) = Some n"
proof (induction n rule: digits.induct)
  case (1 n)
  show ?case
  proof (cases "n < 10")
    case True
    then show ?thesis
      by (subst digits.simps) (simp add: is_digit_digit of_char_digit)
  next
    case False
    then show ?thesis
      by (subst digits.simps) (simp add: 1 parse_digits_append is_digit_digit of_char_digit)
  qed
qed

lemma digits_all: "c \<in> set (digits n) \<Longrightarrow> is_digit c"
proof (induction n rule: digits.induct)
  case (1 n)
  then show ?case
    by (cases "n < 10") (auto simp: digits.simps [of n] is_digit_digit)
qed

lemma parse_nat_digits [simp]: "parse_nat (digits n) = Some n"
  by (simp add: parse_nat_def digits_not_Nil parse_digits_digits)

lemma parse_int_itoa [simp]: "parse_int (itoa i) = Some i"
proof (cases "i < 0")
  case True
  then show ?thesis by (simp add: itoa_def)
next
  case False
  obtain c cs where d: "digits (nat i) = c # cs"
    by (cases "digits (nat i)") (simp_all add: digits_not_Nil)
  then have "is_digit c" using digits_all [of c "nat i"] by simp
  then have "c \<noteq> CHR ''-''" "c \<noteq> CHR ''+''" by (auto simp: is_digit_def)
  with False d parse_nat_digits [of "nat i"] show ?thesis by (simp add: itoa_def)
qed

lemma ParseInt64_itoa: "in_int64 i \<Longrightarrow> ParseInt64 (itoa i) = Some i"
  by (simp add: ParseInt64_def)

lemma ParseInt64_in_range: "ParseInt64 s = Some i \<Longrightarrow> in_int64 i"
  by (auto simp: ParseInt64_def split: option.splits if_splits)

lemma itoa_inject: "itoa i = itoa j \<Longrightarrow> i = j"
  using parse_int_itoa by (metis option.inject)

section \<open>Hexadecimal\<close>

definition hex_digit :: "nat \<Rightarrow> char" where
  "hex_digit n = (if n < 10 then char_of (48 + n) else char_of (87 + n))"

definition hex_EncodeToString :: "string \<Rightarrow> string" where
  "hex_EncodeToString s = concat (map (\<lambda>c. [hex_digit (of_char c div 16), hex_digit (of_char c mod 16)]) s)"

section \<open>Prefixes and splitting\<close>

fun HasPrefix :: "string \<Rightarrow> string \<Rightarrow> bool" where
  "HasPrefix s [] = True"
| "HasPrefix [] (p # ps) = False"
| "HasPrefix (c # cs) (p # ps) = (c = p \<and> HasPrefix cs ps)"

definition HasSuffix :: "string \<Rightarrow> string \<Rightarrow> bool" where
  "HasSuffix s p = HasPrefix (rev s) (rev p)"

definition TrimPrefix :: "string \<Rightarrow> string \<Rightarrow> string" where
  "TrimPrefix s p = (if HasPrefix s p then drop (length p) s else s)"

lemma HasPrefix_iff: "HasPrefix s p \<longleftrightarrow> (\<exists>t. s = p @ t)"
  by (induction s p rule: HasPrefix.induct) auto

lemma HasPrefix_append [simp]: "HasPrefix (p @ t) p"
  by (auto simp: HasPrefix_iff)

lemma TrimPrefix_append [simp]: "TrimPrefix (p @ t) p = t"
  by (simp add: TrimPrefix_def)

text \<open>Splitting at the first occurrence of a byte: \<open>strings.SplitN(s, sep, 2)\<close> and \<open>strings.Cut\<close>.\<close>

fun cut :: "char \<Rightarrow> string \<Rightarrow> (string \<times> string) option" where
  "cut sep [] = None"
| "cut sep (c # cs) = (if c = sep then Some ([], cs)
     else map_option (\<lambda>(a, b). (c # a, b)) (cut sep cs))"

lemma cut_append: "sep \<notin> set a \<Longrightarrow> cut sep (a @ sep # b) = Some (a, b)"
  by (induction a) auto

lemma cut_SomeD: "cut sep s = Some (a, b) \<Longrightarrow> s = a @ sep # b \<and> sep \<notin> set a"
  by (induction s arbitrary: a) (auto split: if_splits)

text \<open>\<open>strings.Split(s, sep)\<close> for a separator of one byte.\<close>

fun split_on :: "char \<Rightarrow> string \<Rightarrow> string list" where
  "split_on sep [] = [[]]"
| "split_on sep (c # cs) = (if c = sep then [] # split_on sep cs
     else (case split_on sep cs of [] \<Rightarrow> [[c]] | w # ws \<Rightarrow> (c # w) # ws))"

text \<open>
  \<open>strings.TrimSpace\<close>: the encodings of the runes of \<open>unicode.IsSpace\<close> are taken off the front
  while there are any, then off the end.
\<close>

definition bytes :: "nat list \<Rightarrow> string" where
  "bytes ns = map char_of ns"

definition space_seqs :: "string list" where
  "space_seqs =
     map bytes ([[9], [10], [11], [12], [13], [32], [194, 133], [194, 160], [225, 154, 128]] @
       map (\<lambda>k. [226, 128, k]) ([128..<139] @ [168, 169, 175]) @ [[226, 129, 159], [227, 128, 128]])"

function trim_seqs :: "string list \<Rightarrow> string \<Rightarrow> string" where
  "trim_seqs seqs s =
     (case find (\<lambda>p. p \<noteq> [] \<and> HasPrefix s p) seqs of
        None \<Rightarrow> s
      | Some p \<Rightarrow> trim_seqs seqs (drop (length p) s))"
  by auto
termination
proof (relation "measure (\<lambda>(_, s). length s)")
  fix seqs s p
  assume "find (\<lambda>p. p \<noteq> [] \<and> HasPrefix s p) seqs = Some p"
  then have "p \<noteq> []" "HasPrefix s p" using find_Some_in by fastforce+
  then show "((seqs, drop (length p) s), seqs, s) \<in> measure (\<lambda>(_, s). length s)"
    by (auto simp: HasPrefix_iff)
qed simp

declare trim_seqs.simps [simp del]

definition TrimSpace :: "string \<Rightarrow> string" where
  "TrimSpace s = rev (trim_seqs (map rev space_seqs) (rev (trim_seqs space_seqs s)))"

text \<open>A visible ASCII character.\<close>

definition graphic :: "char \<Rightarrow> bool" where
  "graphic c \<longleftrightarrow> 32 < (of_char c :: nat) \<and> (of_char c :: nat) < 127"

lemma trim_seqs_id:
  "(\<And>p. p \<in> set seqs \<Longrightarrow> p \<noteq> [] \<Longrightarrow> \<not> HasPrefix s p) \<Longrightarrow> trim_seqs seqs s = s"
  by (subst trim_seqs.simps) (auto split: option.splits dest: find_Some_in)

lemma space_seqs_edges:
  "list_all (\<lambda>p. p \<noteq> [] \<and> \<not> graphic (hd p) \<and> \<not> graphic (last p)) space_seqs"
  by code_simp

lemma HasPrefix_hd: "HasPrefix s p \<Longrightarrow> p \<noteq> [] \<Longrightarrow> s \<noteq> [] \<and> hd s = hd p"
  by (cases s; cases p) auto

lemma TrimSpace_id:
  assumes "\<forall>c \<in> set s. graphic c"
  shows "TrimSpace s = s"
proof -
  have "\<not> HasPrefix s p" if "p \<in> set space_seqs" for p
    using space_seqs_edges that assms HasPrefix_hd [of s p] hd_in_set [of s]
    unfolding list_all_iff by metis
  then have "trim_seqs space_seqs s = s" by (intro trim_seqs_id) auto
  moreover have "\<not> HasPrefix (rev s) p" if "p \<in> set (map rev space_seqs)" for p
  proof -
    from that obtain q where q: "q \<in> set space_seqs" "p = rev q" by auto
    with space_seqs_edges have "q \<noteq> []" "\<not> graphic (last q)" by (auto simp: list_all_iff)
    then show ?thesis
      using q assms HasPrefix_hd [of "rev s" p] last_in_set [of s] by (metis hd_rev rev_is_Nil_conv)
  qed
  then have "trim_seqs (map rev space_seqs) (rev s) = rev s" by (intro trim_seqs_id) auto
  ultimately show ?thesis by (simp add: TrimSpace_def)
qed

text \<open>Trimming leaves no white space at the front.\<close>

lemma trim_seqs_front: "p \<in> set seqs \<Longrightarrow> p \<noteq> [] \<Longrightarrow> \<not> HasPrefix (trim_seqs seqs s) p"
proof (induction seqs s rule: trim_seqs.induct)
  case (1 seqs s)
  show ?case
  proof (cases "find (\<lambda>p. p \<noteq> [] \<and> HasPrefix s p) seqs")
    case None
    then have "trim_seqs seqs s = s" by (subst trim_seqs.simps) simp
    with None 1(2,3) show ?thesis by (auto simp: find_None_all)
  next
    case (Some q)
    with 1 show ?thesis by (subst trim_seqs.simps) simp
  qed
qed

end
