(* ===== verification/Database.thy ===== *)
theory Database
  imports Prelude
begin

text \<open>
  The PostgreSQL side of the program: the rows of the tables that the embedded migrations
  create (\<open>internal/migrations/*.sql\<close>, with the Go structures of \<open>internal/models\<close> that are read
  from them), the authorization context, the row-level security predicates of migration 10 and
  the transactions of \<open>internal/database/transaction.go\<close>. A table is the list of its rows. SQL
  statements run atomically on it; a row lock makes the writers of one counter take turns, so a
  transaction is one step. Every statement, and every commit, may fail: which ones do is a
  parameter of the operation.
\<close>

section \<open>Rows\<close>

record tenant =
  tn_id :: string
  tn_label :: string
  tn_created_at :: time
  tn_updated_at :: time

record counter =
  ctr_id :: string
  ctr_tenant_id :: string
  ctr_label :: string
  ctr_value :: int64
  ctr_max_delta :: int64
  ctr_created_at :: time
  ctr_updated_at :: time

datatype op_kind = InitialValue | Increment | SetAdjustment

datatype op_state = Pending | Completed

record operation =
  op_tenant_id :: string
  op_counter_id :: string
  op_id :: string
  op_kind :: op_kind
  op_delta :: int64
  op_request_hash :: string
  op_value_before :: "int64 option"
  op_value_after :: "int64 option"
  op_actor_id :: "string option"
  op_metadata :: json
  op_state :: op_state
  op_created_at :: time
  op_completed_at :: "time option"

record credential =
  cr_id :: string
  cr_tenant_id :: "string option"
  cr_verifier :: string
  cr_scopes :: "string list"
  cr_is_admin :: bool
  cr_created_at :: time
  cr_expires_at :: "time option"
  cr_revoked_at :: "time option"
  cr_created_by :: string
  cr_rotated_from :: "string option"

datatype audit_action = ActCreated | ActRotated | ActRevoked | ActPrivilegedAdjustment

record audit_event =
  ev_id :: string
  ev_credential_id :: "string option"
  ev_tenant_id :: "string option"
  ev_actor_id :: string
  ev_action :: audit_action
  ev_metadata :: json
  ev_created_at :: time

record metadata_row =
  md_tenant_id :: string
  md_counter_id :: string
  md_data :: string
  md_version :: string
  md_created_at :: time
  md_updated_at :: time

record idempotency_row =
  ir_scope :: string
  ir_key :: string
  ir_hash :: string
  ir_status :: int
  ir_content_type :: string
  ir_body :: string
  ir_expires_at :: time
  ir_tenant_id :: "string option"
  ir_principal_id :: string
  ir_headers :: "(string \<times> string) list"

record database =
  tenants :: "tenant list"
  counters :: "counter list"
  operations :: "operation list"
  credentials :: "credential list"
  audit_events :: "audit_event list"
  metadata_rows :: "metadata_row list"
  idempotency_rows :: "idempotency_row list"

definition empty_database :: database where
  "empty_database = \<lparr>tenants = [], counters = [], operations = [], credentials = [],
     audit_events = [], metadata_rows = [], idempotency_rows = []\<rparr>"

section \<open>The request context\<close>

record access =
  acc_TenantID :: string
  acc_PrincipalID :: string
  acc_Admin :: bool
  acc_AuthenticationID :: string

text \<open>
  What the program keeps in a \<open>context.Context\<close>: whether an outer transaction is bound to it,
  the access (absent on a fresh context), the request ID.
\<close>

record go_context =
  ctx_tx :: bool
  ctx_access :: "access option"
  ctx_request_id :: string

definition no_access :: access where
  "no_access = \<lparr>acc_TenantID = [], acc_PrincipalID = [], acc_Admin = False, acc_AuthenticationID = []\<rparr>"

definition context_Background :: go_context where
  "context_Background = \<lparr>ctx_tx = False, ctx_access = None, ctx_request_id = []\<rparr>"

definition WithAccess :: "go_context \<Rightarrow> access \<Rightarrow> go_context" where
  "WithAccess ctx a = ctx\<lparr>ctx_access := Some a\<rparr>"

definition AccessFromContext :: "go_context \<Rightarrow> access" where
  "AccessFromContext ctx = (case ctx_access ctx of None \<Rightarrow> no_access | Some a \<Rightarrow> a)"

definition WithTransaction :: "go_context \<Rightarrow> go_context" where
  "WithTransaction ctx = ctx\<lparr>ctx_tx := True\<rparr>"

definition WithRequestID :: "go_context \<Rightarrow> string \<Rightarrow> go_context" where
  "WithRequestID ctx r = ctx\<lparr>ctx_request_id := r\<rparr>"

definition RequestID :: "go_context \<Rightarrow> string" where
  "RequestID ctx = ctx_request_id ctx"

lemma AccessFromContext_WithAccess [simp]: "AccessFromContext (WithAccess ctx a) = a"
  by (simp add: AccessFromContext_def WithAccess_def)

lemma AccessFromContext_WithTransaction [simp]:
  "AccessFromContext (WithTransaction ctx) = AccessFromContext ctx"
  by (simp add: AccessFromContext_def WithTransaction_def)

section \<open>Row-level security\<close>

text \<open>
  The two SQL functions of migration 10 over the transaction-local settings that \<open>BeginWrite\<close>
  makes from the access. A missing tenant setting is the empty text; a row's tenant may be NULL.
\<close>

definition counter_app_admin :: "access \<Rightarrow> bool" where
  "counter_app_admin a = acc_Admin a"

definition counter_tenant_visible :: "externals \<Rightarrow> access \<Rightarrow> string option \<Rightarrow> bool" where
  "counter_tenant_visible X a row_tenant =
     (if acc_TenantID a = [] then counter_app_admin a
      else row_tenant \<noteq> None \<and> pg_uuid X (acc_TenantID a) = row_tenant)"

text \<open>An access with a tenant, administrator or not, sees that tenant's rows only.\<close>

lemma counter_tenant_visible_only:
  "counter_tenant_visible X a (Some t) \<Longrightarrow> acc_TenantID a \<noteq> [] \<Longrightarrow> pg_uuid X (acc_TenantID a) = Some t"
  by (simp add: counter_tenant_visible_def)

lemma no_access_sees_nothing: "\<not> counter_tenant_visible X no_access r"
  by (simp add: counter_tenant_visible_def counter_app_admin_def no_access_def)

section \<open>Faults\<close>

datatype stmt =
    SBegin | SSetConfig
  | STenantExists | SInsertTenant | SGetTenant
  | SInsertCounter | SInsertInitial | SGetCounter | SListCounters
  | SLockCounter | SInsertOperation | SLoadOperation | SUpdateCounter | SCompleteOperation
  | SInsertAudit | SListOperations | SReconcile
  | SGetCredential | SInsertCredential | SRevokeCredential
  | SCounterExists | SGetMetadata | SInsertMetadata | SUpdateMetadata | SDeleteMetadata
  | SAdvisoryLock | SPurgeRequests | SLoadRequest | SInsertRequest
  | SBeginSingle stmt | SSetConfigSingle stmt

text \<open>
  A commit succeeds, fails with nothing kept, or is reported as failed although the server
  made it durable (the connection broke before the answer came). A request may run several
  transactions: the begin, the settings and the commit of the transaction around a single statement
  fail on their own, apart from those of a transaction that the store opens itself.
\<close>

datatype commit_outcome = CommitOK | CommitRejected go_error | CommitLost go_error

record faults =
  stmt_err :: "stmt \<Rightarrow> go_error option"
  commit_out :: commit_outcome
  single_commit :: "stmt \<Rightarrow> commit_outcome"

definition no_faults :: faults where
  "no_faults = \<lparr>stmt_err = (\<lambda>_. None), commit_out = CommitOK, single_commit = (\<lambda>_. CommitOK)\<rparr>"

text \<open>The failures of the transaction around the single statement \<open>s\<close>.\<close>

definition single_faults :: "faults \<Rightarrow> stmt \<Rightarrow> faults" where
  "single_faults f s = f\<lparr>stmt_err := (stmt_err f)(SBegin := stmt_err f (SBeginSingle s),
     SSetConfig := stmt_err f (SSetConfigSingle s)), commit_out := single_commit f s\<rparr>"

lemma single_faults_clean [simp]: "single_faults no_faults s = no_faults"
  by (simp add: single_faults_def no_faults_def)

text \<open>A statement returns the error the environment injects, and otherwise what it computes.\<close>

definition exec :: "faults \<Rightarrow> stmt \<Rightarrow> go_error + 'a \<Rightarrow> go_error + 'a" where
  "exec f s r = (case stmt_err f s of Some e \<Rightarrow> Inl e | None \<Rightarrow> r)"

lemma exec_no_faults [simp]: "exec no_faults s r = r"
  by (simp add: exec_def no_faults_def)

lemma exec_Inr: "exec f s r = Inr x \<longleftrightarrow> stmt_err f s = None \<and> r = Inr x"
  by (auto simp: exec_def split: option.splits)

section \<open>Transactions\<close>

text \<open>
  \<open>BeginWrite\<close> with the deferred rollback and the final \<open>finish(true)\<close> of its callers. When the
  context carries an outer transaction the body joins it and both calls of \<open>finish\<close> do nothing:
  whatever the body changed stays with the outer transaction, whose owner decides. Otherwise a
  body that returns an error is rolled back, and a body that succeeds is committed. \<open>bw\<close> and \<open>cw\<close>
  wrap the errors of beginning and of committing the way the caller does, which may depend on the
  body's result.
\<close>

definition BeginWrite ::
  "faults \<Rightarrow> go_context \<Rightarrow> (go_error \<Rightarrow> go_error) \<Rightarrow> ('a \<Rightarrow> go_error \<Rightarrow> go_error) \<Rightarrow>
   (database \<Rightarrow> (go_error + 'a) \<times> database) \<Rightarrow> database \<Rightarrow> (go_error + 'a) \<times> database" where
  "BeginWrite f ctx bw cw body db =
     (if ctx_tx ctx then body db
      else case stmt_err f SBegin of
        Some e \<Rightarrow> (Inl (bw e), db)
      | None \<Rightarrow>
        (case stmt_err f SSetConfig of
          Some e \<Rightarrow> (Inl (bw (Wrapf ''set transaction access'' e)), db)
        | None \<Rightarrow>
          (case body db of
            (Inl e, _) \<Rightarrow> (Inl e, db)
          | (Inr r, db') \<Rightarrow>
            (case commit_out f of
              CommitOK \<Rightarrow> (Inr r, db')
            | CommitRejected e \<Rightarrow> (Inl (cw r e), db)
            | CommitLost e \<Rightarrow> (Inl (cw r e), db')))))"

text \<open>
  \<open>ExecutorFor\<close> and the methods of \<open>scopedExecutor\<close>: one statement, in the outer transaction when
  there is one and in a transaction of its own otherwise.
\<close>

definition ExecutorFor ::
  "faults \<Rightarrow> go_context \<Rightarrow> stmt \<Rightarrow> (database \<Rightarrow> go_error + ('a \<times> database)) \<Rightarrow> database \<Rightarrow>
   (go_error + 'a) \<times> database" where
  "ExecutorFor f ctx s stm db =
     BeginWrite (single_faults f s) ctx (\<lambda>e. e) (\<lambda>_ e. e)
       (\<lambda>d. case exec f s (stm d) of Inl e \<Rightarrow> (Inl e, d) | Inr (r, d') \<Rightarrow> (Inr r, d')) db"

text \<open>A statement that only reads.\<close>

definition query ::
  "faults \<Rightarrow> go_context \<Rightarrow> stmt \<Rightarrow> (database \<Rightarrow> go_error + 'a) \<Rightarrow> database \<Rightarrow> go_error + 'a" where
  "query f ctx s stm db =
     fst (ExecutorFor f ctx s (\<lambda>d. case stm d of Inl e \<Rightarrow> Inl e | Inr r \<Rightarrow> Inr (r, d)) db)"

lemma BeginWrite_Inr:
  assumes "BeginWrite f ctx bw cw body db = (Inr r, db')"
  shows "body db = (Inr r, db')"
  using assms
  by (auto simp: BeginWrite_def split: if_splits option.splits prod.splits sum.splits commit_outcome.splits)

text \<open>Atomicity: outside an outer transaction the tables change by the whole body or not at all.\<close>

lemma BeginWrite_atomic:
  assumes "BeginWrite f ctx bw cw body db = (res, db')" and "\<not> ctx_tx ctx"
  shows "db' = db \<or> (\<exists>r. body db = (Inr r, db'))"
  using assms
  by (auto simp: BeginWrite_def split: if_splits option.splits prod.splits sum.splits commit_outcome.splits)

text \<open>An error answer means that nothing changed, unless the answer of the commit was lost.\<close>

lemma BeginWrite_error:
  assumes "BeginWrite f ctx bw cw body db = (Inl e, db')" and "\<not> ctx_tx ctx"
    and "\<And>e'. commit_out f \<noteq> CommitLost e'"
  shows "db' = db"
  using assms
  by (auto simp: BeginWrite_def split: if_splits option.splits prod.splits sum.splits commit_outcome.splits)

lemma BeginWrite_cases:
  assumes "BeginWrite f ctx bw cw body db = (res, db')"
  obtains "db' = db" | r where "body db = (Inr r, db')" | e where "ctx_tx ctx" "body db = (Inl e, db')"
proof (cases "ctx_tx ctx")
  case True
  with assms have "body db = (res, db')" by (simp add: BeginWrite_def)
  then show thesis using that True by (cases res) auto
next
  case False
  from BeginWrite_atomic [OF assms False] show thesis using that by auto
qed

lemma BeginWrite_clean [simp]:
  "BeginWrite no_faults ctx bw cw body db =
     (if ctx_tx ctx then body db
      else case body db of (Inl e, _) \<Rightarrow> (Inl e, db) | (Inr r, db') \<Rightarrow> (Inr r, db'))"
  by (auto simp: BeginWrite_def no_faults_def split: prod.splits sum.splits)

lemma query_clean [simp]: "query no_faults ctx s stm db = stm db"
  by (simp add: query_def ExecutorFor_def split: sum.splits)

lemma query_Inr: "query f ctx s stm db = Inr r \<Longrightarrow> stm db = Inr r"
  by (auto simp: query_def ExecutorFor_def BeginWrite_def exec_def
      split: if_splits option.splits prod.splits sum.splits commit_outcome.splits)

end
