(* ===== verification/Counter_Store.thy ===== *)
theory Counter_Store
  imports Database
begin

text \<open>
  \<open>internal/store/counter.go\<close>: the SQL statements of the counter store and the operations built
  from them, with every error branch. A UUID argument is cast by PostgreSQL where the statement
  uses it, so the tables hold canonical identifiers whatever spelling the caller used.
\<close>

section \<open>The statements\<close>

definition tenant_exists_stmt :: "externals \<Rightarrow> access \<Rightarrow> string \<Rightarrow> database \<Rightarrow> go_error + bool" where
  "tenant_exists_stmt X a tenantID db =
     (case pg_uuid X tenantID of
        None \<Rightarrow> Inl (Pq ''22P02'')
      | Some t \<Rightarrow> Inr (list_ex (\<lambda>r. tn_id r = t \<and> counter_tenant_visible X a (Some (tn_id r))) (tenants db)))"

definition insert_counter_stmt :: "externals \<Rightarrow> access \<Rightarrow> counter \<Rightarrow> database \<Rightarrow> go_error + database" where
  "insert_counter_stmt X a c db =
     (case (pg_uuid X (ctr_id c), pg_uuid X (ctr_tenant_id c)) of
        (Some i, Some t) \<Rightarrow>
          (if \<not> counter_tenant_visible X a (Some t) then Inl (Pq ''42501'')
           else if list_ex (\<lambda>r. ctr_id r = i \<or> ctr_tenant_id r = t \<and> ctr_label r = ctr_label c) (counters db)
             then Inl (Pq ''23505'')
           else if \<not> list_ex (\<lambda>r. tn_id r = t) (tenants db) then Inl (Pq ''23503'')
           else Inr (db\<lparr>counters := counters db @
             [c\<lparr>ctr_id := i, ctr_tenant_id := t, ctr_created_at := pg_time X (ctr_created_at c),
                ctr_updated_at := pg_time X (ctr_updated_at c)\<rparr>]\<rparr>))
      | _ \<Rightarrow> Inl (Pq ''22P02''))"

text \<open>
  Inserting an operation row: the policy's check, the primary key, the foreign key to the
  counter. \<open>ON CONFLICT DO NOTHING\<close> turns a primary-key conflict into no row (\<open>None\<close>).
\<close>

definition insert_operation_row ::
  "externals \<Rightarrow> access \<Rightarrow> operation \<Rightarrow> database \<Rightarrow> go_error + database option" where
  "insert_operation_row X a r db =
     (if \<not> counter_tenant_visible X a (Some (op_tenant_id r)) then Inl (Pq ''42501'')
      else if list_ex (\<lambda>o'. op_tenant_id o' = op_tenant_id r \<and> op_id o' = op_id r) (operations db) then Inr None
      else if \<not> list_ex (\<lambda>c. ctr_tenant_id c = op_tenant_id r \<and> ctr_id c = op_counter_id r) (counters db)
        then Inl (Pq ''23503'')
      else Inr (Some (db\<lparr>operations := operations db @ [r]\<rparr>)))"

definition insert_initial_stmt ::
  "externals \<Rightarrow> access \<Rightarrow> string \<Rightarrow> string \<Rightarrow> int64 \<Rightarrow> time \<Rightarrow> database \<Rightarrow> go_error + database" where
  "insert_initial_stmt X a tenantID counterID v now db =
     (case (pg_uuid X tenantID, pg_uuid X counterID) of
        (Some t, Some c) \<Rightarrow>
          (case insert_operation_row X a
             \<lparr>op_tenant_id = t, op_counter_id = c, op_id = md5_uuid X (''counter-initial:'' @ c),
              op_kind = InitialValue, op_delta = v,
              op_request_hash = md5_bytes X (''counter-initial:'' @ c),
              op_value_before = Some 0, op_value_after = Some v, op_actor_id = None,
              op_metadata = JObject [], op_state = Completed,
              op_created_at = pg_time X now, op_completed_at = Some (pg_time X now)\<rparr> db of
             Inl e \<Rightarrow> Inl e
           | Inr None \<Rightarrow> Inl (Pq ''23505'')
           | Inr (Some db') \<Rightarrow> Inr db')
      | _ \<Rightarrow> Inl (Pq ''22P02''))"

definition select_counter_stmt ::
  "externals \<Rightarrow> access \<Rightarrow> string \<Rightarrow> string \<Rightarrow> database \<Rightarrow> go_error + counter" where
  "select_counter_stmt X a tenantID counterID db =
     (case (pg_uuid X tenantID, pg_uuid X counterID) of
        (Some t, Some c) \<Rightarrow>
          (case find (\<lambda>r. ctr_id r = c \<and> ctr_tenant_id r = t \<and>
                counter_tenant_visible X a (Some (ctr_tenant_id r))) (counters db) of
             None \<Rightarrow> Inl (Sentinel ErrNoRows)
           | Some r \<Rightarrow> Inr r)
      | _ \<Rightarrow> Inl (Pq ''22P02''))"

record counter_cursor =
  cc_CreatedAt :: time
  cc_ID :: string

definition counter_key :: "counter \<Rightarrow> time \<times> string" where
  "counter_key c = (ctr_created_at c, ctr_id c)"

definition list_counters_stmt ::
  "externals \<Rightarrow> access \<Rightarrow> string \<Rightarrow> counter_cursor option \<Rightarrow> nat \<Rightarrow> database \<Rightarrow> go_error + counter list" where
  "list_counters_stmt X a tenantID cursor n db =
     (case pg_uuid X tenantID of
        None \<Rightarrow> Inl (Pq ''22P02'')
      | Some t \<Rightarrow>
        (let rows = filter (\<lambda>r. ctr_tenant_id r = t \<and> counter_tenant_visible X a (Some (ctr_tenant_id r)))
               (counters db)
         in case cursor of
              None \<Rightarrow> Inr (take n (sort_key counter_key rows))
            | Some cur \<Rightarrow>
              (case pg_uuid X (cc_ID cur) of
                 None \<Rightarrow> Inl (Pq ''22P02'')
               | Some i \<Rightarrow>
                 Inr (take n (sort_key counter_key
                   (filter (\<lambda>r. (pg_time X (cc_CreatedAt cur), i) < counter_key r) rows))))))"

definition insert_operation_stmt ::
  "externals \<Rightarrow> access \<Rightarrow> string \<Rightarrow> string \<Rightarrow> string \<Rightarrow> op_kind \<Rightarrow> int64 \<Rightarrow> string \<Rightarrow> string \<Rightarrow> json \<Rightarrow> time \<Rightarrow>
   database \<Rightarrow> go_error + (string \<times> database) option" where
  "insert_operation_stmt X a tenantID counterID operationID kind delta h actorID meta now db =
     (case (pg_uuid X tenantID, pg_uuid X counterID, pg_uuid X operationID) of
        (Some t, Some c, Some oid) \<Rightarrow>
          (case insert_operation_row X a
             \<lparr>op_tenant_id = t, op_counter_id = c, op_id = oid, op_kind = kind, op_delta = delta,
              op_request_hash = h, op_value_before = None, op_value_after = None,
              op_actor_id = Some actorID, op_metadata = meta, op_state = Pending,
              op_created_at = pg_time X now, op_completed_at = None\<rparr> db of
             Inl e \<Rightarrow> Inl e
           | Inr None \<Rightarrow> Inr None
           | Inr (Some db') \<Rightarrow> Inr (Some (oid, db')))
      | _ \<Rightarrow> Inl (Pq ''22P02''))"

definition update_counter_stmt ::
  "externals \<Rightarrow> access \<Rightarrow> string \<Rightarrow> string \<Rightarrow> int64 \<Rightarrow> time \<Rightarrow> database \<Rightarrow> go_error + database" where
  "update_counter_stmt X a tenantID counterID v now db =
     (case (pg_uuid X tenantID, pg_uuid X counterID) of
        (Some t, Some c) \<Rightarrow>
          Inr (db\<lparr>counters := update_where
            (\<lambda>r. ctr_tenant_id r = t \<and> ctr_id r = c \<and> counter_tenant_visible X a (Some (ctr_tenant_id r)))
            (\<lambda>r. r\<lparr>ctr_value := v, ctr_updated_at := pg_time X now\<rparr>) (counters db)\<rparr>)
      | _ \<Rightarrow> Inl (Pq ''22P02''))"

definition complete_operation_stmt ::
  "externals \<Rightarrow> access \<Rightarrow> string \<Rightarrow> string \<Rightarrow> int64 \<Rightarrow> int64 \<Rightarrow> time \<Rightarrow> database \<Rightarrow> go_error + database" where
  "complete_operation_stmt X a tenantID operationID before after now db =
     (case (pg_uuid X tenantID, pg_uuid X operationID) of
        (Some t, Some oid) \<Rightarrow>
          Inr (db\<lparr>operations := update_where
            (\<lambda>r. op_tenant_id r = t \<and> op_id r = oid \<and> counter_tenant_visible X a (Some (op_tenant_id r)))
            (\<lambda>r. r\<lparr>op_value_before := Some before, op_value_after := Some after, op_state := Completed,
                   op_completed_at := Some (pg_time X now)\<rparr>) (operations db)\<rparr>)
      | _ \<Rightarrow> Inl (Pq ''22P02''))"

definition load_operation_stmt ::
  "externals \<Rightarrow> access \<Rightarrow> string \<Rightarrow> string \<Rightarrow> database \<Rightarrow> go_error + operation" where
  "load_operation_stmt X a tenantID operationID db =
     (case (pg_uuid X tenantID, pg_uuid X operationID) of
        (Some t, Some oid) \<Rightarrow>
          (case find (\<lambda>r. op_tenant_id r = t \<and> op_id r = oid \<and>
                counter_tenant_visible X a (Some (op_tenant_id r))) (operations db) of
             None \<Rightarrow> Inl (Sentinel ErrNoRows)
           | Some r \<Rightarrow> Inr r)
      | _ \<Rightarrow> Inl (Pq ''22P02''))"

text \<open>
  Inserting into \<open>auth_audit_events\<close>: the primary key is the event's ID alone, over all tenants.
  The optional credential and tenant are foreign keys.
\<close>

definition insert_audit_stmt :: "externals \<Rightarrow> access \<Rightarrow> audit_event \<Rightarrow> database \<Rightarrow> go_error + database" where
  "insert_audit_stmt X a ev db =
     (case (pg_uuid X (ev_id ev), map_option (pg_uuid X) (ev_tenant_id ev),
            map_option (pg_uuid X) (ev_credential_id ev)) of
        (None, _, _) \<Rightarrow> Inl (Pq ''22P02'')
      | (_, Some None, _) \<Rightarrow> Inl (Pq ''22P02'')
      | (_, _, Some None) \<Rightarrow> Inl (Pq ''22P02'')
      | (Some i, tn, crd) \<Rightarrow>
        (let t = Option.bind tn (\<lambda>x. x); c = Option.bind crd (\<lambda>x. x)
         in if \<not> counter_tenant_visible X a t then Inl (Pq ''42501'')
            else if list_ex (\<lambda>r. ev_id r = i) (audit_events db) then Inl (Pq ''23505'')
            else if (case t of None \<Rightarrow> False | Some t' \<Rightarrow> \<not> list_ex (\<lambda>r. tn_id r = t') (tenants db))
              then Inl (Pq ''23503'')
            else if (case c of None \<Rightarrow> False | Some c' \<Rightarrow> \<not> list_ex (\<lambda>r. cr_id r = c') (credentials db))
              then Inl (Pq ''23503'')
            else Inr (db\<lparr>audit_events := audit_events db @
              [ev\<lparr>ev_id := i, ev_tenant_id := t, ev_credential_id := c,
                  ev_created_at := pg_time X (ev_created_at ev)\<rparr>]\<rparr>)))"

section \<open>The operations\<close>

definition TenantExists ::
  "externals \<Rightarrow> faults \<Rightarrow> go_context \<Rightarrow> string \<Rightarrow> database \<Rightarrow> go_error + bool" where
  "TenantExists X f ctx tenantID db =
     wrap_err ''check tenant''
       (query f ctx STenantExists (tenant_exists_stmt X (AccessFromContext ctx) tenantID) db)"

definition CreateCounter_body ::
  "externals \<Rightarrow> faults \<Rightarrow> access \<Rightarrow> counter \<Rightarrow> database \<Rightarrow> (go_error + unit) \<times> database" where
  "CreateCounter_body X f a c db =
     (case exec f SInsertCounter (insert_counter_stmt X a c db) of
        Inl e \<Rightarrow>
          (if errors_As_pq e = Some ''23503'' then Inl (Sentinel StoreErrTenantNotFound)
           else if errors_As_pq e = Some ''23505'' then Inl (Sentinel StoreErrCounterConflict)
           else Inl (Wrapf ''create counter'' e), db)
      | Inr db1 \<Rightarrow>
        (case exec f SInsertInitial
            (insert_initial_stmt X a (ctr_tenant_id c) (ctr_id c) (ctr_value c) (ctr_created_at c) db1) of
           Inl e \<Rightarrow> (Inl (Wrapf ''record initial counter value'' e), db1)
         | Inr db2 \<Rightarrow> (Inr (), db2)))"

definition CreateCounter ::
  "externals \<Rightarrow> faults \<Rightarrow> go_context \<Rightarrow> counter \<Rightarrow> database \<Rightarrow> (go_error + unit) \<times> database" where
  "CreateCounter X f ctx c db =
     BeginWrite f ctx (Wrapf ''begin create counter'') (\<lambda>_. Wrapf ''commit create counter'')
       (CreateCounter_body X f (AccessFromContext ctx) c) db"

definition GetCounter ::
  "externals \<Rightarrow> faults \<Rightarrow> go_context \<Rightarrow> string \<Rightarrow> string \<Rightarrow> database \<Rightarrow> go_error + counter" where
  "GetCounter X f ctx tenantID counterID db =
     (case query f ctx SGetCounter (select_counter_stmt X (AccessFromContext ctx) tenantID counterID) db of
        Inl e \<Rightarrow> if errors_Is e ErrNoRows then Inl (Sentinel StoreErrCounterNotFound)
                 else Inl (Wrapf ''get counter'' e)
      | Inr c \<Rightarrow> Inr c)"

definition ListCounters ::
  "externals \<Rightarrow> faults \<Rightarrow> go_context \<Rightarrow> string \<Rightarrow> counter_cursor option \<Rightarrow> nat \<Rightarrow> database \<Rightarrow>
   go_error + counter list" where
  "ListCounters X f ctx tenantID cursor limit db =
     wrap_err ''list counters''
       (query f ctx SListCounters
         (list_counters_stmt X (AccessFromContext ctx) tenantID cursor (limit + 1)) db)"

record mutation_result =
  mr_OperationID :: string
  mr_Delta :: int64
  mr_Value :: int64
  mr_UpdatedAt :: time
  mr_Replayed :: bool

definition requestMetadata :: "go_context \<Rightarrow> json" where
  "requestMetadata ctx =
     (if RequestID ctx = [] then JObject []
      else JObject [(''request_id'', JString (RequestID ctx))])"

definition resolveExistingOperation ::
  "externals \<Rightarrow> faults \<Rightarrow> access \<Rightarrow> string \<Rightarrow> string \<Rightarrow> string \<Rightarrow> op_kind \<Rightarrow> int64 option \<Rightarrow> string \<Rightarrow>
   database \<Rightarrow> go_error + mutation_result" where
  "resolveExistingOperation X f a tenantID operationID counterID kind expectedDelta h db =
     (case exec f SLoadOperation (load_operation_stmt X a tenantID operationID db) of
        Inl e \<Rightarrow>
          if errors_Is e ErrNoRows
          then Inl (Wrapf (''resolve operation '' @ operationID) (Sentinel StoreErrIdempotencyKeyReused))
          else Inl (Wrapf ''load existing operation'' e)
      | Inr existing \<Rightarrow>
        if op_kind existing \<noteq> kind \<or> op_counter_id existing \<noteq> counterID \<or>
           (case expectedDelta of None \<Rightarrow> False | Some d \<Rightarrow> op_delta existing \<noteq> d) \<or>
           op_request_hash existing \<noteq> h
        then Inl (Sentinel StoreErrIdempotencyKeyReused)
        else if op_state existing \<noteq> Completed then Inl (Sentinel StoreErrOperationInProgress)
        else (case (op_value_after existing, op_completed_at existing) of
            (Some v, Some at) \<Rightarrow>
              Inr \<lparr>mr_OperationID = [], mr_Delta = op_delta existing, mr_Value = v,
                   mr_UpdatedAt = at, mr_Replayed = False\<rparr>
          | _ \<Rightarrow> Inl (Msg (''completed operation '' @ operationID @ '' has incomplete result''))))"

definition incrementCounter_body ::
  "externals \<Rightarrow> faults \<Rightarrow> go_context \<Rightarrow> string \<Rightarrow> string \<Rightarrow> int64 \<Rightarrow> string \<Rightarrow> string \<Rightarrow> string \<Rightarrow> time \<Rightarrow>
   database \<Rightarrow> (go_error + mutation_result) \<times> database" where
  "incrementCounter_body X f ctx tenantID counterID delta operationID h actorID now db =
     (let a = AccessFromContext ctx in
      case exec f SLockCounter (select_counter_stmt X a tenantID counterID db) of
        Inl e \<Rightarrow>
          (if errors_Is e ErrNoRows then Inl (Sentinel StoreErrCounterNotFound)
           else Inl (Wrapf ''lock counter for increment'' e), db)
      | Inr current \<Rightarrow>
        (case exec f SInsertOperation (insert_operation_stmt X a tenantID counterID operationID Increment
              delta h actorID (requestMetadata ctx) now db) of
          Inl e \<Rightarrow>
            (if errors_As_pq e = Some ''23503'' then Inl (Sentinel StoreErrCounterNotFound)
             else Inl (Wrapf ''reserve increment operation'' e), db)
        | Inr None \<Rightarrow>
            (case resolveExistingOperation X f a tenantID operationID counterID Increment (Some delta) h db of
               Inl e \<Rightarrow> (Inl e, db)
             | Inr r \<Rightarrow> (Inr (r\<lparr>mr_OperationID := operationID, mr_Replayed := True\<rparr>), db))
        | Inr (Some (insertedID, db1)) \<Rightarrow>
            (if delta \<le> 0 then (Inl (Msg ''increment counter: delta must be positive''), db1)
             else if delta > ctr_max_delta current then (Inl (Sentinel StoreErrDeltaExceedsMaximum), db1)
             else if ctr_value current > wrap64 (maxInt64 - delta)
               then (Inl (Sentinel StoreErrCounterOverflow), db1)
             else
               (let after = wrap64 (ctr_value current + delta) in
                case exec f SUpdateCounter (update_counter_stmt X a tenantID counterID after now db1) of
                  Inl e \<Rightarrow> (Inl (Wrapf ''update counter for increment'' e), db1)
                | Inr db2 \<Rightarrow>
                  (case exec f SCompleteOperation
                      (complete_operation_stmt X a tenantID operationID (ctr_value current) after now db2) of
                     Inl e \<Rightarrow> (Inl (Wrapf ''complete increment operation'' e), db2)
                   | Inr db3 \<Rightarrow>
                     (Inr \<lparr>mr_OperationID = insertedID, mr_Delta = delta, mr_Value = after,
                           mr_UpdatedAt = now, mr_Replayed = False\<rparr>, db3))))))"

text \<open>A replay commits too; the error of that commit has its own text.\<close>

definition incrementCounter ::
  "externals \<Rightarrow> faults \<Rightarrow> go_context \<Rightarrow> string \<Rightarrow> string \<Rightarrow> int64 \<Rightarrow> string \<Rightarrow> string \<Rightarrow> string \<Rightarrow> time \<Rightarrow>
   database \<Rightarrow> (go_error + mutation_result) \<times> database" where
  "incrementCounter X f ctx tenantID counterID delta operationID h actorID now db =
     BeginWrite f ctx (Wrapf ''begin increment counter'')
       (\<lambda>r. Wrapf (if mr_Replayed r then ''commit increment replay'' else ''commit increment counter''))
       (incrementCounter_body X f ctx tenantID counterID delta operationID h actorID now) db"

definition setCounterValue_body ::
  "externals \<Rightarrow> faults \<Rightarrow> go_context \<Rightarrow> string \<Rightarrow> string \<Rightarrow> int64 \<Rightarrow> string \<Rightarrow> string \<Rightarrow> string \<Rightarrow> time \<Rightarrow>
   database \<Rightarrow> (go_error + mutation_result) \<times> database" where
  "setCounterValue_body X f ctx tenantID counterID v operationID h actorID now db =
     (let a = AccessFromContext ctx in
      case exec f SLockCounter (select_counter_stmt X a tenantID counterID db) of
        Inl e \<Rightarrow>
          (if errors_Is e ErrNoRows then Inl (Sentinel StoreErrCounterNotFound)
           else Inl (Wrapf ''lock counter for set'' e), db)
      | Inr row \<Rightarrow>
        (let current = ctr_value row; deltaBig = v - current in
         if \<not> in_int64 deltaBig then (Inl (Sentinel StoreErrCounterOverflow), db)
         else
           (case exec f SInsertOperation (insert_operation_stmt X a tenantID counterID operationID
                 SetAdjustment deltaBig h actorID (requestMetadata ctx) now db) of
             Inl e \<Rightarrow> (Inl (Wrapf ''reserve set operation'' e), db)
           | Inr None \<Rightarrow>
               (case resolveExistingOperation X f a tenantID operationID counterID SetAdjustment None h db of
                  Inl e \<Rightarrow> (Inl e, db)
                | Inr r \<Rightarrow> (Inr (r\<lparr>mr_OperationID := operationID, mr_Replayed := True\<rparr>), db))
           | Inr (Some (insertedID, db1)) \<Rightarrow>
               (case exec f SUpdateCounter (update_counter_stmt X a tenantID counterID v now db1) of
                  Inl e \<Rightarrow> (Inl (Wrapf ''update counter for set'' e), db1)
                | Inr db2 \<Rightarrow>
                  (case exec f SCompleteOperation
                      (complete_operation_stmt X a tenantID operationID current v now db2) of
                     Inl e \<Rightarrow> (Inl (Wrapf ''complete set operation'' e), db2)
                   | Inr db3 \<Rightarrow>
                     (let res = \<lparr>mr_OperationID = insertedID, mr_Delta = deltaBig, mr_Value = v,
                                 mr_UpdatedAt = now, mr_Replayed = False\<rparr> in
                      if actorID = [] then (Inr res, db3)
                      else
                        (case exec f SInsertAudit (insert_audit_stmt X a
                             \<lparr>ev_id = operationID, ev_credential_id = None, ev_tenant_id = Some tenantID,
                              ev_actor_id = actorID, ev_action = ActPrivilegedAdjustment,
                              ev_metadata = JObject [(''operation_id'', JString operationID)],
                              ev_created_at = now\<rparr> db3) of
                           Inl e \<Rightarrow> (Inl (Wrapf ''audit set operation'' e), db3)
                         | Inr db4 \<Rightarrow> (Inr res, db4))))))))"

definition setCounterValueWithOperation ::
  "externals \<Rightarrow> faults \<Rightarrow> go_context \<Rightarrow> string \<Rightarrow> string \<Rightarrow> int64 \<Rightarrow> string \<Rightarrow> string \<Rightarrow> string \<Rightarrow> time \<Rightarrow>
   database \<Rightarrow> (go_error + mutation_result) \<times> database" where
  "setCounterValueWithOperation X f ctx tenantID counterID v operationID h actorID now db =
     BeginWrite f ctx (Wrapf ''begin set counter'')
       (\<lambda>r. Wrapf (if mr_Replayed r then ''commit set replay'' else ''commit set counter''))
       (setCounterValue_body X f ctx tenantID counterID v operationID h actorID now) db"

end
