(* ===== verification/Ledger.thy ===== *)
theory Ledger
  imports Counter_Store
begin

text \<open>
  The ledger: every committed change of a counter is a completed operation row, the counter's value
  is the sum of the deltas of its rows, and the rows chain. The theory characterises what a
  successful create, increment or set does to the tables, states the invariant of the counter
  tables and shows that every store operation keeps it, under any pattern of statement and commit
  failures.
\<close>

section \<open>What a successful mutation does\<close>


definition counter_ops :: "database \<Rightarrow> string \<Rightarrow> string \<Rightarrow> operation list" where
  "counter_ops db t c = filter (\<lambda>r. op_tenant_id r = t \<and> op_counter_id r = c) (operations db)"

definition record_mutation ::
  "externals \<Rightarrow> op_kind \<Rightarrow> string \<Rightarrow> string \<Rightarrow> string \<Rightarrow> int64 \<Rightarrow> int64 \<Rightarrow> int64 \<Rightarrow> string \<Rightarrow> string \<Rightarrow> json \<Rightarrow> time \<Rightarrow>
   database \<Rightarrow> database" where
  "record_mutation X kind t c oid before delta after h actorID meta now db =
     db\<lparr>counters := update_where (\<lambda>r. ctr_tenant_id r = t \<and> ctr_id r = c)
          (\<lambda>r. r\<lparr>ctr_value := after, ctr_updated_at := pg_time X now\<rparr>) (counters db),
        operations := operations db @
          [\<lparr>op_tenant_id = t, op_counter_id = c, op_id = oid, op_kind = kind, op_delta = delta,
            op_request_hash = h, op_value_before = Some before, op_value_after = Some after,
            op_actor_id = Some actorID, op_metadata = meta, op_state = Completed,
            op_created_at = pg_time X now, op_completed_at = Some (pg_time X now)\<rparr>]\<rparr>"

lemma insert_operation_row_Some:
  assumes "insert_operation_row X a r db = Inr (Some db')"
  shows "db' = db\<lparr>operations := operations db @ [r]\<rparr>"
    and "counter_tenant_visible X a (Some (op_tenant_id r))"
    and "\<forall>o' \<in> set (operations db). \<not> (op_tenant_id o' = op_tenant_id r \<and> op_id o' = op_id r)"
    and "\<exists>c \<in> set (counters db). ctr_tenant_id c = op_tenant_id r \<and> ctr_id c = op_counter_id r"
  using assms by (auto simp: insert_operation_row_def list_ex_iff split: if_splits)

lemma select_counter_stmt_Inr:
  assumes "select_counter_stmt X a tenantID counterID db = Inr r"
  shows "r \<in> set (counters db)" and "pg_uuid X tenantID = Some (ctr_tenant_id r)"
    and "pg_uuid X counterID = Some (ctr_id r)" and "counter_tenant_visible X a (Some (ctr_tenant_id r))"
  using assms
  by (auto simp: select_counter_stmt_def split: option.splits dest: find_Some_in)

lemma insert_operation_stmt_Some:
  assumes "insert_operation_stmt X a tenantID counterID operationID kind delta h actorID meta now db =
    Inr (Some (oid, db'))"
    and "pg_uuid X tenantID = Some t" and "pg_uuid X counterID = Some c"
  shows "pg_uuid X operationID = Some oid"
    and "db' = db\<lparr>operations := operations db @
       [\<lparr>op_tenant_id = t, op_counter_id = c, op_id = oid, op_kind = kind, op_delta = delta,
              op_request_hash = h, op_value_before = None, op_value_after = None,
              op_actor_id = Some actorID, op_metadata = meta, op_state = Pending,
              op_created_at = pg_time X now, op_completed_at = None\<rparr>]\<rparr>"
    and "\<forall>o' \<in> set (operations db). \<not> (op_tenant_id o' = t \<and> op_id o' = oid)"
proof -
  let ?r = "\<lparr>op_tenant_id = t, op_counter_id = c, op_id = oid, op_kind = kind, op_delta = delta,
      op_request_hash = h, op_value_before = None, op_value_after = None, op_actor_id = Some actorID,
      op_metadata = meta, op_state = Pending, op_created_at = pg_time X now, op_completed_at = None\<rparr>"
  from assms show oid: "pg_uuid X operationID = Some oid"
    by (auto simp: insert_operation_stmt_def split: option.splits sum.splits)
  with assms have "insert_operation_row X a ?r db = Inr (Some db')"
    by (auto simp: insert_operation_stmt_def split: option.splits sum.splits)
  from insert_operation_row_Some [OF this]
  show "db' = db\<lparr>operations := operations db @ [?r]\<rparr>"
    and "\<forall>o' \<in> set (operations db). \<not> (op_tenant_id o' = t \<and> op_id o' = oid)"
    by simp_all
qed

text \<open>The statements after the reservation turn the pending row into the completed one.\<close>

lemma reserve_update_complete:
  assumes ins: "insert_operation_stmt X a tenantID counterID operationID kind delta h actorID meta now db =
      Inr (Some (oid, db1))"
    and upd: "update_counter_stmt X a tenantID counterID after now db1 = Inr db2"
    and cmp: "complete_operation_stmt X a tenantID operationID before after now db2 = Inr db3"
    and tc: "pg_uuid X tenantID = Some t" "pg_uuid X counterID = Some c"
    and vis: "counter_tenant_visible X a (Some t)"
  shows "db3 = record_mutation X kind t c oid before delta after h actorID meta now db"
proof -
  note i = insert_operation_stmt_Some [OF ins tc]
  have vis': "(ctr_tenant_id r = t \<and> ctr_id r = c \<and> counter_tenant_visible X a (Some (ctr_tenant_id r))) =
     (ctr_tenant_id r = t \<and> ctr_id r = c)" for r
    using vis by auto
  have db2: "db2 = db1\<lparr>counters := update_where (\<lambda>r. ctr_tenant_id r = t \<and> ctr_id r = c)
          (\<lambda>r. r\<lparr>ctr_value := after, ctr_updated_at := pg_time X now\<rparr>) (counters db1)\<rparr>"
    using upd tc by (simp add: update_counter_stmt_def vis')
  have old: "update_where
      (\<lambda>r. op_tenant_id r = t \<and> op_id r = oid \<and> counter_tenant_visible X a (Some (op_tenant_id r)))
      g (operations db) = operations db" for g
    by (rule update_where_none) (use i(3) in blast)
  show ?thesis
    using cmp tc i(1) vis unfolding complete_operation_stmt_def db2 i(2) record_mutation_def
    by (simp add: old)
qed

lemma incrementCounter_body_Inr:
  assumes "incrementCounter_body X f ctx tenantID counterID delta operationID h actorID now db = (Inr r, db')"
  obtains (replay) "mr_Replayed r" "db' = db" "mr_OperationID r = operationID"
      "\<exists>row. select_counter_stmt X (AccessFromContext ctx) tenantID counterID db = Inr row"
      "\<exists>r0. resolveExistingOperation X f (AccessFromContext ctx) tenantID operationID counterID Increment (Some delta) h db
          = Inr r0 \<and> r = r0\<lparr>mr_OperationID := operationID, mr_Replayed := True\<rparr>"
  | (fresh) row oid where
      "row \<in> set (counters db)" "pg_uuid X tenantID = Some (ctr_tenant_id row)"
      "pg_uuid X counterID = Some (ctr_id row)" "pg_uuid X operationID = Some oid"
      "counter_tenant_visible X (AccessFromContext ctx) (Some (ctr_tenant_id row))"
      "\<forall>o' \<in> set (operations db). \<not> (op_tenant_id o' = ctr_tenant_id row \<and> op_id o' = oid)"
      "0 < delta" "delta \<le> ctr_max_delta row" "ctr_value row \<le> wrap64 (maxInt64 - delta)"
      "db' = record_mutation X Increment (ctr_tenant_id row) (ctr_id row) oid (ctr_value row) delta
         (wrap64 (ctr_value row + delta)) h actorID (requestMetadata ctx) now db"
      "r = \<lparr>mr_OperationID = oid, mr_Delta = delta, mr_Value = wrap64 (ctr_value row + delta),
            mr_UpdatedAt = now, mr_Replayed = False\<rparr>"
proof -
  let ?a = "AccessFromContext ctx"
  note assms [unfolded incrementCounter_body_def Let_def]
  then obtain row where row: "select_counter_stmt X ?a tenantID counterID db = Inr row"
    and ins: "stmt_err f SLockCounter = None"
    by (cases "exec f SLockCounter (select_counter_stmt X ?a tenantID counterID db)") (auto simp: exec_Inr split: if_splits)
  note sel = select_counter_stmt_Inr [OF row]
  let ?ins = "insert_operation_stmt X ?a tenantID counterID operationID Increment delta h actorID (requestMetadata ctx) now db"
  show thesis
  proof (cases "exec f SInsertOperation ?ins")
    case (Inl e)
    then show ?thesis using assms row ins
      by (simp add: incrementCounter_body_def Let_def exec_def split: if_splits)
  next
    case ins_ok: (Inr q)
    show ?thesis
    proof (cases q)
      case None
      then show ?thesis
        using assms row ins ins_ok
        by (auto simp: incrementCounter_body_def Let_def exec_def[of f SLockCounter] split: sum.splits intro!: replay)
    next
      case (Some p)
      then obtain oid db1 where q: "q = Some (oid, db1)" by (cases p) auto
      with ins_ok have ins1: "?ins = Inr (Some (oid, db1))" by (simp add: exec_Inr)
      note i = insert_operation_stmt_Some [OF ins1 sel(2,3)]
      let ?after = "wrap64 (ctr_value row + delta)"
      from assms row ins ins_ok q obtain db2 where guards: "0 < delta" "delta \<le> ctr_max_delta row"
        "ctr_value row \<le> wrap64 (maxInt64 - delta)"
        and upd: "update_counter_stmt X ?a tenantID counterID ?after now db1 = Inr db2"
        and cmp: "complete_operation_stmt X ?a tenantID operationID (ctr_value row) ?after now db2 = Inr db'"
        and r: "r = \<lparr>mr_OperationID = oid, mr_Delta = delta, mr_Value = ?after,
            mr_UpdatedAt = now, mr_Replayed = False\<rparr>"
        by (auto simp: incrementCounter_body_def Let_def exec_def[of f SLockCounter]
            exec_Inr split: sum.splits if_splits)
      show ?thesis
        using fresh [OF sel(1,2,3) i(1) sel(4) i(3) guards
            reserve_update_complete [OF ins1 upd cmp sel(2,3,4)] r] .
    qed
  qed
qed

lemma setCounterValue_body_Inr:
  assumes "setCounterValue_body X f ctx tenantID counterID v operationID h actorID now db = (Inr r, db')"
  obtains (replay) "mr_Replayed r" "db' = db"
      "\<exists>r0. resolveExistingOperation X f (AccessFromContext ctx) tenantID operationID counterID SetAdjustment None h db
          = Inr r0 \<and> r = r0\<lparr>mr_OperationID := operationID, mr_Replayed := True\<rparr>"
  | (fresh) row oid evs where
      "row \<in> set (counters db)" "pg_uuid X tenantID = Some (ctr_tenant_id row)"
      "pg_uuid X counterID = Some (ctr_id row)" "pg_uuid X operationID = Some oid"
      "counter_tenant_visible X (AccessFromContext ctx) (Some (ctr_tenant_id row))"
      "\<forall>o' \<in> set (operations db). \<not> (op_tenant_id o' = ctr_tenant_id row \<and> op_id o' = oid)"
      "in_int64 (v - ctr_value row)"
      "db' = (record_mutation X SetAdjustment (ctr_tenant_id row) (ctr_id row) oid (ctr_value row)
         (v - ctr_value row) v h actorID (requestMetadata ctx) now db)\<lparr>audit_events := evs\<rparr>"
      "evs = audit_events db @ (if actorID = [] then [] else
         [\<lparr>ev_id = oid, ev_credential_id = None, ev_tenant_id = Some (ctr_tenant_id row),
           ev_actor_id = actorID, ev_action = ActPrivilegedAdjustment,
           ev_metadata = JObject [(''operation_id'', JString operationID)],
           ev_created_at = pg_time X now\<rparr>])"
      "r = \<lparr>mr_OperationID = oid, mr_Delta = v - ctr_value row, mr_Value = v,
            mr_UpdatedAt = now, mr_Replayed = False\<rparr>"
proof -
  let ?a = "AccessFromContext ctx"
  from assms obtain row where row: "select_counter_stmt X ?a tenantID counterID db = Inr row"
    and lock: "stmt_err f SLockCounter = None"
    by (cases "exec f SLockCounter (select_counter_stmt X ?a tenantID counterID db)")
      (auto simp: setCounterValue_body_def Let_def exec_Inr split: if_splits)
  note sel = select_counter_stmt_Inr [OF row]
  let ?d = "v - ctr_value row"
  let ?ins = "insert_operation_stmt X ?a tenantID counterID operationID SetAdjustment ?d h actorID (requestMetadata ctx) now db"
  from assms row lock have d: "in_int64 ?d"
    by (auto simp: setCounterValue_body_def Let_def exec_def[of f SLockCounter] split: if_splits)
  show thesis
  proof (cases "exec f SInsertOperation ?ins")
    case (Inl e)
    then show ?thesis using assms row lock d by (simp add: setCounterValue_body_def Let_def exec_def)
  next
    case ins_ok: (Inr q)
    show ?thesis
    proof (cases q)
      case None
      then show ?thesis
        using assms row lock ins_ok d
        by (auto simp: setCounterValue_body_def Let_def exec_def[of f SLockCounter] split: sum.splits intro!: replay)
    next
      case (Some p)
      then obtain oid db1 where q: "q = Some (oid, db1)" by (cases p) auto
      with ins_ok have ins1: "?ins = Inr (Some (oid, db1))" by (simp add: exec_Inr)
      note i = insert_operation_stmt_Some [OF ins1 sel(2,3)]
      let ?ev = "\<lparr>ev_id = operationID, ev_credential_id = None, ev_tenant_id = Some tenantID,
                   ev_actor_id = actorID, ev_action = ActPrivilegedAdjustment,
                   ev_metadata = JObject [(''operation_id'', JString operationID)], ev_created_at = now\<rparr>"
      from assms row lock ins_ok q d obtain db2 db3
        where upd: "update_counter_stmt X ?a tenantID counterID v now db1 = Inr db2"
        and cmp: "complete_operation_stmt X ?a tenantID operationID (ctr_value row) v now db2 = Inr db3"
        and aud: "if actorID = [] then db' = db3 else insert_audit_stmt X ?a ?ev db3 = Inr db'"
        and r: "r = \<lparr>mr_OperationID = oid, mr_Delta = ?d, mr_Value = v,
            mr_UpdatedAt = now, mr_Replayed = False\<rparr>"
        by (auto simp: setCounterValue_body_def Let_def exec_def[of f SLockCounter]
            exec_Inr split: sum.splits if_splits)
      note db3 = reserve_update_complete [OF ins1 upd cmp sel(2,3,4)]
      show ?thesis
      proof (rule fresh [OF sel(1,2,3) i(1) sel(4) i(3) d _ refl r])
        show "db' = (record_mutation X SetAdjustment (ctr_tenant_id row) (ctr_id row) oid (ctr_value row)
         ?d v h actorID (requestMetadata ctx) now db)\<lparr>audit_events := audit_events db @ (if actorID = [] then [] else
         [\<lparr>ev_id = oid, ev_credential_id = None, ev_tenant_id = Some (ctr_tenant_id row),
           ev_actor_id = actorID, ev_action = ActPrivilegedAdjustment,
           ev_metadata = JObject [(''operation_id'', JString operationID)],
           ev_created_at = pg_time X now\<rparr>])\<rparr>"
          using aud sel(2) i(1) unfolding db3
          by (auto simp: insert_audit_stmt_def Let_def record_mutation_def split: if_splits)
      qed
    qed
  qed
qed

definition initial_operation :: "externals \<Rightarrow> string \<Rightarrow> string \<Rightarrow> int64 \<Rightarrow> time \<Rightarrow> operation" where
  "initial_operation X t c v now =
     \<lparr>op_tenant_id = t, op_counter_id = c, op_id = md5_uuid X (''counter-initial:'' @ c),
      op_kind = InitialValue, op_delta = v, op_request_hash = md5_bytes X (''counter-initial:'' @ c),
      op_value_before = Some 0, op_value_after = Some v, op_actor_id = None,
      op_metadata = JObject [], op_state = Completed,
      op_created_at = pg_time X now, op_completed_at = Some (pg_time X now)\<rparr>"

definition stored_counter :: "externals \<Rightarrow> string \<Rightarrow> string \<Rightarrow> counter \<Rightarrow> counter" where
  "stored_counter X i t c = c\<lparr>ctr_id := i, ctr_tenant_id := t,
     ctr_created_at := pg_time X (ctr_created_at c), ctr_updated_at := pg_time X (ctr_updated_at c)\<rparr>"

lemma insert_counter_stmt_Inr:
  assumes "insert_counter_stmt X a c db = Inr db'"
  obtains i t where "pg_uuid X (ctr_id c) = Some i" "pg_uuid X (ctr_tenant_id c) = Some t"
    "counter_tenant_visible X a (Some t)"
    "\<forall>r \<in> set (counters db). ctr_id r \<noteq> i \<and> \<not> (ctr_tenant_id r = t \<and> ctr_label r = ctr_label c)"
    "\<exists>r \<in> set (tenants db). tn_id r = t"
    "db' = db\<lparr>counters := counters db @ [stored_counter X i t c]\<rparr>"
  using assms
  by (auto simp: insert_counter_stmt_def stored_counter_def list_ex_iff split: option.splits if_splits)

lemma insert_initial_stmt_Inr:
  assumes "insert_initial_stmt X a tenantID counterID v now db = Inr db'"
    and "pg_uuid X tenantID = Some t" and "pg_uuid X counterID = Some c"
  shows "db' = db\<lparr>operations := operations db @ [initial_operation X t c v now]\<rparr>"
    and "\<forall>o' \<in> set (operations db). \<not> (op_tenant_id o' = t \<and> op_id o' = md5_uuid X (''counter-initial:'' @ c))"
proof -
  from assms have "insert_operation_row X a (initial_operation X t c v now) db = Inr (Some db')"
    by (auto simp: insert_initial_stmt_def initial_operation_def split: sum.splits option.splits)
  from insert_operation_row_Some [OF this]
  show "db' = db\<lparr>operations := operations db @ [initial_operation X t c v now]\<rparr>"
    and "\<forall>o' \<in> set (operations db). \<not> (op_tenant_id o' = t \<and> op_id o' = md5_uuid X (''counter-initial:'' @ c))"
    by (simp_all add: initial_operation_def)
qed

lemma CreateCounter_body_Inr:
  assumes "CreateCounter_body X f a c db = (Inr u, db')"
  obtains i t where "pg_uuid X (ctr_id c) = Some i" "pg_uuid X (ctr_tenant_id c) = Some t"
    "counter_tenant_visible X a (Some t)"
    "\<forall>r \<in> set (counters db). ctr_id r \<noteq> i \<and> \<not> (ctr_tenant_id r = t \<and> ctr_label r = ctr_label c)"
    "\<exists>r \<in> set (tenants db). tn_id r = t"
    "\<forall>o' \<in> set (operations db). \<not> (op_tenant_id o' = t \<and> op_id o' = md5_uuid X (''counter-initial:'' @ i))"
    "db' = db\<lparr>counters := counters db @ [stored_counter X i t c],
       operations := operations db @ [initial_operation X t i (ctr_value c) (ctr_created_at c)]\<rparr>"
proof -
  from assms obtain db1 where i1: "insert_counter_stmt X a c db = Inr db1"
    and i2: "insert_initial_stmt X a (ctr_tenant_id c) (ctr_id c) (ctr_value c) (ctr_created_at c) db1 = Inr db'"
    by (auto simp: CreateCounter_body_def exec_Inr split: sum.splits if_splits)
  from i1 show thesis
  proof (rule insert_counter_stmt_Inr)
    fix i t
    assume h: "pg_uuid X (ctr_id c) = Some i" "pg_uuid X (ctr_tenant_id c) = Some t"
      "counter_tenant_visible X a (Some t)"
      "\<forall>r \<in> set (counters db). ctr_id r \<noteq> i \<and> \<not> (ctr_tenant_id r = t \<and> ctr_label r = ctr_label c)"
      "\<exists>r \<in> set (tenants db). tn_id r = t"
      and db1: "db1 = db\<lparr>counters := counters db @ [stored_counter X i t c]\<rparr>"
    from insert_initial_stmt_Inr [OF i2 h(2,1)] db1 show thesis
      by (intro that [OF h]) simp_all
  qed
qed

section \<open>The invariant\<close>

definition ledger_ok :: "database \<Rightarrow> counter \<Rightarrow> bool" where
  "ledger_ok db c \<longleftrightarrow>
     sum_list (map op_delta (counter_ops db (ctr_tenant_id c) (ctr_id c))) = ctr_value c \<and>
     length (filter (\<lambda>r. op_kind r = InitialValue) (counter_ops db (ctr_tenant_id c) (ctr_id c))) = 1"

definition operation_ok :: "database \<Rightarrow> operation \<Rightarrow> bool" where
  "operation_ok db r \<longleftrightarrow>
     op_state r = Completed \<and> op_completed_at r \<noteq> None \<and>
     list_ex (\<lambda>c. ctr_tenant_id c = op_tenant_id r \<and> ctr_id c = op_counter_id r) (counters db) \<and>
     (case (op_value_before r, op_value_after r) of
        (Some b, Some a) \<Rightarrow> a = b + op_delta r \<and> in_int64 b \<and> in_int64 a \<and> in_int64 (op_delta r)
      | _ \<Rightarrow> False)"

definition counter_ok :: "externals \<Rightarrow> counter \<Rightarrow> bool" where
  "counter_ok X c \<longleftrightarrow> pg_uuid X (ctr_id c) = Some (ctr_id c) \<and>
     pg_uuid X (ctr_tenant_id c) = Some (ctr_tenant_id c) \<and> in_int64 (ctr_value c)"

definition operation_key :: "operation \<Rightarrow> string \<times> string" where
  "operation_key r = (op_tenant_id r, op_id r)"

definition wf_database :: "externals \<Rightarrow> database \<Rightarrow> bool" where
  "wf_database X db \<longleftrightarrow>
     distinct (map ctr_id (counters db)) \<and>
     distinct (map operation_key (operations db)) \<and>
     list_all (counter_ok X) (counters db) \<and>
     list_all (operation_ok db) (operations db) \<and>
     list_all (ledger_ok db) (counters db)"

lemma wf_databaseD:
  assumes "wf_database X db"
  shows "distinct (map ctr_id (counters db))" "distinct (map operation_key (operations db))"
    "c \<in> set (counters db) \<Longrightarrow> counter_ok X c" "r \<in> set (operations db) \<Longrightarrow> operation_ok db r"
    "c \<in> set (counters db) \<Longrightarrow> ledger_ok db c"
  using assms by (auto simp: wf_database_def list_all_iff)

lemma wf_empty: "wf_database X empty_database"
  by (simp add: wf_database_def empty_database_def)

lemma wf_database_cong:
  assumes "counters db' = counters db" and "operations db' = operations db"
  shows "wf_database X db' = wf_database X db"
proof -
  have "ledger_ok db' = ledger_ok db" "operation_ok db' = operation_ok db"
    using assms by (auto simp: fun_eq_iff ledger_ok_def counter_ops_def operation_ok_def)
  with assms show ?thesis by (simp add: wf_database_def)
qed

lemma wf_record_mutation:
  assumes wf: "wf_database X db" and row: "row \<in> set (counters db)"
    and new: "\<forall>o' \<in> set (operations db). \<not> (op_tenant_id o' = ctr_tenant_id row \<and> op_id o' = oid)"
    and kind: "kind \<noteq> InitialValue"
    and after: "after = ctr_value row + delta" "in_int64 after" "in_int64 delta"
  shows "wf_database X (record_mutation X kind (ctr_tenant_id row) (ctr_id row) oid (ctr_value row)
           delta after h actorID meta now db)" (is "wf_database X ?db'")
proof -
  note wfD = wf_databaseD [OF wf]
  let ?P = "\<lambda>r. ctr_tenant_id r = ctr_tenant_id row \<and> ctr_id r = ctr_id row"
  let ?f = "\<lambda>r. r\<lparr>ctr_value := after, ctr_updated_at := pg_time X now\<rparr>"
  have only: "?P r \<Longrightarrow> r \<in> set (counters db) \<Longrightarrow> r = row" for r
    using distinct_map_eq [OF wfD(1) _ row] by auto
  have ctrs: "counters ?db' = update_where ?P ?f (counters db)"
    by (simp add: record_mutation_def)
  obtain new_op where ops: "operations ?db' = operations db @ [new_op]"
    and op: "op_tenant_id new_op = ctr_tenant_id row" "op_counter_id new_op = ctr_id row"
      "op_id new_op = oid" "op_kind new_op = kind" "op_delta new_op = delta"
      "op_value_before new_op = Some (ctr_value row)" "op_value_after new_op = Some after"
      "op_state new_op = Completed" "op_completed_at new_op \<noteq> None"
    by (simp add: record_mutation_def)
  have exists: "list_ex (\<lambda>c. ctr_tenant_id c = t \<and> ctr_id c = i) (counters ?db') =
      list_ex (\<lambda>c. ctr_tenant_id c = t \<and> ctr_id c = i) (counters db)" for t i
    unfolding ctrs by (rule list_ex_update_where) auto
  have opsok: "operation_ok ?db' r = operation_ok db r" for r
    by (simp add: operation_ok_def exists)
  have cops: "counter_ops ?db' t i = counter_ops db t i @
      (if t = ctr_tenant_id row \<and> i = ctr_id row then [new_op] else [])" for t i
    using op by (auto simp: counter_ops_def ops)
  have "map ctr_id (counters ?db') = map ctr_id (counters db)"
    by (simp add: ctrs map_update_where)
  moreover have "distinct (map operation_key (operations ?db'))"
    using wfD(2) new op by (auto simp: ops operation_key_def)
  moreover have "counter_ok X r" if "r \<in> set (counters ?db')" for r
    using that [unfolded ctrs set_update_where] wfD(3) [OF row] wfD(3) after(2)
    by (auto simp: counter_ok_def)
  moreover have "operation_ok db new_op"
    using op row after wfD(3) [OF row]
    by (auto simp: operation_ok_def list_ex_iff counter_ok_def)
  moreover have "ledger_ok ?db' r" if r: "r \<in> set (counters ?db')" for r
  proof -
    from r obtain r0 where r0: "r0 \<in> set (counters db)" and req: "r = (if ?P r0 then ?f r0 else r0)"
      by (auto simp: ctrs set_update_where)
    show ?thesis
    proof (cases "?P r0")
      case True
      with only r0 have "r0 = row" by blast
      with wfD(5) [OF row] req True op kind after show ?thesis
        unfolding ledger_ok_def cops by simp
    next
      case False
      with wfD(5) [OF r0] req show ?thesis unfolding ledger_ok_def cops by auto
    qed
  qed
  ultimately show ?thesis
    using wfD(1,4) by (auto simp: wf_database_def list_all_iff opsok ops)
qed

lemma zero_in_int64: "in_int64 0"
  by (simp add: in_int64_def minInt64_def maxInt64_def)

lemma wf_create:
  assumes wf: "wf_database X db" and X: "pg_laws X"
    and i: "pg_uuid X (ctr_id c) = Some i" and t: "pg_uuid X (ctr_tenant_id c) = Some t"
    and new: "\<forall>r \<in> set (counters db). ctr_id r \<noteq> i \<and> \<not> (ctr_tenant_id r = t \<and> ctr_label r = ctr_label c)"
    and newop: "\<forall>o' \<in> set (operations db). \<not> (op_tenant_id o' = t \<and> op_id o' = md5_uuid X (''counter-initial:'' @ i))"
    and v: "in_int64 (ctr_value c)"
  shows "wf_database X (db\<lparr>counters := counters db @ [stored_counter X i t c],
       operations := operations db @ [initial_operation X t i (ctr_value c) (ctr_created_at c)]\<rparr>)"
    (is "wf_database X ?db'")
proof -
  note wfD = wf_databaseD [OF wf]
  let ?o = "initial_operation X t i (ctr_value c) (ctr_created_at c)"
  have none: "counter_ops db t i = []"
    using wfD(4) new by (fastforce simp: counter_ops_def filter_empty_conv operation_ok_def list_ex_iff)
  have cops: "counter_ops ?db' t' i' = counter_ops db t' i' @ (if t' = t \<and> i' = i then [?o] else [])" for t' i'
    by (auto simp: counter_ops_def initial_operation_def)
  have "operation_ok ?db' r" if "r \<in> set (operations ?db')" for r
  proof (cases "r \<in> set (operations db)")
    case True
    with wfD(4) show ?thesis by (auto simp: operation_ok_def)
  next
    case False
    with that v show ?thesis
      by (simp add: operation_ok_def initial_operation_def stored_counter_def zero_in_int64)
  qed
  moreover have "ledger_ok ?db' r" if r: "r \<in> set (counters ?db')" for r
  proof (cases "r \<in> set (counters db)")
    case True
    with new have "\<not> (ctr_tenant_id r = t \<and> ctr_id r = i)" by blast
    with wfD(5) [OF True] show ?thesis unfolding ledger_ok_def cops by auto
  next
    case False
    with r have "r = stored_counter X i t c" by simp
    with none show ?thesis unfolding ledger_ok_def cops
      by (simp add: stored_counter_def initial_operation_def)
  qed
  moreover have "counter_ok X r" if "r \<in> set (counters ?db')" for r
    using that wfD(3) v pg_lawsD(1) [OF X i] pg_lawsD(1) [OF X t] by (auto simp: counter_ok_def stored_counter_def)
  moreover have "distinct (map ctr_id (counters ?db'))"
    using wfD(1) new by (auto simp: stored_counter_def)
  moreover have "distinct (map operation_key (operations ?db'))"
    using wfD(2) newop by (auto simp: operation_key_def initial_operation_def)
  ultimately show ?thesis
    unfolding wf_database_def list_all_iff by blast
qed

text \<open>No operation of the counter store breaks the invariant, whatever fails.\<close>

lemma wf_CreateCounter_body:
  assumes "CreateCounter_body X f a c db = (Inr u, db')" "wf_database X db" "pg_laws X" "in_int64 (ctr_value c)"
  shows "wf_database X db'"
  using assms by (auto elim!: CreateCounter_body_Inr intro: wf_create)

lemma increment_no_overflow:
  "in_int64 v \<Longrightarrow> 0 < d \<Longrightarrow> in_int64 d \<Longrightarrow> v \<le> wrap64 (maxInt64 - d) \<Longrightarrow>
     wrap64 (v + d) = v + d \<and> in_int64 (v + d)"
proof -
  assume h: "in_int64 v" "0 < d" "in_int64 d" "v \<le> wrap64 (maxInt64 - d)"
  then have "in_int64 (maxInt64 - d)" by (auto simp: in_int64_def minInt64_def maxInt64_def)
  with h have "in_int64 (v + d)" by (auto simp: in_int64_def minInt64_def maxInt64_def)
  then show ?thesis by simp
qed

lemma wf_incrementCounter_body:
  assumes "incrementCounter_body X f ctx tenantID counterID delta operationID h actorID now db = (Inr r, db')"
    and wf: "wf_database X db" and d: "in_int64 delta"
  shows "wf_database X db'"
  using assms(1)
proof (cases rule: incrementCounter_body_Inr)
  case replay
  with wf show ?thesis by simp
next
  case (fresh row oid)
  then have "in_int64 (ctr_value row)" using wf_databaseD(3) [OF wf] by (auto simp: counter_ok_def)
  with increment_no_overflow fresh d
  have "wrap64 (ctr_value row + delta) = ctr_value row + delta" "in_int64 (ctr_value row + delta)" by blast+
  with fresh d wf show ?thesis by (simp add: wf_record_mutation)
qed

lemma wf_setCounterValue_body:
  assumes "setCounterValue_body X f ctx tenantID counterID v operationID h actorID now db = (Inr r, db')"
    and wf: "wf_database X db" and v: "in_int64 v"
  shows "wf_database X db'"
  using assms(1)
proof (cases rule: setCounterValue_body_Inr)
  case replay
  with wf show ?thesis by simp
next
  case (fresh row oid evs)
  have "wf_database X (record_mutation X SetAdjustment (ctr_tenant_id row) (ctr_id row) oid (ctr_value row)
         (v - ctr_value row) v h actorID (requestMetadata ctx) now db)"
    using fresh v wf by (intro wf_record_mutation) auto
  with fresh show ?thesis
    by (subst wf_database_cong [where db = "record_mutation X SetAdjustment (ctr_tenant_id row) (ctr_id row)
        oid (ctr_value row) (v - ctr_value row) v h actorID (requestMetadata ctx) now db"]) simp_all
qed

end
