(* ===== verification/Retry.thy ===== *)
theory Retry
  imports Ledger
begin

text \<open>
  Retrying a mutation: what the counter store answers when the idempotency key was used before,
  and that any number of attempts under any failures applies an increment at most once.
\<close>

section \<open>Replays\<close>

lemma select_counter_stmt_row:
  assumes "wf_database X db" "row \<in> set (counters db)"
    "pg_uuid X tenantID = Some (ctr_tenant_id row)" "pg_uuid X counterID = Some (ctr_id row)"
    "counter_tenant_visible X a (Some (ctr_tenant_id row))"
  shows "select_counter_stmt X a tenantID counterID db = Inr row"
proof -
  have "find (\<lambda>r. ctr_id r = ctr_id row \<and> ctr_tenant_id r = ctr_tenant_id row \<and>
      counter_tenant_visible X a (Some (ctr_tenant_id r))) (counters db) = Some row"
    using assms distinct_map_eq [OF wf_databaseD(1) [OF assms(1)]]
    by (intro find_unique) auto
  with assms show ?thesis by (simp add: select_counter_stmt_def)
qed

lemma load_operation_stmt_row:
  assumes "wf_database X db" "r \<in> set (operations db)"
    "pg_uuid X tenantID = Some (op_tenant_id r)" "pg_uuid X operationID = Some (op_id r)"
    "counter_tenant_visible X a (Some (op_tenant_id r))"
  shows "load_operation_stmt X a tenantID operationID db = Inr r"
proof -
  have "find (\<lambda>o'. op_tenant_id o' = op_tenant_id r \<and> op_id o' = op_id r \<and>
      counter_tenant_visible X a (Some (op_tenant_id o'))) (operations db) = Some r"
    using assms distinct_map_eq [OF wf_databaseD(2) [OF assms(1)]]
    by (intro find_unique) (auto simp: operation_key_def)
  with assms show ?thesis by (simp add: load_operation_stmt_def)
qed

lemma insert_operation_stmt_conflict:
  assumes "r \<in> set (operations db)"
    "pg_uuid X tenantID = Some (op_tenant_id r)" "pg_uuid X operationID = Some (op_id r)"
    "pg_uuid X counterID = Some c" "counter_tenant_visible X a (Some (op_tenant_id r))"
  shows "insert_operation_stmt X a tenantID counterID operationID kind delta h actorID meta now db = Inr None"
  using assms by (auto simp: insert_operation_stmt_def insert_operation_row_def list_ex_iff split: option.splits)

definition replay_of :: "operation \<Rightarrow> string \<Rightarrow> mutation_result" where
  "replay_of r operationID = \<lparr>mr_OperationID = operationID, mr_Delta = op_delta r,
     mr_Value = (case op_value_after r of None \<Rightarrow> 0 | Some v \<Rightarrow> v),
     mr_UpdatedAt = (case op_completed_at r of None \<Rightarrow> 0 | Some t \<Rightarrow> t), mr_Replayed = True\<rparr>"

lemma resolve_completed:
  assumes "wf_database X db" "r \<in> set (operations db)"
    "pg_uuid X tenantID = Some (op_tenant_id r)" "pg_uuid X operationID = Some (op_id r)"
    "counter_tenant_visible X a (Some (op_tenant_id r))" "stmt_err f SLoadOperation = None"
  shows "(case resolveExistingOperation X f a tenantID operationID counterID kind expected h db of
      Inl e \<Rightarrow> (Inl e, db) | Inr m \<Rightarrow> (Inr (m\<lparr>mr_OperationID := operationID, mr_Replayed := True\<rparr>), db)) =
    (if op_kind r \<noteq> kind \<or> op_counter_id r \<noteq> counterID \<or>
        (case expected of None \<Rightarrow> False | Some d \<Rightarrow> op_delta r \<noteq> d) \<or> op_request_hash r \<noteq> h
     then Inl (Sentinel StoreErrIdempotencyKeyReused) else Inr (replay_of r operationID), db)"
  using assms(6) load_operation_stmt_row [OF assms(1-5)] wf_databaseD(4) [OF assms(1,2)]
  by (auto simp: resolveExistingOperation_def exec_def replay_of_def operation_ok_def
      split: option.splits)

lemma increment_known_key:
  assumes wf: "wf_database X db" and row: "row \<in> set (counters db)"
    "pg_uuid X tenantID = Some (ctr_tenant_id row)" "pg_uuid X counterID = Some (ctr_id row)"
    "counter_tenant_visible X (AccessFromContext ctx) (Some (ctr_tenant_id row))"
    and r: "r \<in> set (operations db)" "op_tenant_id r = ctr_tenant_id row" "pg_uuid X operationID = Some (op_id r)"
  shows "incrementCounter X no_faults ctx tenantID counterID delta operationID h actorID now db =
    (if op_kind r \<noteq> Increment \<or> op_counter_id r \<noteq> counterID \<or> op_delta r \<noteq> delta \<or> op_request_hash r \<noteq> h
     then Inl (Sentinel StoreErrIdempotencyKeyReused) else Inr (replay_of r operationID), db)"
proof -
  let ?a = "AccessFromContext ctx"
  have sel: "select_counter_stmt X ?a tenantID counterID db = Inr row"
    by (rule select_counter_stmt_row [OF wf row])
  have ins: "insert_operation_stmt X ?a tenantID counterID operationID Increment delta h actorID
      (requestMetadata ctx) now db = Inr None"
    by (rule insert_operation_stmt_conflict [OF r(1)]) (use row r in auto)
  have res: "(case resolveExistingOperation X no_faults ?a tenantID operationID counterID Increment (Some delta) h db of
      Inl e \<Rightarrow> (Inl e, db) | Inr m \<Rightarrow> (Inr (m\<lparr>mr_OperationID := operationID, mr_Replayed := True\<rparr>), db)) =
    (if op_kind r \<noteq> Increment \<or> op_counter_id r \<noteq> counterID \<or> op_delta r \<noteq> delta \<or> op_request_hash r \<noteq> h
     then Inl (Sentinel StoreErrIdempotencyKeyReused) else Inr (replay_of r operationID), db)"
    by (subst resolve_completed [OF wf r(1)]) (use row r in \<open>auto simp: no_faults_def\<close>)
  show ?thesis
    unfolding incrementCounter_def BeginWrite_clean
    by (auto simp: incrementCounter_body_def sel ins res)
qed

text \<open>With a key the tenant has not used, the branches of the increment, in the code's order.\<close>

definition increment_outcome :: "counter \<Rightarrow> int64 \<Rightarrow> string \<Rightarrow> time \<Rightarrow> go_error + mutation_result" where
  "increment_outcome row delta oid now =
     (if delta \<le> 0 then Inl (Msg ''increment counter: delta must be positive'')
      else if delta > ctr_max_delta row then Inl (Sentinel StoreErrDeltaExceedsMaximum)
      else if ctr_value row + delta > maxInt64 then Inl (Sentinel StoreErrCounterOverflow)
      else Inr \<lparr>mr_OperationID = oid, mr_Delta = delta, mr_Value = ctr_value row + delta,
                mr_UpdatedAt = now, mr_Replayed = False\<rparr>)"

lemma reserve_ok:
  assumes "row \<in> set (counters db)"
    "pg_uuid X tenantID = Some (ctr_tenant_id row)" "pg_uuid X counterID = Some (ctr_id row)"
    "counter_tenant_visible X a (Some (ctr_tenant_id row))" "pg_uuid X operationID = Some oid"
    "\<forall>o' \<in> set (operations db). \<not> (op_tenant_id o' = ctr_tenant_id row \<and> op_id o' = oid)"
  obtains db1 where
    "insert_operation_stmt X a tenantID counterID operationID kind delta h actorID meta now db = Inr (Some (oid, db1))"
proof -
  have "list_ex (\<lambda>c. ctr_tenant_id c = ctr_tenant_id row \<and> ctr_id c = ctr_id row) (counters db)"
    and "\<not> list_ex (\<lambda>o'. op_tenant_id o' = ctr_tenant_id row \<and> op_id o' = oid) (operations db)"
    using assms by (auto simp: list_ex_iff)
  with assms that show thesis by (simp add: insert_operation_stmt_def insert_operation_row_def)
qed

lemma reserve_update_complete_ok:
  assumes row: "row \<in> set (counters db)"
    "pg_uuid X tenantID = Some (ctr_tenant_id row)" "pg_uuid X counterID = Some (ctr_id row)"
    "counter_tenant_visible X a (Some (ctr_tenant_id row))" "pg_uuid X operationID = Some oid"
    "\<forall>o' \<in> set (operations db). \<not> (op_tenant_id o' = ctr_tenant_id row \<and> op_id o' = oid)"
    and ins: "insert_operation_stmt X a tenantID counterID operationID kind delta h actorID meta now db =
      Inr (Some (oid, db1))"
  obtains db2 where "update_counter_stmt X a tenantID counterID after now db1 = Inr db2"
    "complete_operation_stmt X a tenantID operationID before after now db2 =
       Inr (record_mutation X kind (ctr_tenant_id row) (ctr_id row) oid before delta after h actorID meta now db)"
proof -
  obtain db2 where upd: "update_counter_stmt X a tenantID counterID after now db1 = Inr db2"
    using row by (simp add: update_counter_stmt_def)
  obtain db3 where cmp: "complete_operation_stmt X a tenantID operationID before after now db2 = Inr db3"
    using row by (simp add: complete_operation_stmt_def)
  from reserve_update_complete [OF ins upd cmp row(2,3,4)] upd cmp that show thesis by blast
qed

lemma increment_fresh_key:
  assumes wf: "wf_database X db" and row: "row \<in> set (counters db)"
    "pg_uuid X tenantID = Some (ctr_tenant_id row)" "pg_uuid X counterID = Some (ctr_id row)"
    "counter_tenant_visible X (AccessFromContext ctx) (Some (ctr_tenant_id row))"
    and new: "pg_uuid X operationID = Some oid"
      "\<forall>o' \<in> set (operations db). \<not> (op_tenant_id o' = ctr_tenant_id row \<and> op_id o' = oid)"
    and d: "in_int64 delta" and tx: "\<not> ctx_tx ctx"
  shows "incrementCounter X no_faults ctx tenantID counterID delta operationID h actorID now db =
    (increment_outcome row delta oid now,
     case increment_outcome row delta oid now of
       Inl _ \<Rightarrow> db
     | Inr _ \<Rightarrow> record_mutation X Increment (ctr_tenant_id row) (ctr_id row) oid (ctr_value row) delta
         (ctr_value row + delta) h actorID (requestMetadata ctx) now db)"
proof -
  let ?a = "AccessFromContext ctx"
  have sel: "select_counter_stmt X ?a tenantID counterID db = Inr row"
    by (rule select_counter_stmt_row [OF wf row])
  obtain db1 where ins: "insert_operation_stmt X ?a tenantID counterID operationID Increment delta h actorID
      (requestMetadata ctx) now db = Inr (Some (oid, db1))"
    by (rule reserve_ok [OF row new])
  obtain db2 where ok: "update_counter_stmt X ?a tenantID counterID (ctr_value row + delta) now db1 = Inr db2"
    "complete_operation_stmt X ?a tenantID operationID (ctr_value row) (ctr_value row + delta) now db2 =
       Inr (record_mutation X Increment (ctr_tenant_id row) (ctr_id row) oid (ctr_value row) delta
         (ctr_value row + delta) h actorID (requestMetadata ctx) now db)"
    by (rule reserve_update_complete_ok [OF row new ins])
  have v: "in_int64 (ctr_value row)" using wf_databaseD(3) [OF wf row(1)] by (simp add: counter_ok_def)
  have guard: "ctr_value row > wrap64 (maxInt64 - delta) \<longleftrightarrow> ctr_value row + delta > maxInt64" if "0 < delta"
  proof -
    have "in_int64 (maxInt64 - delta)" using that d by (auto simp: in_int64_def minInt64_def maxInt64_def)
    then show ?thesis by auto
  qed
  have wrap: "wrap64 (ctr_value row + delta) = ctr_value row + delta" if "0 < delta" "\<not> ctr_value row + delta > maxInt64"
    using that v by (intro wrap64_id) (auto simp: in_int64_def)
  show ?thesis
    unfolding incrementCounter_def BeginWrite_clean
    using tx by (auto simp: incrementCounter_body_def sel ins ok guard wrap increment_outcome_def Let_def)
qed

section \<open>Attempts under failures\<close>

text \<open>
  One attempt, whatever fails in it, leaves the tables alone or records the mutation; the result of
  the attempt says nothing about which when the commit's answer is lost.
\<close>

lemma increment_attempt:
  assumes wf: "wf_database X db" and d: "in_int64 delta" and tx: "\<not> ctx_tx ctx"
    and att: "incrementCounter X f ctx tenantID counterID delta operationID h actorID now db = (res, db')"
  shows "db' = db \<or>
    (\<exists>row oid. row \<in> set (counters db) \<and> pg_uuid X tenantID = Some (ctr_tenant_id row) \<and>
       pg_uuid X counterID = Some (ctr_id row) \<and> pg_uuid X operationID = Some oid \<and>
       counter_tenant_visible X (AccessFromContext ctx) (Some (ctr_tenant_id row)) \<and>
       (\<forall>o' \<in> set (operations db). \<not> (op_tenant_id o' = ctr_tenant_id row \<and> op_id o' = oid)) \<and>
       increment_outcome row delta oid now = Inr \<lparr>mr_OperationID = oid, mr_Delta = delta,
         mr_Value = ctr_value row + delta, mr_UpdatedAt = now, mr_Replayed = False\<rparr> \<and>
       in_int64 (ctr_value row + delta) \<and>
       db' = record_mutation X Increment (ctr_tenant_id row) (ctr_id row) oid (ctr_value row) delta
         (ctr_value row + delta) h actorID (requestMetadata ctx) now db)"
proof -
  from BeginWrite_atomic [OF att [unfolded incrementCounter_def] tx]
  consider "db' = db" | m where
    "incrementCounter_body X f ctx tenantID counterID delta operationID h actorID now db = (Inr m, db')" by blast
  then show ?thesis
  proof cases
    case 2
    then show ?thesis
    proof (cases rule: incrementCounter_body_Inr)
      case replay
      then show ?thesis by simp
    next
      case (fresh row oid)
      then have "in_int64 (ctr_value row)" using wf_databaseD(3) [OF wf] by (auto simp: counter_ok_def)
      with increment_no_overflow fresh d
      have w: "wrap64 (ctr_value row + delta) = ctr_value row + delta" "in_int64 (ctr_value row + delta)" by blast+
      then have "increment_outcome row delta oid now = Inr \<lparr>mr_OperationID = oid, mr_Delta = delta,
         mr_Value = ctr_value row + delta, mr_UpdatedAt = now, mr_Replayed = False\<rparr>"
        using fresh by (simp add: increment_outcome_def in_int64_def)
      with fresh w show ?thesis by auto
    qed
  qed simp
qed

text \<open>The rows after a recorded mutation.\<close>

lemma record_mutation_row:
  assumes "row \<in> set (counters db)"
  shows "row\<lparr>ctr_value := after, ctr_updated_at := pg_time X now\<rparr> \<in>
    set (counters (record_mutation X kind (ctr_tenant_id row) (ctr_id row) oid before delta after h actorID meta now db))"
  using assms by (auto simp: record_mutation_def set_update_where image_iff)

lemma record_mutation_operation:
  "\<exists>r \<in> set (operations (record_mutation X kind t c oid before delta after h actorID meta now db)).
     op_tenant_id r = t \<and> op_counter_id r = c \<and> op_id r = oid \<and> op_kind r = kind \<and> op_delta r = delta \<and>
     op_request_hash r = h \<and> op_value_after r = Some after \<and> op_completed_at r = Some (pg_time X now)"
  by (simp add: record_mutation_def)

lemma increment_after_recorded:
  assumes wf: "wf_database X db" and d: "in_int64 delta" "in_int64 (ctr_value row + delta)"
    and row: "row \<in> set (counters db)" "pg_uuid X tenantID = Some (ctr_tenant_id row)"
      "pg_uuid X counterID = Some (ctr_id row)" "pg_uuid X operationID = Some oid"
      "counter_tenant_visible X (AccessFromContext ctx) (Some (ctr_tenant_id row))"
      "\<forall>o' \<in> set (operations db). \<not> (op_tenant_id o' = ctr_tenant_id row \<and> op_id o' = oid)"
    and db1: "db1 = record_mutation X Increment (ctr_tenant_id row) (ctr_id row) oid (ctr_value row) delta
         (ctr_value row + delta) h actorID meta now db"
  shows "incrementCounter X no_faults ctx tenantID counterID delta operationID h actorID' now' db1 =
    (if counterID = ctr_id row
     then Inr \<lparr>mr_OperationID = operationID, mr_Delta = delta, mr_Value = ctr_value row + delta,
            mr_UpdatedAt = pg_time X now, mr_Replayed = True\<rparr>
     else Inl (Sentinel StoreErrIdempotencyKeyReused), db1)"
proof -
  have wf1: "wf_database X db1"
    unfolding db1 by (rule wf_record_mutation [OF wf row(1,6)]) (use d in auto)
  let ?row = "row\<lparr>ctr_value := ctr_value row + delta, ctr_updated_at := pg_time X now\<rparr>"
  have r1: "?row \<in> set (counters db1)" unfolding db1 by (rule record_mutation_row [OF row(1)])
  obtain r where r: "r \<in> set (operations db1)" "op_tenant_id r = ctr_tenant_id row" "op_counter_id r = ctr_id row"
    "op_id r = oid" "op_kind r = Increment" "op_delta r = delta" "op_request_hash r = h"
    "op_value_after r = Some (ctr_value row + delta)" "op_completed_at r = Some (pg_time X now)"
    using record_mutation_operation unfolding db1 by metis
  show ?thesis
    by (subst increment_known_key [OF wf1 r1 _ _ _ r(1)]) (use row r in \<open>auto simp: replay_of_def\<close>)
qed

text \<open>A client that repeats the request, each time under other failures and at another time.\<close>

fun attempts ::
  "externals \<Rightarrow> go_context \<Rightarrow> string \<Rightarrow> string \<Rightarrow> int64 \<Rightarrow> string \<Rightarrow> string \<Rightarrow> string \<Rightarrow>
   (faults \<times> time) list \<Rightarrow> database \<Rightarrow> database" where
  "attempts X ctx tenantID counterID delta operationID h actorID [] db = db"
| "attempts X ctx tenantID counterID delta operationID h actorID ((f, now) # rest) db =
     attempts X ctx tenantID counterID delta operationID h actorID rest
       (snd (incrementCounter X f ctx tenantID counterID delta operationID h actorID now db))"

text \<open>Once the key is taken no attempt changes anything.\<close>

lemma attempt_known_key_frame:
  assumes "\<not> ctx_tx ctx" "r \<in> set (operations db)" "pg_uuid X tenantID = Some (op_tenant_id r)"
    "pg_uuid X operationID = Some (op_id r)"
  shows "snd (incrementCounter X f ctx tenantID counterID delta operationID h actorID now db) = db"
proof -
  obtain res db' where att: "incrementCounter X f ctx tenantID counterID delta operationID h actorID now db = (res, db')"
    by (cases "incrementCounter X f ctx tenantID counterID delta operationID h actorID now db")
  from BeginWrite_atomic [OF att [unfolded incrementCounter_def] assms(1)]
  consider "db' = db" | m where
    "incrementCounter_body X f ctx tenantID counterID delta operationID h actorID now db = (Inr m, db')" by blast
  then have "db' = db"
  proof cases
    case 2
    then show ?thesis
    proof (cases rule: incrementCounter_body_Inr)
      case (fresh row oid)
      then show ?thesis using assms by auto
    qed simp
  qed simp
  with att show ?thesis by simp
qed

lemma attempts_known_key_frame:
  assumes "\<not> ctx_tx ctx" "r \<in> set (operations db)" "pg_uuid X tenantID = Some (op_tenant_id r)"
    "pg_uuid X operationID = Some (op_id r)"
  shows "attempts X ctx tenantID counterID delta operationID h actorID fs db = db"
  using assms
  by (induction fs) (auto simp: attempt_known_key_frame)

lemma attempts_at_most_once:
  assumes wf: "wf_database X db" and d: "in_int64 delta" and tx: "\<not> ctx_tx ctx"
  shows "let db' = attempts X ctx tenantID counterID delta operationID h actorID fs db in
    db' = db \<or>
    (\<exists>row oid now. row \<in> set (counters db) \<and> pg_uuid X tenantID = Some (ctr_tenant_id row) \<and>
       pg_uuid X counterID = Some (ctr_id row) \<and> pg_uuid X operationID = Some oid \<and>
       counter_tenant_visible X (AccessFromContext ctx) (Some (ctr_tenant_id row)) \<and>
       (\<forall>o' \<in> set (operations db). \<not> (op_tenant_id o' = ctr_tenant_id row \<and> op_id o' = oid)) \<and>
       in_int64 (ctr_value row + delta) \<and>
       db' = record_mutation X Increment (ctr_tenant_id row) (ctr_id row) oid (ctr_value row) delta
         (ctr_value row + delta) h actorID (requestMetadata ctx) now db)"
proof (induction fs)
  case Nil
  then show ?case by simp
next
  case (Cons p fs)
  obtain f now where p: "p = (f, now)" by (cases p)
  obtain res db1 where att: "incrementCounter X f ctx tenantID counterID delta operationID h actorID now db = (res, db1)"
    by (cases "incrementCounter X f ctx tenantID counterID delta operationID h actorID now db")
  from increment_attempt [OF wf d tx att] show ?case
  proof (elim disjE exE conjE)
    assume "db1 = db"
    with Cons.IH p att show ?thesis by simp
  next
    fix row oid
    assume h: "row \<in> set (counters db)" "pg_uuid X tenantID = Some (ctr_tenant_id row)"
       "pg_uuid X counterID = Some (ctr_id row)" "pg_uuid X operationID = Some oid"
       "counter_tenant_visible X (AccessFromContext ctx) (Some (ctr_tenant_id row))"
       "\<forall>o' \<in> set (operations db). \<not> (op_tenant_id o' = ctr_tenant_id row \<and> op_id o' = oid)"
       "in_int64 (ctr_value row + delta)"
      and db1: "db1 = record_mutation X Increment (ctr_tenant_id row) (ctr_id row) oid (ctr_value row) delta
         (ctr_value row + delta) h actorID (requestMetadata ctx) now db"
    obtain r where "r \<in> set (operations db1)" "op_tenant_id r = ctr_tenant_id row" "op_id r = oid"
      using record_mutation_operation unfolding db1 by metis
    then have "attempts X ctx tenantID counterID delta operationID h actorID fs db1 = db1"
      using h tx by (intro attempts_known_key_frame) auto
    with h db1 p att show ?thesis by (auto simp: Let_def)
  qed
qed

end
