(* ===== verification/Counter_Spec.thy ===== *)
theory Counter_Spec
  imports Retry
begin

text \<open>
  An abstract ledger (each counter's value and limit, each used key with what it recorded) and the
  proof that the increment of the counter store implements it; then the retry theorems, stated over
  the value of one counter.
\<close>

section \<open>The abstract ledger\<close>

record ledger =
  lg_counters :: "(string \<times> string) \<rightharpoonup> (int \<times> int)"
  lg_keys :: "(string \<times> string) \<rightharpoonup> (string \<times> op_kind \<times> int \<times> string \<times> int)"

datatype outcome =
    NotFound | KeyReused | NotPositive | ExceedsMaximum | Overflow | OtherError
  | Done int int bool

definition spec_increment ::
  "string \<Rightarrow> string \<Rightarrow> int \<Rightarrow> string \<Rightarrow> string \<Rightarrow> ledger \<Rightarrow> outcome \<times> ledger" where
  "spec_increment t c delta oid h s =
     (case lg_counters s (t, c) of
        None \<Rightarrow> (NotFound, s)
      | Some (v, mx) \<Rightarrow>
        (case lg_keys s (t, oid) of
           Some (c', k, d, h', after) \<Rightarrow>
             (if k = Increment \<and> c' = c \<and> d = delta \<and> h' = h then Done after d True else KeyReused, s)
         | None \<Rightarrow>
             (if delta \<le> 0 then (NotPositive, s)
              else if delta > mx then (ExceedsMaximum, s)
              else if v + delta > maxInt64 then (Overflow, s)
              else (Done (v + delta) delta False,
                    s\<lparr>lg_counters := (lg_counters s)((t, c) \<mapsto> (v + delta, mx)),
                      lg_keys := (lg_keys s)((t, oid) \<mapsto> (c, Increment, delta, h, v + delta))\<rparr>))))"

fun outcome_of :: "go_error + mutation_result \<Rightarrow> outcome" where
  "outcome_of (Inr m) = Done (mr_Value m) (mr_Delta m) (mr_Replayed m)"
| "outcome_of (Inl (Sentinel StoreErrCounterNotFound)) = NotFound"
| "outcome_of (Inl (Sentinel StoreErrIdempotencyKeyReused)) = KeyReused"
| "outcome_of (Inl (Sentinel StoreErrDeltaExceedsMaximum)) = ExceedsMaximum"
| "outcome_of (Inl (Sentinel StoreErrCounterOverflow)) = Overflow"
| "outcome_of (Inl (Msg m)) = NotPositive"
| "outcome_of _ = OtherError"

definition find_counter :: "database \<Rightarrow> string \<Rightarrow> string \<Rightarrow> counter option" where
  "find_counter db t c = find (\<lambda>r. ctr_tenant_id r = t \<and> ctr_id r = c) (counters db)"

definition find_operation :: "database \<Rightarrow> string \<Rightarrow> string \<Rightarrow> operation option" where
  "find_operation db t oid = find (\<lambda>r. op_tenant_id r = t \<and> op_id r = oid) (operations db)"

definition counter_value :: "database \<Rightarrow> string \<Rightarrow> string \<Rightarrow> int option" where
  "counter_value db t c = map_option ctr_value (find_counter db t c)"

definition abs_ledger :: "database \<Rightarrow> ledger" where
  "abs_ledger db = \<lparr>
     lg_counters = (\<lambda>(t, c). map_option (\<lambda>r. (ctr_value r, ctr_max_delta r)) (find_counter db t c)),
     lg_keys = (\<lambda>(t, oid). map_option (\<lambda>r. (op_counter_id r, op_kind r, op_delta r, op_request_hash r,
        case op_value_after r of None \<Rightarrow> 0 | Some v \<Rightarrow> v)) (find_operation db t oid)) \<rparr>"

lemma find_counter_SomeD:
  "find_counter db t c = Some r \<Longrightarrow> r \<in> set (counters db) \<and> ctr_tenant_id r = t \<and> ctr_id r = c"
  by (auto simp: find_counter_def dest: find_Some_in)

lemma find_counter_row:
  "wf_database X db \<Longrightarrow> r \<in> set (counters db) \<Longrightarrow> find_counter db (ctr_tenant_id r) (ctr_id r) = Some r"
  unfolding find_counter_def
  by (rule find_unique) (auto dest: distinct_map_eq [OF wf_databaseD(1)])

lemma find_operation_SomeD:
  "find_operation db t oid = Some r \<Longrightarrow> r \<in> set (operations db) \<and> op_tenant_id r = t \<and> op_id r = oid"
  by (auto simp: find_operation_def dest: find_Some_in)

lemma find_operation_NoneD:
  "find_operation db t oid = None \<Longrightarrow> \<forall>r \<in> set (operations db). \<not> (op_tenant_id r = t \<and> op_id r = oid)"
  by (simp add: find_operation_def find_None_all)

lemma find_append: "find P (xs @ ys) = (case find P xs of None \<Rightarrow> find P ys | Some x \<Rightarrow> Some x)"
  by (induction xs) auto

lemma find_update_where:
  "(\<And>x. P x \<Longrightarrow> Q (f x) = Q x) \<Longrightarrow>
     find Q (update_where P f xs) = map_option (\<lambda>x. if P x then f x else x) (find Q xs)"
  by (induction xs) auto

lemma find_counter_record:
  "find_counter (record_mutation X kind t c oid before delta after h actorID meta now db) t' c' =
     map_option (\<lambda>r. if t' = t \<and> c' = c then r\<lparr>ctr_value := after, ctr_updated_at := pg_time X now\<rparr> else r)
       (find_counter db t' c')"
proof -
  have "find_counter (record_mutation X kind t c oid before delta after h actorID meta now db) t' c' =
      map_option (\<lambda>r. if ctr_tenant_id r = t \<and> ctr_id r = c
        then r\<lparr>ctr_value := after, ctr_updated_at := pg_time X now\<rparr> else r) (find_counter db t' c')"
    unfolding find_counter_def record_mutation_def by (simp add: find_update_where)
  then show ?thesis
    by (cases "find_counter db t' c'") (auto dest: find_counter_SomeD)
qed

lemma counter_value_record:
  "counter_value (record_mutation X kind t c oid before delta after h actorID meta now db) t' c' =
     (if t' = t \<and> c' = c then map_option (\<lambda>_. after) (counter_value db t' c') else counter_value db t' c')"
  by (auto simp: counter_value_def find_counter_record option.map_comp comp_def)

lemma operations_record [simp]:
  "length (operations (record_mutation X kind t c oid before delta after h actorID meta now db)) =
     Suc (length (operations db))"
  by (simp add: record_mutation_def)

lemma abs_record:
  assumes "find_counter db t c = Some row" "find_operation db t oid = None"
  shows "abs_ledger (record_mutation X kind t c oid before delta after h actorID meta now db) =
    (abs_ledger db)\<lparr>lg_counters := (lg_counters (abs_ledger db))((t, c) \<mapsto> (after, ctr_max_delta row)),
      lg_keys := (lg_keys (abs_ledger db))((t, oid) \<mapsto> (c, kind, delta, h, after))\<rparr>"
proof -
  let ?db = "record_mutation X kind t c oid before delta after h actorID meta now db"
  have "lg_counters (abs_ledger ?db) = (lg_counters (abs_ledger db))((t, c) \<mapsto> (after, ctr_max_delta row))"
    using assms(1) by (auto simp: abs_ledger_def find_counter_record fun_eq_iff option.map_comp comp_def)
  moreover have "find_operation ?db t' o' = (case find_operation db t' o' of
      Some r \<Rightarrow> Some r
    | None \<Rightarrow> if t' = t \<and> o' = oid then Some (last (operations ?db)) else None)" for t' o'
    by (auto simp: find_operation_def record_mutation_def find_append split: option.splits)
  then have "lg_keys (abs_ledger ?db) = (lg_keys (abs_ledger db))((t, oid) \<mapsto> (c, kind, delta, h, after))"
    using assms(2)
    by (auto simp: abs_ledger_def fun_eq_iff record_mutation_def split: option.splits)
  ultimately show ?thesis by simp
qed

lemma increment_not_found:
  assumes "pg_uuid X tenantID = Some t" "pg_uuid X counterID = Some c" "find_counter db t c = None"
  shows "incrementCounter X no_faults ctx tenantID counterID delta operationID h actorID now db =
    (Inl (Sentinel StoreErrCounterNotFound), db)"
proof -
  have "find (\<lambda>r. ctr_id r = c \<and> ctr_tenant_id r = t \<and>
      counter_tenant_visible X (AccessFromContext ctx) (Some (ctr_tenant_id r))) (counters db) = None"
    using assms(3) by (auto simp: find_counter_def find_None_all)
  with assms show ?thesis
    by (simp add: incrementCounter_def incrementCounter_body_def select_counter_stmt_def)
qed



section \<open>A concrete database\<close>

definition sample_ctx :: go_context where
  "sample_ctx = WithAccess context_Background
     \<lparr>acc_TenantID = ''t1'', acc_PrincipalID = ''p1'', acc_Admin = False, acc_AuthenticationID = []\<rparr>"

definition sample_counter :: counter where
  "sample_counter = \<lparr>ctr_id = ''c1'', ctr_tenant_id = ''t1'', ctr_label = ''hits'', ctr_value = 10,
     ctr_max_delta = 50, ctr_created_at = 1000, ctr_updated_at = 1000\<rparr>"

definition sample_tenants :: "tenant list" where
  "sample_tenants =
     [\<lparr>tn_id = ''t1'', tn_label = ''acme'', tn_created_at = 0, tn_updated_at = 0\<rparr>,
      \<lparr>tn_id = ''t2'', tn_label = ''umbrella'', tn_created_at = 0, tn_updated_at = 0\<rparr>]"

definition sample_db :: database where
  "sample_db = empty_database\<lparr>tenants := sample_tenants, counters := [sample_counter],
     operations := [initial_operation sample_ext ''t1'' ''c1'' 10 1000]\<rparr>"

lemma sample_wf: "wf_database sample_ext sample_db"
  by code_simp

lemma sample_visible: "counter_tenant_visible sample_ext (AccessFromContext sample_ctx) (Some ''t1'')"
  by code_simp

lemma sample_no_tx: "\<not> ctx_tx sample_ctx"
  by code_simp

lemma sample_ids:
  "pg_uuid sample_ext ''t1'' = Some ''t1''" "pg_uuid sample_ext ''c1'' = Some ''c1''"
  "pg_uuid sample_ext ''k1'' = Some ''k1''" "pg_uuid sample_ext ''C1'' = Some ''c1''"
  by code_simp+

lemma in_int64_5: "in_int64 5"
  by code_simp


section \<open>Retries\<close>

lemma first_increment_row:
  assumes wf: "wf_database X db" and tx: "\<not> ctx_tx ctx" and d: "in_int64 delta"
    and first: "incrementCounter X no_faults ctx tenantID c delta operationID h actorID now db = (Inr m, dbx)"
    and new: "\<not> mr_Replayed m"
  obtains row oid where "row \<in> set (counters db)" "pg_uuid X tenantID = Some (ctr_tenant_id row)"
    "pg_uuid X c = Some (ctr_id row)" "counter_tenant_visible X (AccessFromContext ctx) (Some (ctr_tenant_id row))"
    "pg_uuid X operationID = Some oid"
    "\<forall>o' \<in> set (operations db). \<not> (op_tenant_id o' = ctr_tenant_id row \<and> op_id o' = oid)"
    "mr_Value m = ctr_value row + delta"
    "\<forall>now'. increment_outcome row delta oid now' = Inr \<lparr>mr_OperationID = oid, mr_Delta = delta,
       mr_Value = ctr_value row + delta, mr_UpdatedAt = now', mr_Replayed = False\<rparr>"
proof -
  have body: "incrementCounter_body X no_faults ctx tenantID c delta operationID h actorID now db = (Inr m, dbx)"
    using BeginWrite_Inr [OF first [unfolded incrementCounter_def]] .
  from body obtain row oid where row: "row \<in> set (counters db)" "pg_uuid X tenantID = Some (ctr_tenant_id row)"
      "pg_uuid X c = Some (ctr_id row)" "counter_tenant_visible X (AccessFromContext ctx) (Some (ctr_tenant_id row))"
    and oid: "pg_uuid X operationID = Some oid"
      "\<forall>o' \<in> set (operations db). \<not> (op_tenant_id o' = ctr_tenant_id row \<and> op_id o' = oid)"
    by (cases rule: incrementCounter_body_Inr) (use new in auto)
  from increment_fresh_key [OF wf row oid d tx, where now = now] first
  have "increment_outcome row delta oid now = Inr m" by simp
  then show thesis
    by (intro that [OF row oid]) (auto simp: increment_outcome_def split: if_splits)
qed


text \<open>A commit whose answer is lost: the increment is durable and the caller saw an error.\<close>

definition lost_commit :: faults where
  "lost_commit = no_faults\<lparr>commit_out := CommitLost (Sentinel ErrConnDone)\<rparr>"


text \<open>
  C36. The exact retry of a successful increment fails when the counter ID in the URL is not spelled
  in canonical form (upper case, braces, no hyphens): PostgreSQL reads the identifier, the stored
  operation has its canonical form, and the comparison with the text of the request makes the store
  answer that the key was reused, although nothing differs.
\<close>

theorem increment_replay_noncanonical:
  assumes wf: "wf_database X db" and tx: "\<not> ctx_tx ctx" and d: "in_int64 delta"
    and spelled: "pg_uuid X counterID = Some c" "c \<noteq> counterID"
    and first: "incrementCounter X no_faults ctx tenantID counterID delta operationID h actorID now db = (Inr m, db1)"
    and new: "\<not> mr_Replayed m"
  shows "incrementCounter X no_faults ctx tenantID counterID delta operationID h actorID now' db1 =
    (Inl (Sentinel StoreErrIdempotencyKeyReused), db1)"
proof -
  have body: "incrementCounter_body X no_faults ctx tenantID counterID delta operationID h actorID now db = (Inr m, db1)"
    using BeginWrite_Inr [OF first [unfolded incrementCounter_def]] .
  then show ?thesis
  proof (cases rule: incrementCounter_body_Inr)
    case replay
    with new show ?thesis by simp
  next
    case (fresh row oid)
    have "in_int64 (ctr_value row)" using wf_databaseD(3) [OF wf fresh(1)] by (simp add: counter_ok_def)
    with increment_no_overflow fresh d
    have w: "wrap64 (ctr_value row + delta) = ctr_value row + delta" "in_int64 (ctr_value row + delta)" by blast+
    with increment_after_recorded [OF wf d w(2) fresh(1,2,3,4,5,6)] fresh(10) spelled fresh(3)
    show ?thesis by auto
  qed
qed

theorem increment_replay_noncanonical_witness:
  "let (r, db1) = incrementCounter sample_ext no_faults sample_ctx ''t1'' ''C1'' 5 ''k1'' ''h'' ''p1'' 1500 sample_db
   in fst (incrementCounter sample_ext no_faults sample_ctx ''t1'' ''C1'' 5 ''k1'' ''h'' ''p1'' 2500 db1) =
     Inl (Sentinel StoreErrIdempotencyKeyReused)"
proof -
  let ?run = "\<lambda>n. incrementCounter sample_ext no_faults sample_ctx ''t1'' ''C1'' 5 ''k1'' ''h'' ''p1'' n"
  have first: "?run 1500 sample_db = (Inr \<lparr>mr_OperationID = ''k1'', mr_Delta = 5, mr_Value = 15,
      mr_UpdatedAt = 1500, mr_Replayed = False\<rparr>, snd (?run 1500 sample_db))"
    by (rule prod_eqI) (code_simp, simp)
  from increment_replay_noncanonical [OF sample_wf sample_no_tx in_int64_5 sample_ids(4) _ first]
  show ?thesis by (simp add: case_prod_beta)
qed

end
