(* ===== verification/Tenant.thy ===== *)
theory Tenant
  imports Database
begin

text \<open>
  Tenants: \<open>internal/store/tenant.go\<close> and \<open>internal/service/tenant.go\<close>.
\<close>

definition insert_tenant_stmt :: "externals \<Rightarrow> access \<Rightarrow> tenant \<Rightarrow> database \<Rightarrow> go_error + (unit \<times> database)" where
  "insert_tenant_stmt X a tn db =
     (case pg_uuid X (tn_id tn) of
        None \<Rightarrow> Inl (Pq ''22P02'')
      | Some t \<Rightarrow>
        (if \<not> counter_tenant_visible X a (Some t) then Inl (Pq ''42501'')
         else if list_ex (\<lambda>r. tn_id r = t \<or> tn_label r = tn_label tn) (tenants db) then Inl (Pq ''23505'')
         else Inr ((), db\<lparr>tenants := tenants db @
           [tn\<lparr>tn_id := t, tn_created_at := pg_time X (tn_created_at tn),
               tn_updated_at := pg_time X (tn_updated_at tn)\<rparr>]\<rparr>)))"

definition select_tenant_stmt :: "externals \<Rightarrow> access \<Rightarrow> string \<Rightarrow> database \<Rightarrow> go_error + tenant" where
  "select_tenant_stmt X a tid db =
     (case pg_uuid X tid of
        None \<Rightarrow> Inl (Pq ''22P02'')
      | Some t \<Rightarrow>
        (case find (\<lambda>r. tn_id r = t \<and> counter_tenant_visible X a (Some (tn_id r))) (tenants db) of
           None \<Rightarrow> Inl (Sentinel ErrNoRows)
         | Some r \<Rightarrow> Inr r))"

definition CreateTenant ::
  "externals \<Rightarrow> faults \<Rightarrow> go_context \<Rightarrow> tenant \<Rightarrow> database \<Rightarrow> (go_error + unit) \<times> database" where
  "CreateTenant X f ctx tn db =
     (case ExecutorFor f ctx SInsertTenant (insert_tenant_stmt X (AccessFromContext ctx) tn) db of
        (Inr u, db') \<Rightarrow> (Inr u, db')
      | (Inl e, db') \<Rightarrow>
          (if errors_As_pq e = Some ''23505'' then Inl (Sentinel StoreErrTenantConflict)
           else Inl (Wrapf ''create tenant'' e), db'))"

definition GetTenant ::
  "externals \<Rightarrow> faults \<Rightarrow> go_context \<Rightarrow> string \<Rightarrow> database \<Rightarrow> go_error + tenant" where
  "GetTenant X f ctx tid db =
     (case query f ctx SGetTenant (select_tenant_stmt X (AccessFromContext ctx) tid) db of
        Inl e \<Rightarrow> if errors_Is e ErrNoRows then Inl (Sentinel StoreErrTenantNotFound)
                 else Inl (Wrapf ''get tenant'' e)
      | Inr r \<Rightarrow> Inr r)"

text \<open>The service: the clock and the fresh identifier are arguments.\<close>

definition TenantService_Create ::
  "externals \<Rightarrow> faults \<Rightarrow> go_context \<Rightarrow> time \<Rightarrow> string \<Rightarrow> string \<Rightarrow> database \<Rightarrow>
   (go_error + tenant) \<times> database" where
  "TenantService_Create X f ctx now newID label db =
     (let tn = \<lparr>tn_id = newID, tn_label = label, tn_created_at = now, tn_updated_at = now\<rparr>
      in case CreateTenant X f ctx tn db of
           (Inl e, db') \<Rightarrow>
             (if errors_Is e StoreErrTenantConflict then Inl (Sentinel ErrConflict) else Inl e, db')
         | (Inr _, db') \<Rightarrow> (Inr tn, db'))"

definition TenantService_Get ::
  "externals \<Rightarrow> faults \<Rightarrow> go_context \<Rightarrow> string \<Rightarrow> database \<Rightarrow> go_error + tenant" where
  "TenantService_Get X f ctx tid db =
     (case GetTenant X f ctx tid db of
        Inl e \<Rightarrow> if errors_Is e StoreErrTenantNotFound then Inl (Sentinel ErrNotFound) else Inl e
      | Inr r \<Rightarrow> Inr r)"

lemma CreateTenant_frame [frame]:
  "CreateTenant X f ctx tn db = (r, db') \<Longrightarrow> counters db' = counters db \<and> operations db' = operations db"
  by (auto simp: CreateTenant_def ExecutorFor_def BeginWrite_def exec_def insert_tenant_stmt_def
      split: if_splits option.splits prod.splits sum.splits commit_outcome.splits)

end
