(* ===== verification/History.thy ===== *)
theory History
  imports Counter_Spec Text
begin

text \<open>
  Operation history and reconciliation: \<open>internal/store/history.go\<close> and
  \<open>internal/service/history.go\<close>. The reconciliation reads the tables in batches, each in a
  transaction of its own, so the tables may change between batches: the model takes the database
  and the failures of every batch.
\<close>

section \<open>Listing operations\<close>

record operation_cursor =
  oc_CreatedAt :: time
  oc_OperationID :: string

record counter_operation =
  co_OperationID :: string
  co_CounterID :: string
  co_Kind :: op_kind
  co_Delta :: int64
  co_ValueBefore :: "int64 option"
  co_ValueAfter :: "int64 option"
  co_ActorID :: "string option"
  co_Metadata :: json
  co_CreatedAt :: time
  co_CompletedAt :: "time option"

definition history_key :: "operation \<Rightarrow> time \<times> string" where
  "history_key r = (op_created_at r, op_id r)"

definition history_rows :: "externals \<Rightarrow> access \<Rightarrow> string \<Rightarrow> string \<Rightarrow> database \<Rightarrow> operation list" where
  "history_rows X a t c db =
     filter (\<lambda>r. op_tenant_id r = t \<and> op_counter_id r = c \<and> op_state r = Completed \<and>
        counter_tenant_visible X a (Some (op_tenant_id r))) (operations db)"

definition list_operations_stmt ::
  "externals \<Rightarrow> access \<Rightarrow> string \<Rightarrow> string \<Rightarrow> operation_cursor option \<Rightarrow> nat \<Rightarrow> database \<Rightarrow>
   go_error + operation list" where
  "list_operations_stmt X a tenantID counterID cursor n db =
     (case (pg_uuid X tenantID, pg_uuid X counterID) of
        (Some t, Some c) \<Rightarrow>
          (case cursor of
             None \<Rightarrow> Inr (take n (rev (sort_key history_key (history_rows X a t c db))))
           | Some cur \<Rightarrow>
             (case pg_uuid X (oc_OperationID cur) of
                None \<Rightarrow> Inl (Pq ''22P02'')
              | Some i \<Rightarrow>
                Inr (take n (rev (sort_key history_key
                  (filter (\<lambda>r. history_key r < (pg_time X (oc_CreatedAt cur), i)) (history_rows X a t c db)))))))
      | _ \<Rightarrow> Inl (Pq ''22P02''))"

text \<open>
  The conversion of a row; the metadata column is \<open>JSONB NOT NULL\<close>, so the default for an empty
  one never applies.
\<close>

definition operation_model :: "operation \<Rightarrow> counter_operation" where
  "operation_model r = \<lparr>co_OperationID = op_id r, co_CounterID = op_counter_id r, co_Kind = op_kind r,
     co_Delta = op_delta r, co_ValueBefore = op_value_before r, co_ValueAfter = op_value_after r,
     co_ActorID = op_actor_id r, co_Metadata = op_metadata r, co_CreatedAt = op_created_at r,
     co_CompletedAt = op_completed_at r\<rparr>"

definition ListOperations ::
  "externals \<Rightarrow> faults \<Rightarrow> go_context \<Rightarrow> string \<Rightarrow> string \<Rightarrow> operation_cursor option \<Rightarrow> nat \<Rightarrow> database \<Rightarrow>
   go_error + counter_operation list" where
  "ListOperations X f ctx tenantID counterID cursor limit db =
     (case query f ctx SListOperations
         (list_operations_stmt X (AccessFromContext ctx) tenantID counterID cursor (limit + 1)) db of
        Inl e \<Rightarrow> Inl (Wrapf ''list counter operations'' e)
      | Inr rows \<Rightarrow> Inr (map operation_model rows))"

record operation_page =
  pg_Operations :: "counter_operation list"
  pg_Next :: "operation_cursor option"

definition History_List ::
  "externals \<Rightarrow> faults \<Rightarrow> go_context \<Rightarrow> string \<Rightarrow> string \<Rightarrow> operation_cursor option \<Rightarrow> nat \<Rightarrow> database \<Rightarrow>
   go_error + operation_page" where
  "History_List X f ctx tenantID counterID cursor limit db =
     (case GetCounter X f ctx tenantID counterID db of
        Inl e \<Rightarrow> if errors_Is e StoreErrCounterNotFound then Inl (Sentinel ErrCounterNotFound) else Inl e
      | Inr _ \<Rightarrow>
        (case ListOperations X f ctx tenantID counterID cursor limit db of
           Inl e \<Rightarrow> Inl e
         | Inr ops \<Rightarrow>
           if length ops > limit
           then (let shown = take limit ops; lst = last shown
                 in Inr \<lparr>pg_Operations = shown,
                      pg_Next = Some \<lparr>oc_CreatedAt = co_CreatedAt lst, oc_OperationID = co_OperationID lst\<rparr>\<rparr>)
           else Inr \<lparr>pg_Operations = ops, pg_Next = None\<rparr>))"

section \<open>Reconciliation\<close>

record reconciliation_row =
  rc_TenantID :: string
  rc_CounterID :: string
  rc_CurrentValue :: int64
  rc_TotalDelta :: string
  rc_OperationCount :: int64
  rc_InitialValueCount :: int64

record report =
  rp_CountersChecked :: int64
  rp_OperationsScanned :: int64
  rp_Mismatches :: int64
  rp_InitialValueViolations :: int64
  rp_StartedAt :: time
  rp_CompletedAt :: time

definition reconciliation_key :: "counter \<Rightarrow> string \<times> string" where
  "reconciliation_key c = (ctr_tenant_id c, ctr_id c)"

definition reconciliation_row_of :: "externals \<Rightarrow> access \<Rightarrow> database \<Rightarrow> counter \<Rightarrow> reconciliation_row" where
  "reconciliation_row_of X a db c =
     (let joined = history_rows X a (ctr_tenant_id c) (ctr_id c) db
      in \<lparr>rc_TenantID = ctr_tenant_id c, rc_CounterID = ctr_id c, rc_CurrentValue = ctr_value c,
          rc_TotalDelta = itoa (sum_list (map op_delta joined)),
          rc_OperationCount = int (length joined),
          rc_InitialValueCount = int (length (filter (\<lambda>r. op_kind r = InitialValue) joined))\<rparr>)"

definition visible_counters :: "externals \<Rightarrow> access \<Rightarrow> database \<Rightarrow> counter list" where
  "visible_counters X a db = filter (\<lambda>r. counter_tenant_visible X a (Some (ctr_tenant_id r))) (counters db)"

definition reconciliation_stmt ::
  "externals \<Rightarrow> access \<Rightarrow> string \<Rightarrow> string \<Rightarrow> nat \<Rightarrow> database \<Rightarrow> go_error + reconciliation_row list" where
  "reconciliation_stmt X a lastTenantID lastCounterID n db =
     (if lastTenantID = []
      then Inr (map (reconciliation_row_of X a db)
             (take n (sort_key reconciliation_key (visible_counters X a db))))
      else (case (pg_uuid X lastTenantID, pg_uuid X lastCounterID) of
          (Some t, Some c) \<Rightarrow>
            Inr (map (reconciliation_row_of X a db) (take n (sort_key reconciliation_key
              (filter (\<lambda>r. (t, c) < reconciliation_key r) (visible_counters X a db)))))
        | _ \<Rightarrow> Inl (Pq ''22P02'')))"

definition reconciliationBatch ::
  "externals \<Rightarrow> faults \<Rightarrow> go_context \<Rightarrow> string \<Rightarrow> string \<Rightarrow> nat \<Rightarrow> database \<Rightarrow>
   go_error + reconciliation_row list" where
  "reconciliationBatch X f ctx lastTenantID lastCounterID n db =
     (case query f ctx SReconcile (reconciliation_stmt X (AccessFromContext ctx) lastTenantID lastCounterID n) db of
        Inl e \<Rightarrow> if errors_Is e ErrNoRows then Inr [] else Inl (Wrapf ''reconcile counter batch'' e)
      | Inr rows \<Rightarrow> Inr rows)"

text \<open>The inner loop: the report so far, and the error of a total that cannot be read.\<close>

definition reconcile_row :: "report \<Rightarrow> reconciliation_row \<Rightarrow> go_error option \<times> report" where
  "reconcile_row rep row =
     (case parse_int (rc_TotalDelta row) of
        None \<Rightarrow> (Some (Msg (''parse total delta for counter '' @ rc_TenantID row @ ''/'' @ rc_CounterID row @ '': '' @
          [CHR 0x22] @ rc_TotalDelta row @ [CHR 0x22])), rep)
      | Some tot \<Rightarrow>
        (None, rep\<lparr>
           rp_CountersChecked := wrap64 (rp_CountersChecked rep + 1),
           rp_OperationsScanned := wrap64 (rp_OperationsScanned rep + rc_OperationCount row),
           rp_Mismatches := (if tot \<noteq> rc_CurrentValue row then wrap64 (rp_Mismatches rep + 1)
             else rp_Mismatches rep),
           rp_InitialValueViolations := (if rc_InitialValueCount row \<noteq> 1
             then wrap64 (rp_InitialValueViolations rep + 1) else rp_InitialValueViolations rep)\<rparr>))"

fun reconcile_rows :: "report \<Rightarrow> reconciliation_row list \<Rightarrow> go_error option \<times> report" where
  "reconcile_rows rep [] = (None, rep)"
| "reconcile_rows rep (row # rows) =
     (case reconcile_row rep row of
        (Some e, rep') \<Rightarrow> (Some e, rep')
      | (None, rep') \<Rightarrow> reconcile_rows rep' rows)"

text \<open>
  The outer loop, with fuel; \<open>dbs i\<close> and \<open>fs i\<close> are the database and the failures of batch \<open>i\<close>.
\<close>

fun reconcile_loop ::
  "nat \<Rightarrow> externals \<Rightarrow> (nat \<Rightarrow> faults) \<Rightarrow> go_context \<Rightarrow> nat \<Rightarrow> (nat \<Rightarrow> database) \<Rightarrow> nat \<Rightarrow> string \<Rightarrow> string \<Rightarrow>
   time \<Rightarrow> report \<Rightarrow> (go_error option \<times> report) option" where
  "reconcile_loop 0 X fs ctx n dbs i lt lc fin rep = None"
| "reconcile_loop (Suc fuel) X fs ctx n dbs i lt lc fin rep =
     (case reconciliationBatch X (fs i) ctx lt lc n (dbs i) of
        Inl e \<Rightarrow> Some (Some e, rep)
      | Inr rows \<Rightarrow>
        if rows = [] then Some (None, rep\<lparr>rp_CompletedAt := fin\<rparr>)
        else (case reconcile_rows rep rows of
            (Some e, rep') \<Rightarrow> Some (Some e, rep')
          | (None, rep') \<Rightarrow>
            reconcile_loop fuel X fs ctx n dbs (Suc i)
              (rc_TenantID (last rows)) (rc_CounterID (last rows)) fin rep'))"

definition clamp_batch :: "int \<Rightarrow> nat" where
  "clamp_batch batchSize =
     (let b = (if batchSize < 1 then 100 else batchSize) in nat (if b > 1000 then 1000 else b))"

definition empty_report :: "time \<Rightarrow> report" where
  "empty_report started = \<lparr>rp_CountersChecked = 0, rp_OperationsScanned = 0, rp_Mismatches = 0,
     rp_InitialValueViolations = 0, rp_StartedAt = started, rp_CompletedAt = zero_time\<rparr>"

definition Reconcile ::
  "nat \<Rightarrow> externals \<Rightarrow> (nat \<Rightarrow> faults) \<Rightarrow> go_context \<Rightarrow> int \<Rightarrow> time \<Rightarrow> time \<Rightarrow> (nat \<Rightarrow> database) \<Rightarrow>
   (go_error option \<times> report) option" where
  "Reconcile fuel X fs ctx batchSize started fin dbs =
     reconcile_loop fuel X fs ctx (clamp_batch batchSize) dbs 0 [] [] fin (empty_report started)"


section \<open>The reconciliation over an unchanging database\<close>

text \<open>The report on a list of counters, in one pass.\<close>

definition total_report :: "externals \<Rightarrow> access \<Rightarrow> database \<Rightarrow> time \<Rightarrow> counter list \<Rightarrow> report" where
  "total_report X a db started cs =
     (let ops = (\<lambda>c. history_rows X a (ctr_tenant_id c) (ctr_id c) db)
      in \<lparr>rp_CountersChecked = wrap64 (int (length cs)),
          rp_OperationsScanned = wrap64 (\<Sum>c\<leftarrow>cs. int (length (ops c))),
          rp_Mismatches = wrap64 (int (length (filter (\<lambda>c. sum_list (map op_delta (ops c)) \<noteq> ctr_value c) cs))),
          rp_InitialValueViolations = wrap64 (int (length (filter
            (\<lambda>c. length (filter (\<lambda>r. op_kind r = InitialValue) (ops c)) \<noteq> 1) cs))),
          rp_StartedAt = started, rp_CompletedAt = zero_time\<rparr>)"

lemma total_report_Nil: "total_report X a db started [] = empty_report started"
  by (simp add: total_report_def empty_report_def)

lemma reconcile_row_total:
  "reconcile_row (total_report X a db started cs) (reconciliation_row_of X a db c) =
     (None, total_report X a db started (cs @ [c]))"
  by (simp add: reconcile_row_def reconciliation_row_of_def total_report_def Let_def wrap64_add_left wrap64_add_right add.commute)

lemma reconcile_rows_total:
  "reconcile_rows (total_report X a db started cs) (map (reconciliation_row_of X a db) ds) =
     (None, total_report X a db started (cs @ ds))"
  by (induction ds arbitrary: cs) (simp_all add: reconcile_row_total)

lemma reconciliation_row_key:
  "rc_TenantID (reconciliation_row_of X a db c) = ctr_tenant_id c"
  "rc_CounterID (reconciliation_row_of X a db c) = ctr_id c"
  by (simp_all add: reconciliation_row_of_def Let_def)

definition reconciliation_order :: "externals \<Rightarrow> access \<Rightarrow> database \<Rightarrow> counter list" where
  "reconciliation_order X a db = sort_key reconciliation_key (visible_counters X a db)"

lemma reconciliation_order_props:
  assumes "wf_database X db"
  shows "sorted (map reconciliation_key (reconciliation_order X a db))"
    and "distinct (map reconciliation_key (reconciliation_order X a db))"
    and "set (reconciliation_order X a db) = set (visible_counters X a db)"
proof -
  have "distinct (map ctr_id (counters db))" by (rule wf_databaseD(1) [OF assms])
  then have d: "distinct (map ctr_id (reconciliation_order X a db))"
    unfolding reconciliation_order_def visible_counters_def
    by (simp add: distinct_map inj_on_def)
  then show "distinct (map reconciliation_key (reconciliation_order X a db))"
    by (auto simp: distinct_map inj_on_def reconciliation_key_def)
qed (simp_all add: reconciliation_order_def)

lemma canonical_counter:
  assumes "wf_database X db" "pg_laws X" "c \<in> set (counters db)"
  shows "pg_uuid X (ctr_tenant_id c) = Some (ctr_tenant_id c)" "pg_uuid X (ctr_id c) = Some (ctr_id c)"
    "ctr_tenant_id c \<noteq> []" "ctr_id c \<noteq> []"
  using wf_databaseD(3) [OF assms(1,3)] pg_lawsD(2) [OF assms(2)] by (auto simp: counter_ok_def)

text \<open>The batch after the first \<open>j\<close> counters.\<close>

lemma reconciliation_batch_at:
  assumes wf: "wf_database X db" and X: "pg_laws X"
    and j: "j \<le> length (reconciliation_order X a db)"
    and lst: "j = 0 \<Longrightarrow> lt = []"
      "0 < j \<Longrightarrow> lt = ctr_tenant_id (reconciliation_order X a db ! (j - 1)) \<and> lc = ctr_id (reconciliation_order X a db ! (j - 1))"
  shows "reconciliation_stmt X a lt lc n db =
    Inr (map (reconciliation_row_of X a db) (take n (drop j (reconciliation_order X a db))))"
proof (cases j)
  case 0
  with lst show ?thesis by (simp add: reconciliation_stmt_def reconciliation_order_def)
next
  case (Suc i)
  let ?L = "reconciliation_order X a db"
  note L = reconciliation_order_props [OF wf, where a = a]
  from Suc j have i: "i < length ?L" by simp
  then have "?L ! i \<in> set (counters db)" using L(3) nth_mem [OF i] by (auto simp: visible_counters_def)
  note c = canonical_counter [OF wf X this]
  have "filter (\<lambda>r. reconciliation_key (?L ! i) < reconciliation_key r) ?L = drop (Suc i) ?L"
    by (rule sorted_filter_greater [OF L(1,2) i])
  then have "sort_key reconciliation_key (filter (\<lambda>r. reconciliation_key (?L ! i) < reconciliation_key r)
      (visible_counters X a db)) = drop (Suc i) ?L"
    by (simp add: reconciliation_order_def filter_sort_key)
  with Suc lst(2) c show ?thesis
    by (simp add: reconciliation_stmt_def reconciliation_key_def [of "?L ! i"])
qed

lemma reconcile_loop_total:
  assumes wf: "wf_database X db" and X: "pg_laws X" and n: "0 < n"
    and j: "j \<le> length (reconciliation_order X (AccessFromContext ctx) db)"
    and lst: "j = 0 \<Longrightarrow> lt = []"
      "0 < j \<Longrightarrow> lt = ctr_tenant_id (reconciliation_order X (AccessFromContext ctx) db ! (j - 1)) \<and>
         lc = ctr_id (reconciliation_order X (AccessFromContext ctx) db ! (j - 1))"
    and fuel: "length (reconciliation_order X (AccessFromContext ctx) db) - j < fuel"
  shows "reconcile_loop fuel X (\<lambda>_. no_faults) ctx n (\<lambda>_. db) i lt lc fin
      (total_report X (AccessFromContext ctx) db started (take j (reconciliation_order X (AccessFromContext ctx) db))) =
    Some (None, (total_report X (AccessFromContext ctx) db started
      (reconciliation_order X (AccessFromContext ctx) db))\<lparr>rp_CompletedAt := fin\<rparr>)"
  using j lst fuel
proof (induction fuel arbitrary: j lt lc i)
  case 0
  then show ?case by simp
next
  case (Suc fuel)
  let ?a = "AccessFromContext ctx"
  let ?L = "reconciliation_order X ?a db"
  let ?rows = "map (reconciliation_row_of X ?a db) (take n (drop j ?L))"
  have b: "reconciliationBatch X no_faults ctx lt lc n db = Inr ?rows"
    using reconciliation_batch_at [OF wf X Suc.prems(1-3), of n] by (simp add: reconciliationBatch_def)
  show ?case
  proof (cases "j = length ?L")
    case True
    then show ?thesis by (simp add: b)
  next
    case False
    define j' where "j' = min (j + n) (length ?L)"
    have j': "j < j'" "j' \<le> length ?L" using False Suc.prems(1) n by (auto simp: j'_def)
    have ne: "take n (drop j ?L) \<noteq> []" using False Suc.prems(1) n by simp
    have tk: "take j ?L @ take n (drop j ?L) = take j' ?L"
      unfolding j'_def by (simp add: take_add [symmetric] min_def)
    have "last (take n (drop j ?L)) = last (take j' ?L)" using ne by (simp add: tk [symmetric])
    then have lst: "last (take n (drop j ?L)) = ?L ! (j' - 1)"
      using j' by (subst (asm) (2) last_conv_nth) (auto simp: min_def)
    have "reconcile_rows (total_report X ?a db started (take j ?L)) ?rows =
        (None, total_report X ?a db started (take j' ?L))"
      by (simp only: reconcile_rows_total tk)
    with b ne show ?thesis
      using Suc.IH [OF j'(2), of "ctr_tenant_id (?L ! (j' - 1))" "ctr_id (?L ! (j' - 1))" "Suc i"] j' Suc.prems(4)
      by (simp add: last_map reconciliation_row_key lst)
  qed
qed

lemma clamp_batch_pos: "0 < clamp_batch b"
  by (auto simp: clamp_batch_def Let_def)


lemma total_report_sort:
  "total_report X a db started (sort_key k cs) = total_report X a db started cs"
proof -
  have "length (filter P (sort_key k cs)) = length (filter P cs)" for P
    by (simp add: filter_sort_key)
  moreover have "(\<Sum>c\<leftarrow>sort_key k cs. g c) = (\<Sum>c\<leftarrow>cs. g c)" for g :: "counter \<Rightarrow> int"
    by (metis mset_map mset_sort sum_mset_sum_list)
  ultimately show ?thesis by (simp add: total_report_def Let_def)
qed


section \<open>The reconciliation while the tables change\<close>

lemma history_rows_wf:
  assumes "wf_database X db" "counter_tenant_visible X a (Some t)"
  shows "history_rows X a t c db = counter_ops db t c"
  using wf_databaseD(4) [OF assms(1)] assms(2)
  unfolding history_rows_def counter_ops_def by (intro filter_cong) (auto simp: operation_ok_def)

lemma reconcile_row_clean:
  assumes "wf_database X db" "c \<in> set (visible_counters X a db)"
  obtains rep' where "reconcile_row rep (reconciliation_row_of X a db c) = (None, rep')"
    "rp_Mismatches rep' = rp_Mismatches rep" "rp_InitialValueViolations rep' = rp_InitialValueViolations rep"
proof -
  from assms(2) have c: "c \<in> set (counters db)" "counter_tenant_visible X a (Some (ctr_tenant_id c))"
    by (auto simp: visible_counters_def)
  from wf_databaseD(5) [OF assms(1) c(1)] history_rows_wf [OF assms(1) c(2)] that show thesis
    by (simp add: reconcile_row_def reconciliation_row_of_def Let_def ledger_ok_def)
qed

lemma reconcile_rows_clean:
  assumes "wf_database X db" "set cs \<subseteq> set (visible_counters X a db)"
  obtains rep' where "reconcile_rows rep (map (reconciliation_row_of X a db) cs) = (None, rep')"
    "rp_Mismatches rep' = rp_Mismatches rep" "rp_InitialValueViolations rep' = rp_InitialValueViolations rep"
  using assms(2)
proof (induction cs arbitrary: rep thesis)
  case Nil
  then show ?case by simp
next
  case (Cons c cs)
  obtain rep1 where r1: "reconcile_row rep (reconciliation_row_of X a db c) = (None, rep1)"
    "rp_Mismatches rep1 = rp_Mismatches rep" "rp_InitialValueViolations rep1 = rp_InitialValueViolations rep"
    using reconcile_row_clean [OF assms(1), of c a rep] Cons.prems(2) by auto
  from Cons.IH [of rep1] Cons.prems(2) obtain rep2 where
    "reconcile_rows rep1 (map (reconciliation_row_of X a db) cs) = (None, rep2)"
    "rp_Mismatches rep2 = rp_Mismatches rep1" "rp_InitialValueViolations rep2 = rp_InitialValueViolations rep1"
    by auto
  with r1 Cons.prems(1) show ?case by simp
qed

text \<open>What a batch after a counter already seen, or the first one, returns.\<close>

lemma reconciliation_batch_after:
  assumes "pg_laws X" and "lt = [] \<or> pg_uuid X lt = Some lt \<and> pg_uuid X lc = Some lc"
  obtains cs where "reconciliation_stmt X a lt lc n db = Inr (map (reconciliation_row_of X a db) cs)"
    "set cs \<subseteq> set (visible_counters X a db)" "\<forall>c \<in> set cs. lt \<noteq> [] \<longrightarrow> (lt, lc) < reconciliation_key c"
proof (cases "lt = []")
  case True
  show thesis
    by (rule that [of "take n (sort_key reconciliation_key (visible_counters X a db))"])
      (use True in \<open>auto simp: reconciliation_stmt_def dest: in_set_takeD\<close>)
next
  case False
  show thesis
    by (rule that [of "take n (sort_key reconciliation_key
        (filter (\<lambda>r. (lt, lc) < reconciliation_key r) (visible_counters X a db)))"])
      (use False assms in \<open>auto simp: reconciliation_stmt_def dest: in_set_takeD\<close>)
qed

lemma reconcile_loop_clean:
  assumes X: "pg_laws X" and wf: "\<And>k. wf_database X (dbs k)"
    and K: "finite K" "\<And>k. reconciliation_key ` set (counters (dbs k)) \<subseteq> K"
    and at: "lt = [] \<or> pg_uuid X lt = Some lt \<and> pg_uuid X lc = Some lc"
    and fuel: "card {k \<in> K. lt \<noteq> [] \<longrightarrow> (lt, lc) < k} < fuel"
  shows "\<exists>rep'. reconcile_loop fuel X (\<lambda>_. no_faults) ctx n dbs i lt lc fin rep = Some (None, rep') \<and>
    rp_Mismatches rep' = rp_Mismatches rep \<and> rp_InitialValueViolations rep' = rp_InitialValueViolations rep"
  using at fuel
proof (induction fuel arbitrary: lt lc i rep)
  case 0
  then show ?case by simp
next
  case (Suc fuel)
  let ?a = "AccessFromContext ctx"
  obtain cs where cs: "reconciliation_stmt X ?a lt lc n (dbs i) = Inr (map (reconciliation_row_of X ?a (dbs i)) cs)"
    "set cs \<subseteq> set (visible_counters X ?a (dbs i))" "\<forall>c \<in> set cs. lt \<noteq> [] \<longrightarrow> (lt, lc) < reconciliation_key c"
    by (rule reconciliation_batch_after [OF X Suc.prems(1)])
  have b: "reconciliationBatch X no_faults ctx lt lc n (dbs i) = Inr (map (reconciliation_row_of X ?a (dbs i)) cs)"
    using cs(1) by (simp add: reconciliationBatch_def)
  obtain rep1 where r1: "reconcile_rows rep (map (reconciliation_row_of X ?a (dbs i)) cs) = (None, rep1)"
    "rp_Mismatches rep1 = rp_Mismatches rep" "rp_InitialValueViolations rep1 = rp_InitialValueViolations rep"
    by (rule reconcile_rows_clean [OF wf cs(2)])
  show ?case
  proof (cases "cs = []")
    case True
    with b show ?thesis by simp
  next
    case False
    let ?c = "last cs"
    have c: "?c \<in> set cs" "?c \<in> set (counters (dbs i))"
      using last_in_set [OF False] cs(2) unfolding visible_counters_def by auto
    note can = canonical_counter [OF wf X c(2)]
    have key: "reconciliation_key ?c = (ctr_tenant_id ?c, ctr_id ?c)" by (simp add: reconciliation_key_def)
    have inK: "(ctr_tenant_id ?c, ctr_id ?c) \<in> K" using K(2) [of i] c(2) key by (metis image_subset_iff)
    have sub: "{k \<in> K. (ctr_tenant_id ?c, ctr_id ?c) < k} \<subset> {k \<in> K. lt \<noteq> [] \<longrightarrow> (lt, lc) < k}"
    proof
      show "{k \<in> K. (ctr_tenant_id ?c, ctr_id ?c) < k} \<subseteq> {k \<in> K. lt \<noteq> [] \<longrightarrow> (lt, lc) < k}"
      proof (rule Collect_mono, intro impI conjI; elim conjE)
        fix k assume "lt \<noteq> []" "(ctr_tenant_id ?c, ctr_id ?c) < k"
        with cs(3) c(1) key show "(lt, lc) < k" by (metis less_trans)
      qed
      show "{k \<in> K. (ctr_tenant_id ?c, ctr_id ?c) < k} \<noteq> {k \<in> K. lt \<noteq> [] \<longrightarrow> (lt, lc) < k}"
      proof -
        have "(ctr_tenant_id ?c, ctr_id ?c) \<in> {k \<in> K. lt \<noteq> [] \<longrightarrow> (lt, lc) < k}"
          using inK cs(3) c(1) unfolding key [symmetric] by blast
        then show ?thesis by (metis (no_types, lifting) less_irrefl mem_Collect_eq)
      qed
    qed
    have "finite {k \<in> K. lt \<noteq> [] \<longrightarrow> (lt, lc) < k}" using K(1) by (rule finite_subset [rotated]) blast
    from psubset_card_mono [OF this sub] Suc.prems(2)
    have "card {k \<in> K. (ctr_tenant_id ?c, ctr_id ?c) < k} < fuel" by linarith
    with Suc.IH [of "ctr_tenant_id ?c" "ctr_id ?c" "Suc i" rep1] can b False r1 show ?thesis
      by (simp add: last_map reconciliation_row_key)
  qed
qed

text \<open>
  C18. No false alarm. While the tables change between its batches, as long as every batch reads a
  well-formed database and the counters that ever exist are among finitely many, the reconciliation
  ends and reports neither a mismatch nor a missing initial value.
\<close>

theorem reconcile_no_false_alarm:
  assumes X: "pg_laws X" and wf: "\<And>k. wf_database X (dbs k)"
    and K: "finite K" "\<And>k. reconciliation_key ` set (counters (dbs k)) \<subseteq> K"
    and fuel: "card K < fuel"
  shows "\<exists>rep. Reconcile fuel X (\<lambda>_. no_faults) ctx batchSize started fin dbs = Some (None, rep) \<and>
    rp_Mismatches rep = 0 \<and> rp_InitialValueViolations rep = 0"
  unfolding Reconcile_def
  using reconcile_loop_clean [OF X wf K, where lt = "[]" and lc = "[]" and fuel = fuel and ctx = ctx
      and n = "clamp_batch batchSize" and i = 0 and fin = fin and rep = "empty_report started"] fuel
  by (simp add: empty_report_def)


text \<open>The sample database after an increment, the second batch of a reconciliation.\<close>

definition sample_dbs :: "nat \<Rightarrow> database" where
  "sample_dbs k = (if k = 0 then sample_db
     else snd (incrementCounter sample_ext no_faults sample_ctx ''t1'' ''c1'' 5 ''k1'' ''h'' ''p1'' 2000 sample_db))"

theorem reconcile_no_false_alarm_witness:
  "\<exists>rep. Reconcile 2 sample_ext (\<lambda>_. no_faults) sample_ctx 1 5 6 sample_dbs = Some (None, rep) \<and>
    rp_Mismatches rep = 0 \<and> rp_InitialValueViolations rep = 0"
proof (rule reconcile_no_false_alarm [OF sample_ext_laws, where K = "{(''t1'', ''c1'')}"])
  show "wf_database sample_ext (sample_dbs k)" for k
    by (cases "k = 0") (simp_all add: sample_dbs_def sample_wf, code_simp)
  show "reconciliation_key ` set (counters (sample_dbs k)) \<subseteq> {(''t1'', ''c1'')}" for k
    by (cases "k = 0") (simp_all add: sample_dbs_def, code_simp+)
qed simp_all

end
