(* ===== verification/Read_Cache.thy ===== *)
theory Read_Cache
  imports Database Text
begin

text \<open>
  The read cache of \<open>internal/cache/readcache.go\<close>: the per-process LRU cache with its map and its
  doubly linked list, and the Redis cache with its three scripts. The contract both meet is the
  locale \<open>read_cache\<close>, over what a cache holds for a key and until when; the lemmas on histories of
  cache operations are proved once there.
\<close>

text \<open>The key: identifiers are ASCII, on which \<open>strings.ToLower\<close> is \<open>to_lower\<close>.\<close>

definition counterCacheKey :: "string \<Rightarrow> string \<Rightarrow> string" where
  "counterCacheKey tenantID counterID = to_lower tenantID @ [CHR 0x00] @ to_lower counterID"

section \<open>The memory cache\<close>

record read_cache_entry =
  en_key :: string
  en_counter :: counter
  en_expiresAt :: time

text \<open>
  \<open>items\<close> maps a key to an element of the list \<open>lru\<close>. An element is known by its number: the list
  holds the elements from front to back with their entries, \<open>mc_next\<close> is the next unused number.
\<close>

record mem_cache =
  mc_maxSize :: int
  mc_ttl :: duration
  mc_items :: "string \<rightharpoonup> nat"
  mc_lru :: "(nat \<times> read_cache_entry) list"
  mc_next :: nat

definition NewMemoryCounterReadCache :: "int \<Rightarrow> duration \<Rightarrow> go_error + mem_cache" where
  "NewMemoryCounterReadCache maxSize ttl =
     (if maxSize < 1 then Inl (Msg ''counter read cache max size must be positive'')
      else if ttl \<le> 0 then Inl (Msg ''counter read cache TTL must be positive'')
      else Inr \<lparr>mc_maxSize = maxSize, mc_ttl = ttl, mc_items = Map.empty, mc_lru = [], mc_next = 0\<rparr>)"

definition mem_remove :: "nat \<Rightarrow> mem_cache \<Rightarrow> mem_cache" where
  "mem_remove el c =
     (case map_of (mc_lru c) el of
        None \<Rightarrow> c
      | Some entry \<Rightarrow> c\<lparr>mc_items := (mc_items c)(en_key entry := None),
                        mc_lru := filter (\<lambda>p. fst p \<noteq> el) (mc_lru c)\<rparr>)"

definition MoveToFront :: "nat \<Rightarrow> (nat \<times> 'e) list \<Rightarrow> (nat \<times> 'e) list" where
  "MoveToFront el xs = filter (\<lambda>p. fst p = el) xs @ filter (\<lambda>p. fst p \<noteq> el) xs"

definition mem_Get :: "time \<Rightarrow> string \<Rightarrow> string \<Rightarrow> mem_cache \<Rightarrow> counter option \<times> mem_cache" where
  "mem_Get now tenantID counterID c =
     (case mc_items c (counterCacheKey tenantID counterID) of
        None \<Rightarrow> (None, c)
      | Some el \<Rightarrow>
        (case map_of (mc_lru c) el of
           None \<Rightarrow> (None, c)
         | Some entry \<Rightarrow>
           if \<not> now < en_expiresAt entry then (None, mem_remove el c)
           else (Some (en_counter entry), c\<lparr>mc_lru := MoveToFront el (mc_lru c)\<rparr>)))"

text \<open>The loop that evicts from the back while the list is too long.\<close>

function mem_trim :: "mem_cache \<Rightarrow> mem_cache" where
  "mem_trim c =
     (if int (length (mc_lru c)) > mc_maxSize c \<and> mc_lru c \<noteq> []
      then mem_trim (mem_remove (fst (last (mc_lru c))) c) else c)"
  by auto
termination
proof (relation "measure (length o mc_lru)")
  fix c :: mem_cache
  assume "int (length (mc_lru c)) > mc_maxSize c \<and> mc_lru c \<noteq> []"
  then have l: "last (mc_lru c) \<in> set (mc_lru c)" by simp
  then have "map_of (mc_lru c) (fst (last (mc_lru c))) \<noteq> None"
    by (auto simp: map_of_eq_None_iff)
  moreover have "length (filter (\<lambda>p. fst p \<noteq> fst (last (mc_lru c))) (mc_lru c)) < length (mc_lru c)"
    using l by (auto intro: length_filter_less)
  ultimately show "(mem_remove (fst (last (mc_lru c))) c, c) \<in> measure (length o mc_lru)"
    by (auto simp: mem_remove_def)
qed simp

declare mem_trim.simps [simp del]

definition mem_Set :: "time \<Rightarrow> counter \<Rightarrow> mem_cache \<Rightarrow> mem_cache" where
  "mem_Set now x c =
     (let key = counterCacheKey (ctr_tenant_id x) (ctr_id x);
          entry = \<lparr>en_key = key, en_counter = x, en_expiresAt = now + mc_ttl c\<rparr>
      in case mc_items c key of
           Some el \<Rightarrow>
             c\<lparr>mc_lru := MoveToFront el (map (\<lambda>(i, e). (i, if i = el
                 then e\<lparr>en_counter := x, en_expiresAt := now + mc_ttl c\<rparr> else e)) (mc_lru c))\<rparr>
         | None \<Rightarrow>
             mem_trim (c\<lparr>mc_items := (mc_items c)(key \<mapsto> mc_next c),
               mc_lru := (mc_next c, entry) # mc_lru c, mc_next := Suc (mc_next c)\<rparr>))"

definition mem_Delete :: "string \<Rightarrow> string \<Rightarrow> mem_cache \<Rightarrow> mem_cache" where
  "mem_Delete tenantID counterID c =
     (case mc_items c (counterCacheKey tenantID counterID) of
        None \<Rightarrow> c
      | Some el \<Rightarrow> mem_remove el c)"

section \<open>The memory cache refines a list in order of use\<close>

text \<open>
  The specification: the entries from the most to the least recently used, at most one for a key
  and at most \<open>maxSize\<close> of them.
\<close>

type_synonym recency = "(string \<times> counter \<times> time) list"

definition spec_get :: "time \<Rightarrow> string \<Rightarrow> recency \<Rightarrow> counter option \<times> recency" where
  "spec_get now k s =
     (case map_of s k of
        None \<Rightarrow> (None, s)
      | Some (x, e) \<Rightarrow>
        if now < e then (Some x, (k, x, e) # filter (\<lambda>p. fst p \<noteq> k) s)
        else (None, filter (\<lambda>p. fst p \<noteq> k) s))"

definition spec_set :: "nat \<Rightarrow> string \<Rightarrow> counter \<Rightarrow> time \<Rightarrow> recency \<Rightarrow> recency" where
  "spec_set n k x e s = take n ((k, x, e) # filter (\<lambda>p. fst p \<noteq> k) s)"

definition spec_del :: "string \<Rightarrow> recency \<Rightarrow> recency" where
  "spec_del k s = filter (\<lambda>p. fst p \<noteq> k) s"

definition entry_item :: "nat \<times> read_cache_entry \<Rightarrow> string \<times> counter \<times> time" where
  "entry_item p = (en_key (snd p), en_counter (snd p), en_expiresAt (snd p))"

definition mem_abs :: "mem_cache \<Rightarrow> recency" where
  "mem_abs c = map entry_item (mc_lru c)"

text \<open>The map and the list agree; without and with the bound on the size.\<close>

definition mem_links :: "mem_cache \<Rightarrow> bool" where
  "mem_links c \<longleftrightarrow>
     distinct (map fst (mc_lru c)) \<and> distinct (map (\<lambda>p. en_key (snd p)) (mc_lru c)) \<and>
     (\<forall>p \<in> set (mc_lru c). mc_items c (en_key (snd p)) = Some (fst p) \<and> fst p < mc_next c) \<and>
     (\<forall>k i. mc_items c k = Some i \<longrightarrow> (\<exists>e. (i, e) \<in> set (mc_lru c) \<and> en_key e = k))"

definition mem_inv :: "mem_cache \<Rightarrow> bool" where
  "mem_inv c \<longleftrightarrow> mem_links c \<and> 1 \<le> mc_maxSize c \<and> 0 < mc_ttl c \<and> int (length (mc_lru c)) \<le> mc_maxSize c"

lemma mem_inv_new: "NewMemoryCounterReadCache m t = Inr c \<Longrightarrow> mem_inv c \<and> mem_abs c = []"
  by (auto simp: NewMemoryCounterReadCache_def mem_inv_def mem_links_def mem_abs_def split: if_splits)

lemma mem_linksD:
  assumes "mem_links c"
  shows "distinct (map fst (mc_lru c))" "distinct (map (\<lambda>p. en_key (snd p)) (mc_lru c))"
    "p \<in> set (mc_lru c) \<Longrightarrow> mc_items c (en_key (snd p)) = Some (fst p)"
    "p \<in> set (mc_lru c) \<Longrightarrow> fst p < mc_next c"
    "mc_items c k = Some i \<Longrightarrow> \<exists>e. (i, e) \<in> set (mc_lru c) \<and> en_key e = k"
  using assms unfolding mem_links_def by blast+

lemma mem_element:
  assumes "mem_links c" "mc_items c k = Some el"
  obtains e where "(el, e) \<in> set (mc_lru c)" "en_key e = k" "map_of (mc_lru c) el = Some e"
  using mem_linksD(1,5) [OF assms(1)] assms(2) by (metis map_of_eq_Some_iff)

lemma mem_same_element:
  assumes "mem_links c" "mc_items c k = Some el" "p \<in> set (mc_lru c)"
  shows "fst p = el \<longleftrightarrow> en_key (snd p) = k"
proof -
  obtain e where e: "(el, e) \<in> set (mc_lru c)" "en_key e = k" "map_of (mc_lru c) el = Some e"
    by (rule mem_element [OF assms(1,2)])
  have "fst p = el \<Longrightarrow> p = (el, e)"
    using distinct_map_eq [OF mem_linksD(1) [OF assms(1)] assms(3) e(1)] by simp
  moreover have "en_key (snd p) = k \<Longrightarrow> fst p = el"
    using mem_linksD(3) [OF assms(1,3)] assms(2) by simp
  ultimately show ?thesis using e(2) by (metis snd_conv)
qed

lemma filter_single:
  "distinct (map f xs) \<Longrightarrow> x \<in> set xs \<Longrightarrow> filter (\<lambda>y. f y = f x) xs = [x]"
  by (induction xs) (auto simp: filter_empty_conv image_iff)

lemma mem_abs_remove:
  assumes "mem_links c" "mc_items c k = Some el"
  shows "mem_abs (mem_remove el c) = spec_del k (mem_abs c)"
proof -
  obtain e where e: "(el, e) \<in> set (mc_lru c)" "en_key e = k" "map_of (mc_lru c) el = Some e"
    by (rule mem_element [OF assms])
  have "filter (\<lambda>p. fst p \<noteq> el) (mc_lru c) = filter (\<lambda>p. en_key (snd p) \<noteq> k) (mc_lru c)"
    using mem_same_element [OF assms] by (intro filter_cong) auto
  then show ?thesis
    by (simp add: mem_remove_def e mem_abs_def spec_del_def filter_map comp_def entry_item_def)
qed

lemma mem_links_remove:
  assumes "mem_links c"
  shows "mem_links (mem_remove el c)"
proof (cases "map_of (mc_lru c) el")
  case None
  then show ?thesis using assms by (simp add: mem_remove_def)
next
  case (Some e)
  then have e: "(el, e) \<in> set (mc_lru c)" by (rule map_of_SomeD)
  have k: "mc_items c (en_key e) = Some el" using mem_linksD(3) [OF assms e] by simp
  show ?thesis
    unfolding mem_links_def
    using mem_linksD [OF assms] mem_same_element [OF assms k] k
    by (auto simp: mem_remove_def Some distinct_map inj_on_def) (metis fst_conv option.inject)+
qed

lemma mem_remove_same [simp]:
  "mc_maxSize (mem_remove el c) = mc_maxSize c" "mc_ttl (mem_remove el c) = mc_ttl c"
  "length (mc_lru (mem_remove el c)) \<le> length (mc_lru c)"
  by (auto simp: mem_remove_def split: option.splits)

lemma mem_lookup:
  assumes "mem_links c"
  shows "map_of (mem_abs c) k = (case mc_items c k of
      None \<Rightarrow> None
    | Some el \<Rightarrow> map_option (\<lambda>e. (en_counter e, en_expiresAt e)) (map_of (mc_lru c) el))"
proof (cases "mc_items c k")
  case None
  then have "k \<notin> fst ` set (mem_abs c)"
    using mem_linksD(3) [OF assms] by (force simp: mem_abs_def entry_item_def)
  with None show ?thesis by (simp add: map_of_eq_None_iff)
next
  case (Some el)
  obtain e where e: "(el, e) \<in> set (mc_lru c)" "en_key e = k" "map_of (mc_lru c) el = Some e"
    by (rule mem_element [OF assms Some])
  have "distinct (map fst (mem_abs c))"
    using mem_linksD(2) [OF assms] by (simp add: mem_abs_def comp_def entry_item_def)
  moreover have "(k, en_counter e, en_expiresAt e) \<in> set (mem_abs c)"
    using e by (force simp: mem_abs_def entry_item_def)
  ultimately show ?thesis using Some e by simp
qed

lemma mem_abs_front:
  assumes "mem_links c" "mc_items c k = Some el" "map_of (mc_lru c) el = Some e"
  shows "map entry_item (MoveToFront el (mc_lru c)) =
    (k, en_counter e, en_expiresAt e) # filter (\<lambda>p. fst p \<noteq> k) (mem_abs c)"
proof -
  have el: "(el, e) \<in> set (mc_lru c)" using assms(3) by (rule map_of_SomeD)
  have key: "en_key e = k" using mem_same_element [OF assms(1,2) el] by simp
  have "filter (\<lambda>p. fst p = el) (mc_lru c) = [(el, e)]"
    using filter_single [OF mem_linksD(1) [OF assms(1)] el] by simp
  moreover have "filter (\<lambda>p. fst p \<noteq> el) (mc_lru c) = filter (\<lambda>p. en_key (snd p) \<noteq> k) (mc_lru c)"
    using mem_same_element [OF assms(1,2)] by (intro filter_cong) auto
  ultimately show ?thesis
    by (simp add: MoveToFront_def mem_abs_def filter_map comp_def entry_item_def key)
qed

lemma MoveToFront_set: "set (MoveToFront el xs) = set xs"
  by (auto simp: MoveToFront_def)

lemma MoveToFront_distinct: "distinct (map f xs) \<Longrightarrow> distinct (map f (MoveToFront el xs))"
  by (auto simp: MoveToFront_def distinct_map inj_on_def)

lemma MoveToFront_length: "length (MoveToFront el xs) = length xs"
  by (simp add: MoveToFront_def sum_length_filter_compl)

lemma mem_links_front: "mem_links c \<Longrightarrow> mem_links (c\<lparr>mc_lru := MoveToFront el (mc_lru c)\<rparr>)"
  by (simp add: mem_links_def MoveToFront_set MoveToFront_distinct)

text \<open>Eviction.\<close>

lemma mem_remove_last:
  assumes "mem_links c" "mc_lru c \<noteq> []"
  shows "mc_lru (mem_remove (fst (last (mc_lru c))) c) = butlast (mc_lru c)"
proof -
  let ?l = "last (mc_lru c)"
  have split: "mc_lru c = butlast (mc_lru c) @ [?l]" using assms(2) by simp
  have d: "distinct (map fst (butlast (mc_lru c) @ [?l]))" using mem_linksD(1) [OF assms(1)] split by simp
  then have "filter (\<lambda>p. fst p \<noteq> fst ?l) (butlast (mc_lru c) @ [?l]) = butlast (mc_lru c)"
    by (simp add: filter_id_conv image_iff) metis
  moreover have "map_of (mc_lru c) (fst ?l) \<noteq> None"
    using assms(2) by (auto simp: map_of_eq_None_iff)
  ultimately show ?thesis using split by (auto simp: mem_remove_def)
qed

lemma mem_trim_props:
  assumes "mem_links c" "0 \<le> mc_maxSize c"
  shows "mem_links (mem_trim c)" "mc_lru (mem_trim c) = take (nat (mc_maxSize c)) (mc_lru c)"
    "mc_maxSize (mem_trim c) = mc_maxSize c" "mc_ttl (mem_trim c) = mc_ttl c"
  using assms
proof (induction c rule: mem_trim.induct)
  case (1 c)
  let ?c = "mem_remove (fst (last (mc_lru c))) c"
  {
    case 1
    then show ?case using "1.IH"(1) mem_links_remove by (subst mem_trim.simps) auto
  next
    case 2
    show ?case
    proof (cases "int (length (mc_lru c)) > mc_maxSize c \<and> mc_lru c \<noteq> []")
      case True
      then have "take (nat (mc_maxSize c)) (butlast (mc_lru c)) = take (nat (mc_maxSize c)) (mc_lru c)"
        using 2(2) by (intro take_butlast) linarith
      moreover have "mc_lru ?c = butlast (mc_lru c)" using mem_remove_last 2 True by blast
      ultimately show ?thesis
        using "1.IH"(2) [OF True mem_links_remove] 2 True by (subst mem_trim.simps) simp
    next
      case False
      then show ?thesis using 2 by (subst mem_trim.simps) auto
    qed
  next
    case 3
    then show ?case using "1.IH"(3) mem_links_remove by (subst mem_trim.simps) auto
  next
    case 4
    then show ?case using "1.IH"(4) mem_links_remove by (subst mem_trim.simps) auto
  }
qed

lemma filter_absent: "k \<notin> fst ` set s \<Longrightarrow> filter (\<lambda>p. fst p \<noteq> k) s = s"
  by (induction s) auto

lemma mem_inv_links: "mem_inv c \<Longrightarrow> mem_links c"
  by (simp add: mem_inv_def)

text \<open>The three operations, on the specification.\<close>

lemma mem_Get_refines:
  assumes "mem_inv c"
  shows "fst (mem_Get now t i c) = fst (spec_get now (counterCacheKey t i) (mem_abs c))"
    "mem_abs (snd (mem_Get now t i c)) = snd (spec_get now (counterCacheKey t i) (mem_abs c))"
    "mem_inv (snd (mem_Get now t i c))" "mc_maxSize (snd (mem_Get now t i c)) = mc_maxSize c"
    "mc_ttl (snd (mem_Get now t i c)) = mc_ttl c"
proof -
  let ?k = "counterCacheKey t i"
  note L = mem_inv_links [OF assms]
  have "fst (mem_Get now t i c) = fst (spec_get now ?k (mem_abs c)) \<and>
    mem_abs (snd (mem_Get now t i c)) = snd (spec_get now ?k (mem_abs c)) \<and> mem_inv (snd (mem_Get now t i c)) \<and>
    mc_maxSize (snd (mem_Get now t i c)) = mc_maxSize c \<and> mc_ttl (snd (mem_Get now t i c)) = mc_ttl c"
  proof (cases "mc_items c ?k")
    case None
    with assms show ?thesis by (simp add: mem_Get_def spec_get_def mem_lookup [OF L])
  next
    case (Some el)
    obtain e where e: "(el, e) \<in> set (mc_lru c)" "en_key e = ?k" "map_of (mc_lru c) el = Some e"
      by (rule mem_element [OF L Some])
    have look: "map_of (mem_abs c) ?k = Some (en_counter e, en_expiresAt e)"
      by (simp add: mem_lookup [OF L] Some e)
    show ?thesis
    proof (cases "now < en_expiresAt e")
      case True
      have "mem_abs (c\<lparr>mc_lru := MoveToFront el (mc_lru c)\<rparr>) = map entry_item (MoveToFront el (mc_lru c))"
        by (simp add: mem_abs_def)
      with True show ?thesis
        using assms mem_links_front [OF L] mem_abs_front [OF L Some e(3)]
        by (simp add: mem_Get_def spec_get_def Some e look mem_inv_def MoveToFront_length)
    next
      case False
      have "int (length (mc_lru (mem_remove el c))) \<le> mc_maxSize c"
        using assms mem_remove_same(3) [of el c] by (simp add: mem_inv_def del: mem_remove_same(3))
      with False show ?thesis
        using assms mem_links_remove [OF L] mem_abs_remove [OF L Some]
        by (simp add: mem_Get_def spec_get_def Some e look spec_del_def mem_inv_def)
    qed
  qed
  then show "fst (mem_Get now t i c) = fst (spec_get now ?k (mem_abs c))"
    "mem_abs (snd (mem_Get now t i c)) = snd (spec_get now ?k (mem_abs c))"
    "mem_inv (snd (mem_Get now t i c))" "mc_maxSize (snd (mem_Get now t i c)) = mc_maxSize c"
    "mc_ttl (snd (mem_Get now t i c)) = mc_ttl c" by simp_all
qed

lemma mem_Delete_refines:
  assumes "mem_inv c"
  shows "mem_abs (mem_Delete t i c) = spec_del (counterCacheKey t i) (mem_abs c)"
    "mem_inv (mem_Delete t i c)" "mc_maxSize (mem_Delete t i c) = mc_maxSize c"
    "mc_ttl (mem_Delete t i c) = mc_ttl c"
proof -
  let ?k = "counterCacheKey t i"
  note L = mem_inv_links [OF assms]
  have "mem_abs (mem_Delete t i c) = spec_del ?k (mem_abs c) \<and> mem_inv (mem_Delete t i c)"
  proof (cases "mc_items c ?k")
    case None
    then have "?k \<notin> fst ` set (mem_abs c)" using mem_lookup [OF L, of ?k] by (simp add: map_of_eq_None_iff)
    then have "filter (\<lambda>p. fst p \<noteq> ?k) (mem_abs c) = mem_abs c" by (rule filter_absent)
    with None assms show ?thesis by (simp add: mem_Delete_def spec_del_def)
  next
    case (Some el)
    have "int (length (mc_lru (mem_remove el c))) \<le> mc_maxSize c"
      using assms mem_remove_same(3) [of el c] by (simp add: mem_inv_def del: mem_remove_same(3))
    then show ?thesis
      using assms mem_links_remove [OF L] mem_abs_remove [OF L Some] by (simp add: mem_Delete_def Some mem_inv_def)
  qed
  then show "mem_abs (mem_Delete t i c) = spec_del ?k (mem_abs c)" "mem_inv (mem_Delete t i c)" by simp_all
  show "mc_maxSize (mem_Delete t i c) = mc_maxSize c" "mc_ttl (mem_Delete t i c) = mc_ttl c"
    by (simp_all add: mem_Delete_def split: option.splits)
qed

lemma mem_links_push:
  assumes "mem_links c" "mc_items c (en_key entry) = None"
  shows "mem_links (c\<lparr>mc_items := (mc_items c)(en_key entry \<mapsto> mc_next c),
      mc_lru := (mc_next c, entry) # mc_lru c, mc_next := Suc (mc_next c)\<rparr>)"
proof -
  note L = mem_linksD [OF assms(1)]
  have "mc_next c \<notin> fst ` set (mc_lru c)" by (metis L(4) imageE less_irrefl)
  moreover have "en_key entry \<notin> (\<lambda>p. en_key (snd p)) ` set (mc_lru c)" using L(3) assms(2) by force
  ultimately show ?thesis
    unfolding mem_links_def using L by (auto simp: less_Suc_eq image_iff) (metis fst_conv snd_conv)+
qed

lemma mem_links_update:
  assumes "mem_links c" and g: "\<And>p. fst (g p) = fst p" "\<And>p. en_key (snd (g p)) = en_key (snd p)"
  shows "mem_links (c\<lparr>mc_lru := map g (mc_lru c)\<rparr>)"
proof -
  note L = mem_linksD [OF assms(1)]
  have "\<exists>e. (i, e) \<in> set (map g (mc_lru c)) \<and> en_key e = k" if "mc_items c k = Some i" for k i
  proof -
    from L(5) [OF that] obtain e where e: "(i, e) \<in> set (mc_lru c)" "en_key e = k" by blast
    have "g (i, e) = (i, snd (g (i, e)))" using g(1) [of "(i, e)"] by (cases "g (i, e)") simp
    moreover have "g (i, e) \<in> set (map g (mc_lru c))" using e(1) by simp
    moreover have "en_key (snd (g (i, e))) = k" using g(2) [of "(i, e)"] e(2) by simp
    ultimately show ?thesis by metis
  qed
  with L(1-4) show ?thesis by (simp add: mem_links_def comp_def g)
qed

lemma mem_Set_refines:
  assumes "mem_inv c"
  shows "mem_abs (mem_Set now x c) =
      spec_set (nat (mc_maxSize c)) (counterCacheKey (ctr_tenant_id x) (ctr_id x)) x (now + mc_ttl c) (mem_abs c)"
    "mem_inv (mem_Set now x c)" "mc_maxSize (mem_Set now x c) = mc_maxSize c" "mc_ttl (mem_Set now x c) = mc_ttl c"
proof -
  let ?k = "counterCacheKey (ctr_tenant_id x) (ctr_id x)"
  let ?c' = "mem_Set now x c"
  note L = mem_inv_links [OF assms]
  have "mem_abs ?c' = spec_set (nat (mc_maxSize c)) ?k x (now + mc_ttl c) (mem_abs c) \<and> mem_inv ?c' \<and>
    mc_maxSize ?c' = mc_maxSize c \<and> mc_ttl ?c' = mc_ttl c"
  proof (cases "mc_items c ?k")
    case None
    let ?e = "\<lparr>en_key = ?k, en_counter = x, en_expiresAt = now + mc_ttl c\<rparr>"
    let ?p = "c\<lparr>mc_items := (mc_items c)(?k \<mapsto> mc_next c), mc_lru := (mc_next c, ?e) # mc_lru c,
        mc_next := Suc (mc_next c)\<rparr>"
    have "mem_links ?p" using mem_links_push [OF L, of ?e] None by simp
    from mem_trim_props [OF this] assms
    have t: "mem_links (mem_trim ?p)" "mc_lru (mem_trim ?p) = take (nat (mc_maxSize c)) ((mc_next c, ?e) # mc_lru c)"
      "mc_maxSize (mem_trim ?p) = mc_maxSize c" "mc_ttl (mem_trim ?p) = mc_ttl c"
      by (simp_all add: mem_inv_def)
    have "?k \<notin> fst ` set (mem_abs c)" using mem_lookup [OF L, of ?k] None by (simp add: map_of_eq_None_iff)
    then have f: "filter (\<lambda>p. fst p \<noteq> ?k) (mem_abs c) = mem_abs c" by (rule filter_absent)
    have "mem_abs (mem_trim ?p) = take (nat (mc_maxSize c)) (map entry_item ((mc_next c, ?e) # mc_lru c))"
      by (simp only: mem_abs_def t(2) take_map)
    moreover have "map entry_item ((mc_next c, ?e) # mc_lru c) = (?k, x, now + mc_ttl c) # mem_abs c"
      by (simp add: entry_item_def mem_abs_def)
    ultimately have "mem_abs (mem_trim ?p) = spec_set (nat (mc_maxSize c)) ?k x (now + mc_ttl c) (mem_abs c)"
      by (simp add: spec_set_def f)
    moreover have "mem_Set now x c = mem_trim ?p" by (simp add: mem_Set_def None Let_def)
    moreover have "mem_inv (mem_trim ?p)" using t assms by (simp add: mem_inv_def of_nat_min)
    ultimately show ?thesis using t(3,4) by simp
  next
    case (Some el)
    obtain e where e: "(el, e) \<in> set (mc_lru c)" "en_key e = ?k" "map_of (mc_lru c) el = Some e"
      by (rule mem_element [OF L Some])
    let ?upd = "\<lambda>(i, e). (i, if i = el then e\<lparr>en_counter := x, en_expiresAt := now + mc_ttl c\<rparr> else e)"
    let ?d = "c\<lparr>mc_lru := map ?upd (mc_lru c)\<rparr>"
    have keys: "fst (?upd p) = fst p" "en_key (snd (?upd p)) = en_key (snd p)" for p
      by (simp_all split: prod.splits)
    have Ld: "mem_links ?d"
      by (rule mem_links_update [OF L keys])
    have at: "map_of (mc_lru ?d) el = Some (e\<lparr>en_counter := x, en_expiresAt := now + mc_ttl c\<rparr>)"
      using e(1) mem_linksD(1) [OF Ld] by (force simp: image_iff)
    have "filter (\<lambda>p. fst p \<noteq> ?k) (mem_abs ?d) = filter (\<lambda>p. fst p \<noteq> ?k) (mem_abs c)"
    proof -
      have "map entry_item (filter (\<lambda>p. en_key (snd p) \<noteq> ?k) (map ?upd (mc_lru c))) =
          map entry_item (filter (\<lambda>p. en_key (snd p) \<noteq> ?k) (mc_lru c))"
        by (simp add: filter_map comp_def keys) (auto dest: mem_same_element [OF L Some])
      then show ?thesis by (simp add: mem_abs_def filter_map comp_def entry_item_def)
    qed
    with mem_abs_front [OF Ld _ at, of ?k] Some
    have abs: "mem_abs ?c' = (?k, x, now + mc_ttl c) # filter (\<lambda>p. fst p \<noteq> ?k) (mem_abs c)"
      by (simp add: mem_Set_def Let_def mem_abs_def)
    have len: "length (mc_lru ?c') = length (mc_lru c)" by (simp add: mem_Set_def Let_def Some MoveToFront_length)
    have "length (mem_abs ?c') \<le> nat (mc_maxSize c)" using assms len by (simp add: mem_abs_def mem_inv_def le_nat_iff)
    with abs have "mem_abs ?c' = spec_set (nat (mc_maxSize c)) ?k x (now + mc_ttl c) (mem_abs c)"
      by (simp add: spec_set_def)
    moreover have "mem_links ?c'" using mem_links_front [OF Ld] by (simp add: mem_Set_def Let_def Some)
    ultimately show ?thesis using assms len by (simp add: mem_inv_def mem_Set_def Let_def Some)
  qed
  then show "mem_abs ?c' = spec_set (nat (mc_maxSize c)) ?k x (now + mc_ttl c) (mem_abs c)"
    "mem_inv ?c'" "mc_maxSize ?c' = mc_maxSize c" "mc_ttl ?c' = mc_ttl c" by simp_all
qed

section \<open>The Redis cache\<close>

text \<open>
  The keys the scripts use on the server: the cached values with the millisecond after which they
  are gone, and the two sorted sets, a member with its score. A value is the counter that
  \<open>json.Marshal\<close> wrote, or \<open>None\<close> for bytes that do not decode to one.
\<close>

record redis_server =
  rd_values :: "(string \<times> counter option \<times> int) list"
  rd_lru :: "(string \<times> int) list"
  rd_expiry :: "(string \<times> int) list"

definition zrem :: "string \<Rightarrow> (string \<times> 'v) list \<Rightarrow> (string \<times> 'v) list" where
  "zrem k z = filter (\<lambda>p. fst p \<noteq> k) z"

definition zadd :: "string \<Rightarrow> 'v \<Rightarrow> (string \<times> 'v) list \<Rightarrow> (string \<times> 'v) list" where
  "zadd k score z = (k, score) # zrem k z"

definition zpopmin :: "(string \<times> int) list \<Rightarrow> string \<times> (string \<times> int) list" where
  "zpopmin z = (let m = hd (sort_key (\<lambda>p. (snd p, fst p)) z) in (fst m, zrem (fst m) z))"

text \<open>\<open>GET\<close> at a server time in microseconds: a key with an expiry is gone once its millisecond is past.\<close>

definition redis_GET :: "int \<Rightarrow> string \<Rightarrow> redis_server \<Rightarrow> counter option option" where
  "redis_GET now_us k srv =
     (case map_of (rd_values srv) k of
        None \<Rightarrow> None
      | Some (v, when_ms) \<Rightarrow> if now_us div 1000 > when_ms then None else Some v)"

definition get_script :: "int \<Rightarrow> string \<Rightarrow> redis_server \<Rightarrow> counter option option \<times> redis_server" where
  "get_script now_us k srv =
     (case redis_GET now_us k srv of
        None \<Rightarrow> (None, srv\<lparr>rd_lru := zrem k (rd_lru srv), rd_expiry := zrem k (rd_expiry srv)\<rparr>)
      | Some v \<Rightarrow> (Some v, srv\<lparr>rd_lru := zadd k now_us (rd_lru srv)\<rparr>))"

text \<open>The loop over the expired keys: \<open>DEL\<close> and \<open>ZREM KEYS[2]\<close> for each.\<close>

fun drop_expired :: "string list \<Rightarrow> redis_server \<Rightarrow> redis_server" where
  "drop_expired [] srv = srv"
| "drop_expired (k # ks) srv =
     drop_expired ks (srv\<lparr>rd_values := zrem k (rd_values srv), rd_lru := zrem k (rd_lru srv)\<rparr>)"

text \<open>The loop that evicts the least recently used keys.\<close>

lemma zpopmin_shorter: "z \<noteq> [] \<Longrightarrow> length (snd (zpopmin z)) < length z"
proof -
  assume z: "z \<noteq> []"
  let ?m = "hd (sort_key (\<lambda>p. (snd p, fst p)) z)"
  have "sort_key (\<lambda>p. (snd p, fst p)) z \<noteq> []" using z by (metis length_0_conv length_sort)
  then have "?m \<in> set z" using hd_in_set by fastforce
  then show ?thesis by (auto simp: zpopmin_def Let_def zrem_def intro: length_filter_less)
qed

function evict :: "int \<Rightarrow> redis_server \<Rightarrow> redis_server" where
  "evict max_entries srv =
     (if int (length (rd_lru srv)) > max_entries \<and> rd_lru srv \<noteq> []
      then (let (k, z) = zpopmin (rd_lru srv)
            in evict max_entries (srv\<lparr>rd_lru := z, rd_values := zrem k (rd_values srv),
                 rd_expiry := zrem k (rd_expiry srv)\<rparr>))
      else srv)"
  by auto
termination
proof (relation "measure (\<lambda>(_, srv). length (rd_lru srv))")
  fix max_entries :: int and srv :: redis_server and p k z
  assume h: "int (length (rd_lru srv)) > max_entries \<and> rd_lru srv \<noteq> []" "p = zpopmin (rd_lru srv)" "(k, z) = p"
  then have "z = snd (zpopmin (rd_lru srv))" by (metis snd_conv)
  with h zpopmin_shorter [of "rd_lru srv"]
  show "((max_entries, srv\<lparr>rd_lru := z, rd_values := zrem k (rd_values srv),
      rd_expiry := zrem k (rd_expiry srv)\<rparr>), max_entries, srv) \<in> measure (\<lambda>(_, srv). length (rd_lru srv))"
    by simp
qed simp

declare evict.simps [simp del]

definition set_script ::
  "int \<Rightarrow> string \<Rightarrow> counter option \<Rightarrow> int \<Rightarrow> int \<Rightarrow> redis_server \<Rightarrow> redis_server" where
  "set_script now_us k v ttl_ms max_entries srv =
     (let expired = map fst (filter (\<lambda>p. snd p \<le> now_us) (rd_expiry srv));
          srv1 = drop_expired expired srv;
          srv2 = srv1\<lparr>rd_values := zadd k (v, now_us div 1000 + ttl_ms) (rd_values srv1),
                      rd_lru := zadd k now_us (rd_lru srv1),
                      rd_expiry := zadd k (now_us + ttl_ms * 1000) (rd_expiry srv1)\<rparr>
      in evict max_entries srv2)"

definition delete_script :: "string \<Rightarrow> redis_server \<Rightarrow> redis_server" where
  "delete_script k srv = srv\<lparr>rd_values := zrem k (rd_values srv), rd_lru := zrem k (rd_lru srv),
     rd_expiry := zrem k (rd_expiry srv)\<rparr>"

text \<open>
  The client: the time until which Redis is left alone, and the answer of each call. A call that
  fails may or may not have run on the server.
\<close>

record redis_cache =
  rcc_maxSize :: int
  rcc_ttl :: duration
  rcc_unavailableTil :: time
  rcc_server :: redis_server

datatype redis_answer = RedisOK | RedisFailed bool

record redis_env =
  rv_now :: time
  rv_server_us :: int
  rv_answer :: redis_answer

definition redisReadCachePrefix :: string where
  "redisReadCachePrefix = ''counter:read-cache:v1:''"

definition redisKey :: "externals \<Rightarrow> string \<Rightarrow> string \<Rightarrow> string" where
  "redisKey X tenantID counterID =
     redisReadCachePrefix @ hex_EncodeToString (sha256 X (counterCacheKey tenantID counterID))"

definition available :: "redis_env \<Rightarrow> redis_cache \<Rightarrow> bool" where
  "available e c \<longleftrightarrow> \<not> rcc_unavailableTil c > rv_now e"

definition markUnavailable :: "redis_env \<Rightarrow> redis_cache \<Rightarrow> redis_cache" where
  "markUnavailable e c = c\<lparr>rcc_unavailableTil := rv_now e + time_Second\<rparr>"

definition redis_Delete :: "externals \<Rightarrow> redis_env \<Rightarrow> string \<Rightarrow> string \<Rightarrow> redis_cache \<Rightarrow> bool \<times> redis_cache" where
  "redis_Delete X e tenantID counterID c =
     (if \<not> available e c then (False, c)
      else (let k = redisKey X tenantID counterID; ran = c\<lparr>rcc_server := delete_script k (rcc_server c)\<rparr>
            in case rv_answer e of
                 RedisOK \<Rightarrow> (True, ran\<lparr>rcc_unavailableTil := 0\<rparr>)
               | RedisFailed done \<Rightarrow> (False, markUnavailable e (if done then ran else c))))"

definition redis_Get ::
  "externals \<Rightarrow> redis_env \<Rightarrow> string \<Rightarrow> string \<Rightarrow> redis_cache \<Rightarrow> counter option \<times> redis_cache" where
  "redis_Get X e tenantID counterID c =
     (if \<not> available e c then (None, c)
      else (let k = redisKey X tenantID counterID; (v, srv) = get_script (rv_server_us e) k (rcc_server c);
                ran = c\<lparr>rcc_server := srv\<rparr>
            in case rv_answer e of
                 RedisFailed done \<Rightarrow> (None, markUnavailable e (if done then ran else c))
               | RedisOK \<Rightarrow>
                 (case v of
                    None \<Rightarrow> (None, ran)
                  | Some None \<Rightarrow> (None, snd (redis_Delete X e tenantID counterID ran))
                  | Some (Some x) \<Rightarrow> (Some x, ran))))"

definition ttl_milliseconds :: "redis_cache \<Rightarrow> int" where
  "ttl_milliseconds c = (let ms = go_div (rcc_ttl c) time_Millisecond in if ms < 1 then 1 else ms)"

definition redis_Set :: "externals \<Rightarrow> redis_env \<Rightarrow> counter \<Rightarrow> redis_cache \<Rightarrow> bool \<times> redis_cache" where
  "redis_Set X e x c =
     (if \<not> available e c then (False, c)
      else (let k = redisKey X (ctr_tenant_id x) (ctr_id x);
                ran = c\<lparr>rcc_server := set_script (rv_server_us e) k (Some x) (ttl_milliseconds c)
                  (rcc_maxSize c) (rcc_server c)\<rparr>
            in case rv_answer e of
                 RedisOK \<Rightarrow> (True, ran\<lparr>rcc_unavailableTil := 0\<rparr>)
               | RedisFailed done \<Rightarrow> (False, markUnavailable e (if done then ran else c))))"

section \<open>The contract of a read cache\<close>

lemma map_leD: "m \<subseteq>\<^sub>m n \<Longrightarrow> m k = Some v \<Longrightarrow> n k = Some v"
  by (metis domI map_le_def)

text \<open>
  \<open>contents s k\<close> is what the cache holds for a key and the first moment it no longer counts. A
  \<open>'e\<close> carries the time of an operation and whatever else decides its outcome.
\<close>

datatype 'e cache_op = OpGet 'e string string | OpSet 'e counter | OpDelete 'e string string

fun cache_step ::
  "('e \<Rightarrow> string \<Rightarrow> string \<Rightarrow> 's \<Rightarrow> counter option \<times> 's) \<Rightarrow> ('e \<Rightarrow> counter \<Rightarrow> 's \<Rightarrow> bool \<times> 's) \<Rightarrow>
   ('e \<Rightarrow> string \<Rightarrow> string \<Rightarrow> 's \<Rightarrow> bool \<times> 's) \<Rightarrow> 'e cache_op \<Rightarrow> 's \<Rightarrow> 's" where
  "cache_step cget cset cdel (OpGet e t i) s = snd (cget e t i s)"
| "cache_step cget cset cdel (OpSet e x) s = snd (cset e x s)"
| "cache_step cget cset cdel (OpDelete e t i) s = snd (cdel e t i s)"

locale read_cache =
  fixes inv :: "'s \<Rightarrow> bool"
    and contents :: "'s \<Rightarrow> string \<rightharpoonup> (counter \<times> int)"
    and lifetime :: "'s \<Rightarrow> int"
    and clock :: "'e \<Rightarrow> int"
    and ckey :: "string \<Rightarrow> string \<Rightarrow> string"
    and cget :: "'e \<Rightarrow> string \<Rightarrow> string \<Rightarrow> 's \<Rightarrow> counter option \<times> 's"
    and cset :: "'e \<Rightarrow> counter \<Rightarrow> 's \<Rightarrow> bool \<times> 's"
    and cdel :: "'e \<Rightarrow> string \<Rightarrow> string \<Rightarrow> 's \<Rightarrow> bool \<times> 's"
  assumes get_inv: "inv s \<Longrightarrow> inv (snd (cget e t i s))"
    and set_inv: "inv s \<Longrightarrow> inv (snd (cset e x s))"
    and del_inv: "inv s \<Longrightarrow> inv (snd (cdel e t i s))"
    and get_lifetime: "inv s \<Longrightarrow> lifetime (snd (cget e t i s)) = lifetime s"
    and set_lifetime: "inv s \<Longrightarrow> lifetime (snd (cset e x s)) = lifetime s"
    and del_lifetime: "inv s \<Longrightarrow> lifetime (snd (cdel e t i s)) = lifetime s"
    and get_hit: "inv s \<Longrightarrow> fst (cget e t i s) = Some x \<Longrightarrow>
      \<exists>until. contents s (ckey t i) = Some (x, until) \<and> clock e < until"
    and get_contents: "inv s \<Longrightarrow> contents (snd (cget e t i s)) \<subseteq>\<^sub>m contents s"
    and set_contents: "inv s \<Longrightarrow> contents (snd (cset e x s)) \<subseteq>\<^sub>m contents s \<or>
      contents (snd (cset e x s)) \<subseteq>\<^sub>m (contents s)(ckey (ctr_tenant_id x) (ctr_id x) \<mapsto> (x, clock e + lifetime s))"
    and del_contents: "inv s \<Longrightarrow> contents (snd (cdel e t i s)) \<subseteq>\<^sub>m contents s"
    and del_done: "inv s \<Longrightarrow> fst (cdel e t i s) \<Longrightarrow> contents (snd (cdel e t i s)) (ckey t i) = None"
begin

abbreviation step :: "'e cache_op \<Rightarrow> 's \<Rightarrow> 's" where
  "step \<equiv> cache_step cget cset cdel"

lemma step_inv: "inv s \<Longrightarrow> inv (step op s) \<and> lifetime (step op s) = lifetime s"
  by (cases op) (simp_all add: get_inv set_inv del_inv get_lifetime set_lifetime del_lifetime)

lemma run_inv: "inv s \<Longrightarrow> inv (fold step ops s) \<and> lifetime (fold step ops s) = lifetime s"
  by (induction ops arbitrary: s) (simp_all add: step_inv)

text \<open>Whatever the cache holds was put there, and not longer ago than its lifetime.\<close>

lemma step_contents:
  assumes "inv s" "contents (step op s) k = Some (x, until)"
  shows "contents s k = Some (x, until) \<or>
    (\<exists>e. op = OpSet e x \<and> ckey (ctr_tenant_id x) (ctr_id x) = k \<and> until = clock e + lifetime s)"
proof (cases op)
  case (OpSet e y)
  from set_contents [OF assms(1), of e y] show ?thesis
  proof
    assume "contents (snd (cset e y s)) \<subseteq>\<^sub>m (contents s)(ckey (ctr_tenant_id y) (ctr_id y) \<mapsto> (y, clock e + lifetime s))"
    then have "((contents s)(ckey (ctr_tenant_id y) (ctr_id y) \<mapsto> (y, clock e + lifetime s))) k = Some (x, until)"
      using assms(2) OpSet by (auto simp: map_le_def dom_def)
    then show ?thesis using OpSet by (auto split: if_splits)
  qed (use assms(2) OpSet in \<open>auto simp: map_le_def dom_def\<close>)
next
  case (OpGet e t i)
  with get_contents [OF assms(1), of e t i] assms(2) show ?thesis by (auto simp: map_le_def dom_def)
next
  case (OpDelete e t i)
  with del_contents [OF assms(1), of e t i] assms(2) show ?thesis by (auto simp: map_le_def dom_def)
qed

lemma run_contents:
  assumes "inv s" "contents s = Map.empty" "contents (fold step ops s) k = Some (x, until)"
  shows "\<exists>pre e post. ops = pre @ OpSet e x # post \<and> ckey (ctr_tenant_id x) (ctr_id x) = k \<and>
    until = clock e + lifetime s"
  using assms(3)
proof (induction ops rule: rev_induct)
  case Nil
  with assms(2) show ?case by simp
next
  case (snoc op ops)
  note r = run_inv [OF assms(1), of ops]
  from step_contents [of "fold step ops s" op k x until] snoc.prems r
  consider "contents (fold step ops s) k = Some (x, until)"
    | e where "op = OpSet e x" "ckey (ctr_tenant_id x) (ctr_id x) = k" "until = clock e + lifetime s" by auto
  then show ?case
  proof cases
    case 1
    from snoc.IH [OF this] obtain pre e post where
      "ops = pre @ OpSet e x # post" "ckey (ctr_tenant_id x) (ctr_id x) = k" "until = clock e + lifetime s" by blast
    then have "ops @ [op] = pre @ OpSet e x # (post @ [op])" by simp
    with \<open>ckey _ _ = k\<close> \<open>until = _\<close> show ?thesis by blast
  next
    case 2
    then show ?thesis by blast
  qed
qed

lemma hit_was_set:
  assumes "inv s" "contents s = Map.empty" "fst (cget e t i (fold step ops s)) = Some x"
  shows "\<exists>pre at post. ops = pre @ OpSet at x # post \<and> ckey (ctr_tenant_id x) (ctr_id x) = ckey t i \<and>
    clock e < clock at + lifetime s"
  using get_hit [OF _ assms(3)] run_inv [OF assms(1), of ops] run_contents [OF assms(1,2), of ops "ckey t i" x]
  by metis

end

text \<open>A cache whose operations always take effect: a hit is what was last put under the key.\<close>

fun overwrites :: "(string \<Rightarrow> string \<Rightarrow> string) \<Rightarrow> string \<Rightarrow> 'e cache_op \<Rightarrow> bool" where
  "overwrites ckey k (OpGet e t i) = False"
| "overwrites ckey k (OpSet e y) = (ckey (ctr_tenant_id y) (ctr_id y) = k)"
| "overwrites ckey k (OpDelete e t i) = (ckey t i = k)"

locale reliable_cache = read_cache +
  assumes set_takes: "inv s \<Longrightarrow> contents (snd (cset e x s)) \<subseteq>\<^sub>m
      (contents s)(ckey (ctr_tenant_id x) (ctr_id x) \<mapsto> (x, clock e + lifetime s))"
    and del_takes: "inv s \<Longrightarrow> fst (cdel e t i s)"
begin

lemma step_latest:
  assumes "inv s" "contents (step op s) k = Some (x, until)" "overwrites ckey k op"
  shows "\<exists>e. op = OpSet e x \<and> until = clock e + lifetime s"
proof (cases op)
  case (OpSet e y)
  with map_leD [OF set_takes [OF assms(1), of e y], of k] assms(2,3) show ?thesis by simp
next
  case (OpDelete e t i)
  with del_done [OF assms(1) del_takes [OF assms(1)], of e t i] assms(2,3) show ?thesis by simp
qed (use assms(3) in simp)

lemma run_latest:
  assumes "inv s" "contents s = Map.empty" "contents (fold step ops s) k = Some (x, until)"
  shows "\<exists>pre e post. ops = pre @ OpSet e x # post \<and> ckey (ctr_tenant_id x) (ctr_id x) = k \<and>
    until = clock e + lifetime s \<and> (\<forall>op \<in> set post. \<not> overwrites ckey k op)"
  using assms(3)
proof (induction ops rule: rev_induct)
  case Nil
  with assms(2) show ?case by simp
next
  case (snoc op ops)
  note r = run_inv [OF assms(1), of ops]
  show ?case
  proof (cases "overwrites ckey k op")
    case True
    with step_latest [of "fold step ops s" op k x until] snoc.prems r
    obtain e where "op = OpSet e x" "until = clock e + lifetime s" by auto
    then have "ops @ [op] = ops @ OpSet e x # []" "ckey (ctr_tenant_id x) (ctr_id x) = k" using True by simp_all
    with \<open>until = _\<close> show ?thesis by (metis empty_iff empty_set)
  next
    case False
    with step_contents [of "fold step ops s" op k x until] snoc.prems r
    have "contents (fold step ops s) k = Some (x, until)" by auto
    from snoc.IH [OF this] obtain pre e post where p: "ops = pre @ OpSet e x # post"
      "ckey (ctr_tenant_id x) (ctr_id x) = k" "until = clock e + lifetime s"
      "\<forall>op \<in> set post. \<not> overwrites ckey k op" by blast
    then have "ops @ [op] = pre @ OpSet e x # (post @ [op])" "\<forall>o' \<in> set (post @ [op]). \<not> overwrites ckey k o'"
      using False by auto
    with p show ?thesis by blast
  qed
qed

lemma hit_is_latest:
  assumes "inv s" "contents s = Map.empty" "fst (cget e t i (fold step ops s)) = Some x"
  shows "\<exists>pre at post. ops = pre @ OpSet at x # post \<and> ckey (ctr_tenant_id x) (ctr_id x) = ckey t i \<and>
    clock e < clock at + lifetime s \<and> (\<forall>op \<in> set post. \<not> overwrites ckey (ckey t i) op)"
  using get_hit [OF _ assms(3)] run_inv [OF assms(1), of ops] run_latest [OF assms(1,2), of ops "ckey t i" x]
  by metis

end

section \<open>Both caches meet the contract\<close>

text \<open>The methods of the memory cache with their nil errors.\<close>

definition mem_set_op :: "time \<Rightarrow> counter \<Rightarrow> mem_cache \<Rightarrow> bool \<times> mem_cache" where
  "mem_set_op now x c = (True, mem_Set now x c)"

definition mem_delete_op :: "time \<Rightarrow> string \<Rightarrow> string \<Rightarrow> mem_cache \<Rightarrow> bool \<times> mem_cache" where
  "mem_delete_op now t i c = (True, mem_Delete t i c)"

definition mem_contents :: "mem_cache \<Rightarrow> string \<rightharpoonup> (counter \<times> int)" where
  "mem_contents c = map_of (mem_abs c)"

lemma map_of_filter_key: "map_of (filter (\<lambda>p. fst p \<noteq> k) s) = (map_of s)(k := None)"
  by (induction s) (auto simp: fun_eq_iff)

lemma map_of_take_le: "distinct (map fst s) \<Longrightarrow> map_of (take n s) \<subseteq>\<^sub>m map_of s"
  by (simp add: map_le_def dom_def) (metis in_set_takeD map_of_SomeD map_of_is_SomeI)

lemma mem_abs_distinct: "mem_inv c \<Longrightarrow> distinct (map fst (mem_abs c))"
  using mem_linksD(2) [OF mem_inv_links] by (simp add: mem_abs_def comp_def entry_item_def)

lemma mem_get_contents:
  assumes "mem_inv c"
  shows "mem_contents (snd (mem_Get now t i c)) \<subseteq>\<^sub>m mem_contents c"
  unfolding mem_contents_def mem_Get_refines(2) [OF assms]
  by (auto simp: spec_get_def map_of_filter_key map_le_def split: option.splits)

lemma mem_set_contents:
  assumes "mem_inv c"
  shows "mem_contents (mem_Set now x c) \<subseteq>\<^sub>m
    (mem_contents c)(counterCacheKey (ctr_tenant_id x) (ctr_id x) \<mapsto> (x, now + mc_ttl c))"
proof -
  let ?k = "counterCacheKey (ctr_tenant_id x) (ctr_id x)"
  let ?s = "(?k, x, now + mc_ttl c) # filter (\<lambda>p. fst p \<noteq> ?k) (mem_abs c)"
  have "distinct (map fst ?s)" using mem_abs_distinct [OF assms] by (auto simp: distinct_map inj_on_def)
  then have "mem_contents (mem_Set now x c) \<subseteq>\<^sub>m map_of ?s"
    unfolding mem_contents_def mem_Set_refines(1) [OF assms] spec_set_def by (rule map_of_take_le)
  moreover have "map_of ?s = (mem_contents c)(?k \<mapsto> (x, now + mc_ttl c))"
    by (simp add: mem_contents_def map_of_filter_key)
  ultimately show ?thesis by simp
qed

lemma mem_del_contents:
  assumes "mem_inv c"
  shows "mem_contents (mem_Delete t i c) = (mem_contents c)(counterCacheKey t i := None)"
  by (simp add: mem_contents_def mem_Delete_refines(1) [OF assms] spec_del_def map_of_filter_key)

lemma mem_del_le: "mem_inv c \<Longrightarrow> mem_contents (mem_Delete t i c) \<subseteq>\<^sub>m mem_contents c"
  by (simp add: mem_del_contents map_le_def)

interpretation memory: reliable_cache mem_inv mem_contents mc_ttl "\<lambda>now. now" counterCacheKey
  mem_Get mem_set_op mem_delete_op
proof
  show "\<exists>until. mem_contents c (counterCacheKey t i) = Some (x, until) \<and> now < until"
    if "mem_inv c" "fst (mem_Get now t i c) = Some x" for c now t i x
    using that mem_Get_refines(1) [OF that(1), of now t i]
    by (auto simp: mem_contents_def spec_get_def split: option.splits if_splits)
qed (auto simp: mem_set_op_def mem_delete_op_def mem_Get_refines mem_Set_refines(2-) mem_Delete_refines(2-)
      mem_get_contents mem_set_contents mem_del_le mem_del_contents)

text \<open>Redis.\<close>

definition redis_contents :: "redis_cache \<Rightarrow> string \<rightharpoonup> (counter \<times> int)" where
  "redis_contents c k =
     (case map_of (rd_values (rcc_server c)) k of
        Some (Some x, when_ms) \<Rightarrow> Some (x, when_ms + 1)
      | _ \<Rightarrow> None)"

lemma map_of_zrem: "map_of (zrem k z) = (map_of z)(k := None)"
  by (simp add: zrem_def map_of_filter_key)

lemma drop_expired_values: "map_of (rd_values (drop_expired ks srv)) \<subseteq>\<^sub>m map_of (rd_values srv)"
proof (induction ks srv rule: drop_expired.induct)
  case (2 k ks srv)
  have "map_of (zrem k (rd_values srv)) \<subseteq>\<^sub>m map_of (rd_values srv)" by (simp add: map_of_zrem map_le_def)
  with 2 show ?case by (auto intro: map_le_trans)
qed simp

lemma evict_values: "map_of (rd_values (evict m srv)) \<subseteq>\<^sub>m map_of (rd_values srv)"
proof (induction m srv rule: evict.induct)
  case (1 m srv)
  show ?case
  proof (cases "int (length (rd_lru srv)) > m \<and> rd_lru srv \<noteq> []")
    case True
    obtain k z where kz: "zpopmin (rd_lru srv) = (k, z)" by (cases "zpopmin (rd_lru srv)")
    have "map_of (zrem k (rd_values srv)) \<subseteq>\<^sub>m map_of (rd_values srv)" by (simp add: map_of_zrem map_le_def)
    with "1.IH" [OF True kz [symmetric] refl] True kz show ?thesis
      by (subst evict.simps) (auto intro: map_le_trans)
  next
    case False
    then have "evict m srv = srv" by (subst evict.simps) auto
    then show ?thesis by simp
  qed
qed

lemma set_script_values:
  "map_of (rd_values (set_script now k v ttl m srv)) \<subseteq>\<^sub>m
     (map_of (rd_values srv))(k \<mapsto> (v, now div 1000 + ttl))"
proof -
  let ?srv1 = "drop_expired (map fst (filter (\<lambda>p. snd p \<le> now) (rd_expiry srv))) srv"
  have "map_of (zadd k (v, now div 1000 + ttl) (rd_values ?srv1)) \<subseteq>\<^sub>m
      (map_of (rd_values srv))(k \<mapsto> (v, now div 1000 + ttl))"
    using drop_expired_values [of "map fst (filter (\<lambda>p. snd p \<le> now) (rd_expiry srv))" srv]
    by (auto simp: zadd_def map_of_zrem map_le_def)
  then show ?thesis
    unfolding set_script_def Let_def by (intro map_le_trans [OF evict_values]) simp
qed

lemma redis_contents_mono:
  assumes "map_of (rd_values (rcc_server c)) \<subseteq>\<^sub>m map_of (rd_values (rcc_server d))"
  shows "redis_contents c \<subseteq>\<^sub>m redis_contents d"
  using assms by (force simp: redis_contents_def map_le_def dom_def split: option.splits)

lemma get_script_values: "rd_values (snd (get_script now k srv)) = rd_values srv"
  by (simp add: get_script_def split: option.splits)

lemma redis_del_contents: "redis_contents (snd (redis_Delete X e t i c)) \<subseteq>\<^sub>m redis_contents c"
  by (rule redis_contents_mono)
    (simp add: redis_Delete_def delete_script_def markUnavailable_def Let_def map_of_zrem map_le_def
      split: redis_answer.splits)

lemma redis_get_contents: "redis_contents (snd (redis_Get X e t i c)) \<subseteq>\<^sub>m redis_contents c"
proof -
  obtain v srv where g: "get_script (rv_server_us e) (redisKey X t i) (rcc_server c) = (v, srv)"
    by (cases "get_script (rv_server_us e) (redisKey X t i) (rcc_server c)")
  have "rd_values srv = rd_values (rcc_server c)" using get_script_values [of "rv_server_us e" "redisKey X t i" "rcc_server c"] g by simp
  then have ran: "redis_contents (c\<lparr>rcc_server := srv\<rparr>) = redis_contents c"
    by (simp add: redis_contents_def fun_eq_iff)
  have mark: "redis_contents (markUnavailable e d) = redis_contents d" for d
    by (simp add: markUnavailable_def redis_contents_def fun_eq_iff)
  show ?thesis
    using redis_del_contents [of X e t i "c\<lparr>rcc_server := srv\<rparr>"] ran mark
    by (auto simp: redis_Get_def g Let_def map_le_refl split: redis_answer.splits option.splits)
qed

lemma redis_set_contents:
  "redis_contents (snd (redis_Set X e x c)) \<subseteq>\<^sub>m redis_contents c \<or>
   redis_contents (snd (redis_Set X e x c)) \<subseteq>\<^sub>m (redis_contents c)(redisKey X (ctr_tenant_id x) (ctr_id x) \<mapsto>
      (x, rv_server_us e div 1000 + (ttl_milliseconds c + 1)))"
proof -
  let ?k = "redisKey X (ctr_tenant_id x) (ctr_id x)"
  let ?srv = "set_script (rv_server_us e) ?k (Some x) (ttl_milliseconds c) (rcc_maxSize c) (rcc_server c)"
  have "redis_contents (c\<lparr>rcc_server := ?srv\<rparr>) \<subseteq>\<^sub>m
      (redis_contents c)(?k \<mapsto> (x, rv_server_us e div 1000 + (ttl_milliseconds c + 1)))"
    using set_script_values [of "rv_server_us e" ?k "Some x" "ttl_milliseconds c" "rcc_maxSize c" "rcc_server c"]
    by (force simp: redis_contents_def map_le_def dom_def split: option.splits if_splits)
  moreover have "redis_contents (d\<lparr>rcc_unavailableTil := u\<rparr>) = redis_contents d" for d u
    by (simp add: redis_contents_def fun_eq_iff)
  ultimately show ?thesis
    by (auto simp: redis_Set_def Let_def markUnavailable_def map_le_refl split: redis_answer.splits)
qed

interpretation redis: read_cache "\<lambda>_. True" redis_contents "\<lambda>c. ttl_milliseconds c + 1"
  "\<lambda>e. rv_server_us e div 1000" "redisKey X" "redis_Get X" "redis_Set X" "redis_Delete X" for X
proof
  have keep: "ttl_milliseconds (markUnavailable e c) = ttl_milliseconds c"
    "ttl_milliseconds (c\<lparr>rcc_server := s\<rparr>) = ttl_milliseconds c"
    "ttl_milliseconds (c\<lparr>rcc_unavailableTil := u\<rparr>) = ttl_milliseconds c" for e c s u
    by (simp_all add: ttl_milliseconds_def markUnavailable_def)
  have del: "ttl_milliseconds (snd (redis_Delete X e t i c)) = ttl_milliseconds c" for e t i c
    by (simp add: redis_Delete_def Let_def keep split: redis_answer.splits)
  then show "ttl_milliseconds (snd (redis_Delete X e t i c)) + 1 = ttl_milliseconds c + 1" for e t i c by simp
  show "ttl_milliseconds (snd (redis_Get X e t i c)) + 1 = ttl_milliseconds c + 1" for e t i c
    by (simp add: redis_Get_def Let_def keep del split: redis_answer.splits option.splits prod.splits)
  show "ttl_milliseconds (snd (redis_Set X e x c)) + 1 = ttl_milliseconds c + 1" for e x c
    by (simp add: redis_Set_def Let_def keep split: redis_answer.splits)
  show "\<exists>until. redis_contents c (redisKey X t i) = Some (x, until) \<and> rv_server_us e div 1000 < until"
    if "fst (redis_Get X e t i c) = Some x" for c e t i x
    using that
    by (auto simp: redis_Get_def Let_def get_script_def redis_GET_def redis_contents_def
        split: if_splits redis_answer.splits option.splits prod.splits)
  show "redis_contents (snd (redis_Delete X e t i c)) (redisKey X t i) = None" if "fst (redis_Delete X e t i c)" for e t i c
    using that by (auto simp: redis_Delete_def Let_def delete_script_def redis_contents_def map_of_zrem
        split: if_splits redis_answer.splits)
qed (use redis_get_contents redis_set_contents redis_del_contents in auto)

section \<open>What the program gets from its caches\<close>

abbreviation mem_step :: "time cache_op \<Rightarrow> mem_cache \<Rightarrow> mem_cache" where
  "mem_step \<equiv> cache_step mem_Get mem_set_op mem_delete_op"

abbreviation redis_step :: "externals \<Rightarrow> redis_env cache_op \<Rightarrow> redis_cache \<Rightarrow> redis_cache" where
  "redis_step X \<equiv> cache_step (redis_Get X) (redis_Set X) (redis_Delete X)"

text \<open>
  C19. The memory cache implements the recency list: after any history of operations on a new cache
  a get, a set and a delete answer and change it the way the specification does, and it never holds
  more than \<open>maxSize\<close> entries nor two for one counter.
\<close>

theorem mem_cache_refines:
  assumes new: "NewMemoryCounterReadCache maxSize ttl = Inr c0" and c: "c = fold mem_step ops c0"
  shows "fst (mem_Get now t i c) = fst (spec_get now (counterCacheKey t i) (mem_abs c)) \<and>
    mem_abs (snd (mem_Get now t i c)) = snd (spec_get now (counterCacheKey t i) (mem_abs c)) \<and>
    mem_abs (mem_Set now x c) =
      spec_set (nat maxSize) (counterCacheKey (ctr_tenant_id x) (ctr_id x)) x (now + ttl) (mem_abs c) \<and>
    mem_abs (mem_Delete t i c) = spec_del (counterCacheKey t i) (mem_abs c) \<and>
    int (length (mem_abs c)) \<le> maxSize \<and> distinct (map fst (mem_abs c))"
proof -
  have inv0: "mem_inv c0" using mem_inv_new [OF new] by simp
  from new have size0: "mc_maxSize c0 = maxSize" "mc_ttl c0 = ttl"
    by (auto simp: NewMemoryCounterReadCache_def split: if_splits)
  have inv: "mem_inv c" "mc_ttl c = ttl" using memory.run_inv [OF inv0, of ops] size0 c by simp_all
  have "mem_inv s \<Longrightarrow> mc_maxSize (mem_step op s) = mc_maxSize s" for op s
    by (cases op) (simp_all add: mem_Get_refines(4) mem_Set_refines(3) mem_Delete_refines(3) mem_set_op_def mem_delete_op_def)
  then have "mem_inv s \<Longrightarrow> mc_maxSize (fold mem_step ops s) = mc_maxSize s" for s
    by (induction ops arbitrary: s) (simp_all add: memory.step_inv)
  with inv0 size0 c have size: "mc_maxSize c = maxSize" by simp
  have "int (length (mem_abs c)) \<le> maxSize" using inv(1) size by (simp add: mem_abs_def mem_inv_def)
  with mem_Get_refines(1,2) [OF inv(1)] mem_Set_refines(1) [OF inv(1)] mem_Delete_refines(1) [OF inv(1)]
    mem_abs_distinct [OF inv(1)] inv(2) size show ?thesis by simp
qed

text \<open>
  C20. A hit of the memory cache is never stale within the process: it is the counter of the last
  set of its key, made less than the TTL ago, and the key has not been deleted since.
\<close>

theorem mem_cache_hit_is_latest:
  assumes new: "NewMemoryCounterReadCache maxSize ttl = Inr c0"
    and hit: "fst (mem_Get now t i (fold mem_step ops c0)) = Some x"
  shows "\<exists>pre at post. ops = pre @ OpSet at x # post \<and>
    counterCacheKey (ctr_tenant_id x) (ctr_id x) = counterCacheKey t i \<and> now < at + ttl \<and>
    (\<forall>op \<in> set post. \<not> overwrites counterCacheKey (counterCacheKey t i) op)"
proof -
  have "mem_inv c0" "mem_contents c0 = Map.empty"
    using mem_inv_new [OF new] by (simp_all add: mem_contents_def)
  moreover have "mc_ttl c0 = ttl" using new by (auto simp: NewMemoryCounterReadCache_def split: if_splits)
  ultimately show ?thesis using memory.hit_is_latest [OF _ _ hit] by simp
qed


definition sample_cached :: counter where
  "sample_cached = \<lparr>ctr_id = ''c1'', ctr_tenant_id = ''t1'', ctr_label = ''hits'', ctr_value = 10,
     ctr_max_delta = 50, ctr_created_at = 1000, ctr_updated_at = 1000\<rparr>"

definition sample_mem :: mem_cache where
  "sample_mem = \<lparr>mc_maxSize = 1, mc_ttl = 100, mc_items = Map.empty, mc_lru = [], mc_next = 0\<rparr>"

lemma sample_mem_new: "NewMemoryCounterReadCache 1 100 = Inr sample_mem"
  by (simp add: NewMemoryCounterReadCache_def sample_mem_def)

theorem mem_cache_refines_witness:
  "fst (mem_Get 50 ''t1'' ''c1'' (mem_Set 1 sample_cached sample_mem)) = Some sample_cached \<and>
   length (mem_abs (fold mem_step [OpSet 1 sample_cached, OpSet 2 (sample_cached\<lparr>ctr_id := ''c2''\<rparr>)] sample_mem)) \<le> 1"
proof
  have "fst (mem_Get 50 ''t1'' ''c1'' (fold mem_step [OpSet 1 sample_cached] sample_mem)) =
    fst (spec_get 50 (counterCacheKey ''t1'' ''c1'') (mem_abs (fold mem_step [OpSet 1 sample_cached] sample_mem)))"
    using mem_cache_refines [OF sample_mem_new refl] by blast
  also have "\<dots> = Some sample_cached" by code_simp
  finally show "fst (mem_Get 50 ''t1'' ''c1'' (mem_Set 1 sample_cached sample_mem)) = Some sample_cached"
    by (simp add: mem_set_op_def)
  have "int (length (mem_abs (fold mem_step [OpSet 1 sample_cached, OpSet 2 (sample_cached\<lparr>ctr_id := ''c2''\<rparr>)] sample_mem))) \<le> 1"
    using mem_cache_refines [OF sample_mem_new refl] by blast
  then show "length (mem_abs (fold mem_step [OpSet 1 sample_cached, OpSet 2 (sample_cached\<lparr>ctr_id := ''c2''\<rparr>)] sample_mem)) \<le> 1"
    by linarith
qed

theorem mem_cache_hit_is_latest_witness:
  "\<exists>pre at post. [OpSet (1 :: time) sample_cached, OpGet 2 ''t1'' ''c1''] = pre @ OpSet at sample_cached # post \<and> 50 < at + 100"
proof -
  have "fst (mem_Get 50 ''t1'' ''c1'' (fold mem_step [OpSet 1 sample_cached, OpGet 2 ''t1'' ''c1''] sample_mem)) =
      Some sample_cached"
    by code_simp
  from mem_cache_hit_is_latest [OF sample_mem_new this] show ?thesis by blast
qed

definition sample_redis :: redis_cache where
  "sample_redis = \<lparr>rcc_maxSize = 10, rcc_ttl = 1000000000, rcc_unavailableTil = 0,
     rcc_server = \<lparr>rd_values = [], rd_lru = [], rd_expiry = []\<rparr>\<rparr>"

definition redis_at :: "int \<Rightarrow> redis_env" where
  "redis_at us = \<lparr>rv_now = us * 1000, rv_server_us = us, rv_answer = RedisOK\<rparr>"


section \<open>The expiry index of the Redis cache\<close>

lemma drop_expired_tables:
  "rd_lru (drop_expired ks srv) = filter (\<lambda>p. fst p \<notin> set ks) (rd_lru srv)"
  "rd_values (drop_expired ks srv) = filter (\<lambda>p. fst p \<notin> set ks) (rd_values srv)"
  "rd_expiry (drop_expired ks srv) = rd_expiry srv"
  by (induction ks srv rule: drop_expired.induct) (auto simp: zrem_def intro: filter_cong)

lemma evict_small: "int (length (rd_lru srv)) \<le> m \<Longrightarrow> evict m srv = srv"
  by (subst evict.simps) auto

lemma set_script_all_expired:
  assumes all: "\<forall>p \<in> set (rd_expiry s). snd p \<le> now" and k: "k \<notin> fst ` set (rd_expiry s)"
    and old: "fst ` set (rd_lru s) \<subseteq> fst ` set (rd_expiry s)" "fst ` set (rd_values s) \<subseteq> fst ` set (rd_expiry s)"
    and m: "1 \<le> m"
  shows "set_script now k v ttl m s = \<lparr>rd_values = [(k, v, now div 1000 + ttl)], rd_lru = [(k, now)],
    rd_expiry = (k, now + ttl * 1000) # rd_expiry s\<rparr>"
proof -
  let ?d = "drop_expired (map fst (filter (\<lambda>p. snd p \<le> now) (rd_expiry s))) s"
  have "filter (\<lambda>p. snd p \<le> now) (rd_expiry s) = rd_expiry s" using all by (auto simp: filter_id_conv)
  then have "rd_lru ?d = []" "rd_values ?d = []" "rd_expiry ?d = rd_expiry s"
    using old by (auto simp: drop_expired_tables filter_empty_conv)
  moreover have "zrem k (rd_expiry s) = rd_expiry s" unfolding zrem_def by (rule filter_absent [OF k])
  ultimately show ?thesis using m by (simp add: set_script_def Let_def evict_small zadd_def zrem_def)
qed

text \<open>
  C38. The expiry index is not bounded by the configured capacity: the loop of the set script that
  drops expired keys does not take them out of the index, so after \<open>n\<close> counters have been cached one
  after the other, each when the earlier ones have expired, the index has \<open>n\<close> members while one value
  is cached.
\<close>

theorem redis_expiry_index_unbounded:
  fixes k :: "nat \<Rightarrow> string" and at :: "nat \<Rightarrow> int"
  assumes keys: "inj k" and times: "\<And>i j. i < j \<Longrightarrow> at i + ttl_ms * 1000 \<le> at j" and size: "1 \<le> max_entries"
  shows "length (rd_expiry (fold (\<lambda>i. set_script (at i) (k i) (v i) ttl_ms max_entries) [0..<n]
      \<lparr>rd_values = [], rd_lru = [], rd_expiry = []\<rparr>)) = n \<and>
    length (rd_values (fold (\<lambda>i. set_script (at i) (k i) (v i) ttl_ms max_entries) [0..<n]
      \<lparr>rd_values = [], rd_lru = [], rd_expiry = []\<rparr>)) \<le> 1"
proof -
  let ?srv = "\<lambda>n. fold (\<lambda>i. set_script (at i) (k i) (v i) ttl_ms max_entries) [0..<n]
      \<lparr>rd_values = [], rd_lru = [], rd_expiry = []\<rparr>"
  have "rd_expiry (?srv n) = rev (map (\<lambda>i. (k i, at i + ttl_ms * 1000)) [0..<n]) \<and>
    fst ` set (rd_lru (?srv n)) \<subseteq> k ` {0..<n} \<and> fst ` set (rd_values (?srv n)) \<subseteq> k ` {0..<n} \<and>
    length (rd_values (?srv n)) \<le> 1"
  proof (induction n)
    case 0
    then show ?case by simp
  next
    case (Suc n)
    let ?s = "?srv n"
    have "k n \<notin> k ` {0..<n}" using keys by (auto dest: injD)
    then have "set_script (at n) (k n) (v n) ttl_ms max_entries ?s =
        \<lparr>rd_values = [(k n, v n, at n div 1000 + ttl_ms)], rd_lru = [(k n, at n)],
         rd_expiry = (k n, at n + ttl_ms * 1000) # rd_expiry ?s\<rparr>"
      using Suc times size by (intro set_script_all_expired) (simp_all add: image_image)
    with Suc show ?case by simp
  qed
  then show ?thesis by simp
qed

theorem redis_expiry_index_unbounded_witness:
  "length (rd_expiry (fold (\<lambda>i. set_script (int i * 5000) (replicate i CHR ''k'') None 1 2) [0..<1000]
      \<lparr>rd_values = [], rd_lru = [], rd_expiry = []\<rparr>)) = 1000"
proof -
  have "inj (\<lambda>i. replicate i CHR ''k'')" by (rule injI) (metis length_replicate)
  from redis_expiry_index_unbounded [OF this, where at = "\<lambda>i. int i * 5000" and ttl_ms = 1 and max_entries = 2
      and v = "\<lambda>_. None" and n = 1000]
  show ?thesis by simp
qed

end
