(* ===== verification/Counter_Service.thy ===== *)
theory Counter_Service
  imports Counter_Spec Read_Cache Text
begin

text \<open>
  \<open>internal/service/counter.go\<close>: the use cases of counters over the counter store and the optional
  read cache, the digest that identifies a mutation request, the coherence of the cache with the
  tables and the walk over the pages of a listing.
\<close>

section \<open>The read cache of the service\<close>

text \<open>The value of the field \<open>readCache\<close>: nil or one of the two implementations of the interface.\<close>

datatype cache_impl = NoCache | MemoryCache mem_cache | RedisCache redis_cache

record cache_env =
  ce_now :: time
  ce_redis :: redis_env

fun cache_Get :: "externals \<Rightarrow> cache_env \<Rightarrow> string \<Rightarrow> string \<Rightarrow> cache_impl \<Rightarrow> counter option \<times> cache_impl" where
  "cache_Get X e t i NoCache = (None, NoCache)"
| "cache_Get X e t i (MemoryCache c) = (let (r, c') = mem_Get (ce_now e) t i c in (r, MemoryCache c'))"
| "cache_Get X e t i (RedisCache c) = (let (r, c') = redis_Get X (ce_redis e) t i c in (r, RedisCache c'))"

fun cache_Set :: "externals \<Rightarrow> cache_env \<Rightarrow> counter \<Rightarrow> cache_impl \<Rightarrow> cache_impl" where
  "cache_Set X e x NoCache = NoCache"
| "cache_Set X e x (MemoryCache c) = MemoryCache (mem_Set (ce_now e) x c)"
| "cache_Set X e x (RedisCache c) = RedisCache (snd (redis_Set X (ce_redis e) x c))"

fun invalidateReadCache :: "externals \<Rightarrow> cache_env \<Rightarrow> string \<Rightarrow> string \<Rightarrow> cache_impl \<Rightarrow> cache_impl" where
  "invalidateReadCache X e t i NoCache = NoCache"
| "invalidateReadCache X e t i (MemoryCache c) = MemoryCache (mem_Delete t i c)"
| "invalidateReadCache X e t i (RedisCache c) = RedisCache (snd (redis_Delete X (ce_redis e) t i c))"

section \<open>The request digest\<close>

fun big_endian :: "nat \<Rightarrow> nat \<Rightarrow> string" where
  "big_endian 0 n = []"
| "big_endian (Suc k) n = big_endian k (n div 256) @ [char_of (n mod 256)]"

definition PutUint64 :: "int \<Rightarrow> string" where
  "PutUint64 v = big_endian 8 (nat (v mod 18446744073709551616))"

definition hash_field :: "string \<Rightarrow> string" where
  "hash_field field = PutUint64 (int (length field)) @ field"

definition mutation_preimage :: "string \<Rightarrow> string \<Rightarrow> string \<Rightarrow> int64 \<Rightarrow> string" where
  "mutation_preimage kind tenantID counterID v =
     concat (map hash_field [''counter-operation-v1'', kind, tenantID, counterID]) @ PutUint64 v"

definition mutationRequestHash :: "externals \<Rightarrow> string \<Rightarrow> string \<Rightarrow> string \<Rightarrow> int64 \<Rightarrow> string" where
  "mutationRequestHash X kind tenantID counterID v = sha256 X (mutation_preimage kind tenantID counterID v)"

definition incrementRequestHash :: "externals \<Rightarrow> string \<Rightarrow> string \<Rightarrow> int64 \<Rightarrow> string" where
  "incrementRequestHash X tenantID counterID delta = mutationRequestHash X ''increment'' tenantID counterID delta"

definition setRequestHash :: "externals \<Rightarrow> string \<Rightarrow> string \<Rightarrow> int64 \<Rightarrow> string" where
  "setRequestHash X tenantID counterID v = mutationRequestHash X ''set'' tenantID counterID v"

section \<open>The use cases\<close>

text \<open>
  The clock and the generated identifier of a call are arguments; an operation takes and returns the
  cache beside the tables when it uses it.
\<close>

record create_request =
  rq_Label :: string
  rq_InitialValue :: int64
  rq_MaxDelta :: int64

definition Counter_Create ::
  "externals \<Rightarrow> faults \<Rightarrow> go_context \<Rightarrow> time \<Rightarrow> string \<Rightarrow> string \<Rightarrow> create_request \<Rightarrow> database \<Rightarrow>
   (go_error + counter) \<times> database" where
  "Counter_Create X f ctx now newID tenantID request db =
     (case TenantExists X f ctx tenantID db of
        Inl e \<Rightarrow> (Inl e, db)
      | Inr False \<Rightarrow> (Inl (Sentinel ErrTenantNotFound), db)
      | Inr True \<Rightarrow>
        (let c = \<lparr>ctr_id = newID, ctr_tenant_id = tenantID, ctr_label = rq_Label request,
                  ctr_value = rq_InitialValue request, ctr_max_delta = rq_MaxDelta request,
                  ctr_created_at = now, ctr_updated_at = now\<rparr>
         in case CreateCounter X f ctx c db of
              (Inl e, db') \<Rightarrow>
                (if errors_Is e StoreErrCounterConflict then Inl (Sentinel ErrConflict)
                 else if errors_Is e StoreErrTenantNotFound then Inl (Sentinel ErrTenantNotFound)
                 else Inl e, db')
            | (Inr _, db') \<Rightarrow> (Inr c, db')))"

definition Counter_Get ::
  "externals \<Rightarrow> faults \<Rightarrow> go_context \<Rightarrow> cache_env \<Rightarrow> string \<Rightarrow> string \<Rightarrow> database \<Rightarrow> cache_impl \<Rightarrow>
   (go_error + counter) \<times> cache_impl" where
  "Counter_Get X f ctx e tenantID counterID db cache =
     (case cache_Get X e tenantID counterID cache of
        (Some c, cache') \<Rightarrow> (Inr c, cache')
      | (None, cache') \<Rightarrow>
        (case GetCounter X f ctx tenantID counterID db of
           Inl err \<Rightarrow>
             (if errors_Is err StoreErrCounterNotFound then Inl (Sentinel ErrCounterNotFound) else Inl err, cache')
         | Inr c \<Rightarrow> (Inr c, cache_Set X e c cache')))"

record counter_page =
  cp_Counters :: "counter list"
  cp_Next :: "counter_cursor option"

definition Counter_List ::
  "externals \<Rightarrow> faults \<Rightarrow> go_context \<Rightarrow> string \<Rightarrow> counter_cursor option \<Rightarrow> nat \<Rightarrow> database \<Rightarrow>
   go_error + counter_page" where
  "Counter_List X f ctx tenantID cursor limit db =
     (case TenantExists X f ctx tenantID db of
        Inl e \<Rightarrow> Inl e
      | Inr False \<Rightarrow> Inl (Sentinel ErrTenantNotFound)
      | Inr True \<Rightarrow>
        (case ListCounters X f ctx tenantID cursor limit db of
           Inl e \<Rightarrow> Inl e
         | Inr cs \<Rightarrow>
           if length cs > limit
           then (let shown = take limit cs; lst = last shown
                 in Inr \<lparr>cp_Counters = shown,
                      cp_Next = Some \<lparr>cc_CreatedAt = ctr_created_at lst, cc_ID = ctr_id lst\<rparr>\<rparr>)
           else Inr \<lparr>cp_Counters = cs, cp_Next = None\<rparr>))"

record counter_mutation =
  cm_OperationID :: string
  cm_CounterID :: string
  cm_Delta :: int64
  cm_Value :: int64
  cm_UpdatedAt :: time
  cm_Replayed :: bool

definition mutation_response :: "string \<Rightarrow> mutation_result \<Rightarrow> counter_mutation" where
  "mutation_response counterID r = \<lparr>cm_OperationID = mr_OperationID r, cm_CounterID = counterID,
     cm_Delta = mr_Delta r, cm_Value = mr_Value r, cm_UpdatedAt = mr_UpdatedAt r, cm_Replayed = mr_Replayed r\<rparr>"

definition increment_error :: "go_error \<Rightarrow> go_error" where
  "increment_error e =
     (if errors_Is e StoreErrCounterNotFound then Sentinel ErrCounterNotFound
      else if errors_Is e StoreErrDeltaExceedsMaximum then Sentinel ErrDeltaExceedsMaximum
      else if errors_Is e StoreErrCounterOverflow then Sentinel ErrCounterOverflow
      else if errors_Is e StoreErrIdempotencyKeyReused then Sentinel ErrIdempotencyKeyReused
      else if errors_Is e StoreErrOperationInProgress then Sentinel ErrOperationInProgress
      else e)"

definition set_error :: "go_error \<Rightarrow> go_error" where
  "set_error e =
     (if errors_Is e StoreErrCounterNotFound then Sentinel ErrCounterNotFound
      else if errors_Is e StoreErrIdempotencyKeyReused then Sentinel ErrIdempotencyKeyReused
      else if errors_Is e StoreErrOperationInProgress then Sentinel ErrOperationInProgress
      else if errors_Is e StoreErrCounterOverflow then Sentinel ErrCounterOverflow
      else e)"

text \<open>
  \<open>CounterStore\<close> implements the interface with an actor, so \<open>incrementRepository\<close> and
  \<open>setRepository\<close> always take their first branch.
\<close>

definition incrementWithActor ::
  "externals \<Rightarrow> faults \<Rightarrow> go_context \<Rightarrow> cache_env \<Rightarrow> time \<Rightarrow> string \<Rightarrow> string \<Rightarrow> string \<Rightarrow> int64 \<Rightarrow> string \<Rightarrow> string \<Rightarrow>
   database \<Rightarrow> cache_impl \<Rightarrow> (go_error + counter_mutation) \<times> database \<times> cache_impl" where
  "incrementWithActor X f ctx e now newID tenantID counterID delta operationID actorID db cache =
     (let oid = (if operationID = [] then newID else operationID)
      in case incrementCounter X f ctx tenantID counterID delta oid
             (incrementRequestHash X tenantID counterID delta) actorID now db of
           (Inl err, db') \<Rightarrow> (Inl (increment_error err), db', cache)
         | (Inr r, db') \<Rightarrow>
             (Inr (mutation_response counterID r), db', invalidateReadCache X e tenantID counterID cache))"

definition setWithActor ::
  "externals \<Rightarrow> faults \<Rightarrow> go_context \<Rightarrow> cache_env \<Rightarrow> time \<Rightarrow> string \<Rightarrow> string \<Rightarrow> string \<Rightarrow> int64 \<Rightarrow> string \<Rightarrow> string \<Rightarrow>
   database \<Rightarrow> cache_impl \<Rightarrow> (go_error + counter_mutation) \<times> database \<times> cache_impl" where
  "setWithActor X f ctx e now newID tenantID counterID v operationID actorID db cache =
     (let oid = (if operationID = [] then newID else operationID)
      in case setCounterValueWithOperation X f ctx tenantID counterID v oid
             (setRequestHash X tenantID counterID v) actorID now db of
           (Inl err, db') \<Rightarrow> (Inl (set_error err), db', cache)
         | (Inr r, db') \<Rightarrow>
             (Inr (mutation_response counterID r), db', invalidateReadCache X e tenantID counterID cache))"

text \<open>The public forms: without a key of the client or without an actor those are empty.\<close>

definition Counter_IncrementWithOperationActor where
  "Counter_IncrementWithOperationActor = incrementWithActor"

definition Counter_IncrementWithOperation where
  "Counter_IncrementWithOperation X f ctx e now newID tenantID counterID delta operationID =
     incrementWithActor X f ctx e now newID tenantID counterID delta operationID []"

definition Counter_IncrementWithActor where
  "Counter_IncrementWithActor X f ctx e now newID tenantID counterID delta actorID =
     incrementWithActor X f ctx e now newID tenantID counterID delta [] actorID"

definition Counter_Increment where
  "Counter_Increment X f ctx e now newID tenantID counterID delta =
     Counter_IncrementWithOperation X f ctx e now newID tenantID counterID delta []"

definition Counter_SetWithOperationActor where
  "Counter_SetWithOperationActor = setWithActor"

definition Counter_SetWithOperation where
  "Counter_SetWithOperation X f ctx e now newID tenantID counterID v operationID =
     setWithActor X f ctx e now newID tenantID counterID v operationID []"

definition Counter_SetWithActor where
  "Counter_SetWithActor X f ctx e now newID tenantID counterID v actorID =
     setWithActor X f ctx e now newID tenantID counterID v [] actorID"

definition Counter_Set where
  "Counter_Set X f ctx e now newID tenantID counterID v =
     Counter_SetWithOperation X f ctx e now newID tenantID counterID v []"

section \<open>The digest tells requests apart\<close>

lemma big_endian_length [simp]: "length (big_endian k n) = k"
  by (induction k arbitrary: n) simp_all

lemma big_endian_inject: "big_endian k m = big_endian k n \<Longrightarrow> m mod 256 ^ k = n mod 256 ^ k"
proof (induction k arbitrary: m n)
  case 0
  then show ?case by simp
next
  case (Suc k)
  then have "big_endian k (m div 256) = big_endian k (n div 256)"
    and low: "(char_of (m mod 256) :: char) = char_of (n mod 256)" by simp_all
  then have "m div 256 mod 256 ^ k = n div 256 mod 256 ^ k" using Suc.IH by blast
  moreover have "(of_char (char_of (m mod 256) :: char) :: nat) = of_char (char_of (n mod 256) :: char)"
    by (simp only: low)
  then have "m mod 256 = n mod 256" by (simp only: of_char_of) simp
  ultimately show ?case by (simp add: mod_mult2_eq)
qed

lemma PutUint64_inject:
  assumes "PutUint64 a = PutUint64 b"
  shows "a mod 18446744073709551616 = b mod 18446744073709551616"
proof -
  have "nat (a mod 18446744073709551616) mod 256 ^ 8 = nat (b mod 18446744073709551616) mod 256 ^ 8"
    using big_endian_inject assms unfolding PutUint64_def by blast
  moreover have "nat (c mod 18446744073709551616) < 256 ^ 8" for c :: int by simp
  ultimately have "nat (a mod 18446744073709551616) = nat (b mod 18446744073709551616)" by simp
  then show ?thesis by simp
qed

lemma PutUint64_int64:
  assumes "PutUint64 a = PutUint64 b" "in_int64 a" "in_int64 b"
  shows "a = b"
proof -
  have "wrap64 a = wrap64 b"
    unfolding wrap64_def mod_add_cong [OF PutUint64_inject [OF assms(1)] refl] ..
  with assms(2,3) show ?thesis by simp
qed

lemma hash_field_inject:
  assumes "hash_field a @ r = hash_field b @ s"
    and "length a < 18446744073709551616" "length b < 18446744073709551616"
  shows "a = b \<and> r = s"
proof -
  have "length (PutUint64 n) = 8" for n by (simp add: PutUint64_def)
  with assms(1) have p: "PutUint64 (int (length a)) = PutUint64 (int (length b))" "a @ r = b @ s"
    unfolding hash_field_def by (auto simp: append_eq_append_conv)
  from PutUint64_inject [OF p(1)] assms(2,3) have "length a = length b" by simp
  with p(2) show ?thesis by simp
qed

text \<open>
  C31. The preimage of the request digest is injective: two mutation requests whose kind, tenant,
  counter or value differ are hashed from different byte strings, for identifiers shorter than
  \<open>2^64\<close> bytes and 64-bit values.
\<close>

theorem mutation_preimage_inject:
  assumes "mutation_preimage k t c v = mutation_preimage k' t' c' v'"
    and "length k < 2 ^ 64" "length t < 2 ^ 64" "length c < 2 ^ 64"
    and "length k' < 2 ^ 64" "length t' < 2 ^ 64" "length c' < 2 ^ 64"
    and "in_int64 v" "in_int64 v'"
  shows "k = k' \<and> t = t' \<and> c = c' \<and> v = v'"
proof -
  from assms(1) have "hash_field k @ hash_field t @ hash_field c @ PutUint64 v =
      hash_field k' @ hash_field t' @ hash_field c' @ PutUint64 v'"
    by (simp add: mutation_preimage_def)
  from hash_field_inject [OF this] assms(2,5)
  have k: "k = k'" "hash_field t @ hash_field c @ PutUint64 v = hash_field t' @ hash_field c' @ PutUint64 v'" by simp_all
  from hash_field_inject [OF k(2)] assms(3,6)
  have t: "t = t'" "hash_field c @ PutUint64 v = hash_field c' @ PutUint64 v'" by simp_all
  from hash_field_inject [OF t(2)] assms(4,7) have c: "c = c'" "PutUint64 v = PutUint64 v'" by simp_all
  from PutUint64_int64 [OF c(2) assms(8,9)] k(1) t(1) c(1) show ?thesis by simp
qed

theorem mutation_preimage_inject_witness:
  "mutation_preimage ''increment'' ''t1'' ''c1'' 5 \<noteq> mutation_preimage ''increment'' ''t1c'' ''1'' 5"
proof
  assume "mutation_preimage ''increment'' ''t1'' ''c1'' 5 = mutation_preimage ''increment'' ''t1c'' ''1'' 5"
  from mutation_preimage_inject [OF this] in_int64_5 show False by simp
qed

end
