(* ===== verification/Pagination.thy ===== *)
theory Pagination
  imports Counter_Service History
begin

text \<open>
  Keyset pagination. Two listings page the same way (counters in ascending, operations in descending
  order): the store returns up to one row more than the limit after the cursor, the service cuts the
  extra row and makes the next cursor from the last row it shows. The locale \<open>keyset_pages\<close> states
  what the store promises; the walk over all pages is proved complete there once and interpreted
  for both listings.
\<close>

section \<open>The contract\<close>

definition cut_page :: "('a \<Rightarrow> 'c) \<Rightarrow> nat \<Rightarrow> 'a list \<Rightarrow> 'a list \<times> 'c option" where
  "cut_page cursor_of limit xs =
     (if length xs > limit then (take limit xs, Some (cursor_of (last (take limit xs)))) else (xs, None))"

text \<open>A client that follows the cursors to the end, with fuel.\<close>

fun walk_pages :: "nat \<Rightarrow> ('c option \<Rightarrow> go_error + ('a list \<times> 'c option)) \<Rightarrow> 'c option \<Rightarrow> (go_error + 'a list) option" where
  "walk_pages 0 fetch cur = None"
| "walk_pages (Suc n) fetch cur =
     (case fetch cur of
        Inl e \<Rightarrow> Some (Inl e)
      | Inr (xs, None) \<Rightarrow> Some (Inr xs)
      | Inr (xs, Some c) \<Rightarrow>
        (case walk_pages n fetch (Some c) of
           None \<Rightarrow> None
         | Some (Inl e) \<Rightarrow> Some (Inl e)
         | Some (Inr ys) \<Rightarrow> Some (Inr (xs @ ys))))"

locale keyset_pages =
  fixes ok :: "'q \<Rightarrow> bool"
    and items :: "'q \<Rightarrow> 'a list"
    and page :: "'q \<Rightarrow> 'c option \<Rightarrow> nat \<Rightarrow> go_error + 'a list"
    and cursor_of :: "'a \<Rightarrow> 'c"
  assumes first_page: "ok q \<Longrightarrow> page q None n = Inr (take n (items q))"
    and next_page: "ok q \<Longrightarrow> i < length (items q) \<Longrightarrow>
      page q (Some (cursor_of (items q ! i))) n = Inr (take n (drop (Suc i) (items q)))"
begin

lemma walk_from:
  assumes "ok q" "0 < limit" "j < length (items q) \<or> j = 0" "length (items q) - j < fuel"
    and fetch: "\<And>cur. fetch cur = map_sum id (cut_page cursor_of limit) (page q cur (limit + 1))"
  shows "walk_pages fuel fetch (if j = 0 then None else Some (cursor_of (items q ! (j - 1)))) =
    Some (Inr (drop j (items q)))"
  using assms(3,4)
proof (induction fuel arbitrary: j)
  case 0
  then show ?case by simp
next
  case (Suc fuel)
  let ?cur = "if j = 0 then None else Some (cursor_of (items q ! (j - 1)))"
  have p: "page q ?cur (limit + 1) = Inr (take (limit + 1) (drop j (items q)))"
    using first_page [OF assms(1)] next_page [OF assms(1), of "j - 1"] Suc.prems(1) by (cases j) auto
  show ?case
  proof (cases "length (drop j (items q)) > limit")
    case True
    let ?j = "j + limit"
    have lt: "?j < length (items q)" using True by simp
    have "last (take limit (drop j (items q))) = items q ! (?j - 1)"
      using lt assms(2) by (subst last_conv_nth) auto
    then have c: "fetch ?cur = Inr (take limit (drop j (items q)), Some (cursor_of (items q ! (?j - 1))))"
      unfolding fetch p using True by (simp add: cut_page_def min_def)
    have "length (items q) - ?j < fuel" using Suc.prems(2) lt assms(2) by simp
    with Suc.IH [of ?j] lt assms(2)
    have "walk_pages fuel fetch (Some (cursor_of (items q ! (?j - 1)))) = Some (Inr (drop ?j (items q)))" by simp
    moreover have "take limit (drop j (items q)) @ drop ?j (items q) = drop j (items q)"
      by (metis add.commute append_take_drop_id drop_drop)
    ultimately show ?thesis using c by simp
  next
    case False
    then have "fetch ?cur = Inr (drop j (items q), None)" unfolding fetch p by (simp add: cut_page_def min_def)
    then show ?thesis by simp
  qed
qed

lemma walk_complete:
  assumes "ok q" "0 < limit" "length (items q) < fuel"
    and "\<And>cur. fetch cur = map_sum id (cut_page cursor_of limit) (page q cur (limit + 1))"
  shows "walk_pages fuel fetch None = Some (Inr (items q))"
  using walk_from [OF assms(1,2), of 0 fuel fetch] assms(3,4) by simp

end

section \<open>The rows the cursors are made from\<close>

text \<open>
  Stored times are what PostgreSQL keeps of them and stored keys are canonical, so a cursor made
  from a row denotes the row.
\<close>

definition stored_ok :: "externals \<Rightarrow> database \<Rightarrow> bool" where
  "stored_ok X db \<longleftrightarrow>
     list_all (\<lambda>c. pg_time X (ctr_created_at c) = ctr_created_at c) (counters db) \<and>
     list_all (\<lambda>r. pg_time X (op_created_at r) = op_created_at r \<and> pg_uuid X (op_id r) = Some (op_id r)) (operations db)"

lemma stored_ok_record:
  "stored_ok X db \<Longrightarrow> pg_laws X \<Longrightarrow> pg_uuid X operationID = Some oid \<Longrightarrow>
     stored_ok X (record_mutation X kind t c oid before delta after h actorID meta now db)"
  by (auto simp: stored_ok_def record_mutation_def list_all_iff set_update_where
      dest: pg_lawsD(1) pg_lawsD(4))

lemma stored_ok_create:
  "stored_ok X db \<Longrightarrow> pg_laws X \<Longrightarrow>
     stored_ok X (db\<lparr>counters := counters db @ [stored_counter X i t c],
       operations := operations db @ [initial_operation X t i v now]\<rparr>)"
  by (auto simp: stored_ok_def stored_counter_def initial_operation_def pg_lawsD(3,4))

lemma stored_ok_cong:
  "counters db' = counters db \<Longrightarrow> operations db' = operations db \<Longrightarrow> stored_ok X db' = stored_ok X db"
  by (simp add: stored_ok_def)

section \<open>Counters\<close>

type_synonym counter_query = "externals \<times> access \<times> string \<times> database"

definition tenant_counters :: "externals \<Rightarrow> access \<Rightarrow> string \<Rightarrow> database \<Rightarrow> counter list" where
  "tenant_counters X a t db =
     filter (\<lambda>r. ctr_tenant_id r = t \<and> counter_tenant_visible X a (Some (ctr_tenant_id r))) (counters db)"

definition counter_query_ok :: "counter_query \<Rightarrow> bool" where
  "counter_query_ok q = (case q of (X, a, tenantID, db) \<Rightarrow>
     wf_database X db \<and> stored_ok X db \<and> pg_uuid X tenantID \<noteq> None)"

definition counter_items :: "counter_query \<Rightarrow> counter list" where
  "counter_items q = (case q of (X, a, tenantID, db) \<Rightarrow>
     sort_key counter_key (tenant_counters X a (the (pg_uuid X tenantID)) db))"

definition counter_page_of :: "counter_query \<Rightarrow> counter_cursor option \<Rightarrow> nat \<Rightarrow> go_error + counter list" where
  "counter_page_of q cur n = (case q of (X, a, tenantID, db) \<Rightarrow>
     wrap_err ''list counters'' (list_counters_stmt X a tenantID cur n db))"

definition counter_cursor_of :: "counter \<Rightarrow> counter_cursor" where
  "counter_cursor_of c = \<lparr>cc_CreatedAt = ctr_created_at c, cc_ID = ctr_id c\<rparr>"

lemma counter_items_key:
  assumes "wf_database X db"
  shows "sorted (map counter_key (counter_items (X, a, tenantID, db)))"
    and "distinct (map counter_key (counter_items (X, a, tenantID, db)))"
proof -
  have "distinct (map ctr_id (counter_items (X, a, tenantID, db)))"
    using wf_databaseD(1) [OF assms] by (simp add: counter_items_def tenant_counters_def distinct_map inj_on_def)
  then show "distinct (map counter_key (counter_items (X, a, tenantID, db)))"
    by (auto simp: distinct_map inj_on_def counter_key_def)
qed (simp add: counter_items_def)

interpretation counter_pages: keyset_pages counter_query_ok counter_items counter_page_of counter_cursor_of
proof
  fix q :: counter_query and n i
  assume q: "counter_query_ok q"
  obtain X a tenantID db where qe: "q = (X, a, tenantID, db)" by (cases q)
  from q qe obtain t where t: "pg_uuid X tenantID = Some t" and wf: "wf_database X db" and st: "stored_ok X db"
    by (auto simp: counter_query_ok_def)
  show "counter_page_of q None n = Inr (take n (counter_items q))"
    by (simp add: qe counter_page_of_def counter_items_def list_counters_stmt_def t tenant_counters_def)
  assume i: "i < length (counter_items q)"
  let ?L = "counter_items q"
  have "?L ! i \<in> set (counters db)"
    using nth_mem [OF i] by (auto simp: qe counter_items_def tenant_counters_def)
  with wf st have c: "pg_uuid X (ctr_id (?L ! i)) = Some (ctr_id (?L ! i))"
      "pg_time X (ctr_created_at (?L ! i)) = ctr_created_at (?L ! i)"
    by (auto simp: stored_ok_def list_all_iff counter_ok_def dest: wf_databaseD(3))
  have "filter (\<lambda>r. counter_key (?L ! i) < counter_key r) ?L = drop (Suc i) ?L"
    using counter_items_key [OF wf, of a tenantID] i unfolding qe by (rule sorted_filter_greater)
  then have "sort_key counter_key (filter (\<lambda>r. counter_key (?L ! i) < counter_key r) (tenant_counters X a t db)) =
      drop (Suc i) ?L"
    by (simp add: qe counter_items_def t filter_sort_key)
  then show "counter_page_of q (Some (counter_cursor_of (?L ! i))) n = Inr (take n (drop (Suc i) ?L))"
    using c by (simp add: qe counter_page_of_def list_counters_stmt_def t counter_cursor_of_def
        tenant_counters_def counter_key_def [of "_ ! i"])
qed

definition fetch_counters ::
  "externals \<Rightarrow> go_context \<Rightarrow> string \<Rightarrow> nat \<Rightarrow> database \<Rightarrow> counter_cursor option \<Rightarrow>
   go_error + (counter list \<times> counter_cursor option)" where
  "fetch_counters X ctx tenantID limit db cur =
     (case Counter_List X no_faults ctx tenantID cur limit db of
        Inl e \<Rightarrow> Inl e
      | Inr p \<Rightarrow> Inr (cp_Counters p, cp_Next p))"

lemma fetch_counters_page:
  assumes "tenant_exists_stmt X (AccessFromContext ctx) tenantID db = Inr True"
  shows "fetch_counters X ctx tenantID limit db cur =
    map_sum id (cut_page counter_cursor_of limit)
      (counter_page_of (X, AccessFromContext ctx, tenantID, db) cur (limit + 1))"
  using assms
  by (auto simp: fetch_counters_def Counter_List_def TenantExists_def ListCounters_def counter_page_of_def
      cut_page_def counter_cursor_of_def Let_def split: sum.splits)

text \<open>
  C9. Following the cursors of the counter listing visits every visible counter of the tenant
  exactly once, in the order of creation, whatever the page size: nothing is skipped or repeated at
  a page boundary, and the walk ends.
\<close>

theorem counter_listing_complete:
  assumes wf: "wf_database X db" and st: "stored_ok X db" and limit: "0 < limit"
    and tenant: "tenant_exists_stmt X (AccessFromContext ctx) tenantID db = Inr True"
    and t: "pg_uuid X tenantID = Some t" and fuel: "length (counters db) < fuel"
  shows "walk_pages fuel (fetch_counters X ctx tenantID limit db) None =
    Some (Inr (sort_key counter_key (tenant_counters X (AccessFromContext ctx) t db)))"
proof -
  let ?q = "(X, AccessFromContext ctx, tenantID, db)"
  have ok: "counter_query_ok ?q" using wf st t by (simp add: counter_query_ok_def)
  have "length (counter_items ?q) < fuel"
    using fuel by (simp add: counter_items_def tenant_counters_def le_less_trans [OF length_filter_le])
  from counter_pages.walk_complete [OF ok limit this fetch_counters_page [OF tenant]]
  show ?thesis by (simp add: counter_items_def t)
qed

section \<open>Operations\<close>

type_synonym history_query = "externals \<times> access \<times> string \<times> string \<times> database"

definition history_query_ok :: "history_query \<Rightarrow> bool" where
  "history_query_ok q = (case q of (X, a, tenantID, counterID, db) \<Rightarrow>
     wf_database X db \<and> stored_ok X db \<and> pg_uuid X tenantID \<noteq> None \<and> pg_uuid X counterID \<noteq> None)"

definition history_items :: "history_query \<Rightarrow> operation list" where
  "history_items q = (case q of (X, a, tenantID, counterID, db) \<Rightarrow>
     rev (sort_key history_key (history_rows X a (the (pg_uuid X tenantID)) (the (pg_uuid X counterID)) db)))"

definition history_page_of :: "history_query \<Rightarrow> operation_cursor option \<Rightarrow> nat \<Rightarrow> go_error + operation list" where
  "history_page_of q cur n = (case q of (X, a, tenantID, counterID, db) \<Rightarrow>
     wrap_err ''list counter operations'' (list_operations_stmt X a tenantID counterID cur n db))"

definition operation_cursor_of :: "operation \<Rightarrow> operation_cursor" where
  "operation_cursor_of r = \<lparr>oc_CreatedAt = op_created_at r, oc_OperationID = op_id r\<rparr>"

lemma sorted_filter_less:
  assumes "sorted (map k xs)" and "distinct (map k xs)" and "n < length xs"
  shows "filter (\<lambda>x. k x < (k (xs ! n) :: 'b :: linorder)) xs = take n xs"
  using assms
proof (induction xs arbitrary: n)
  case Nil
  then show ?case by simp
next
  case (Cons x xs)
  show ?case
  proof (cases n)
    case 0
    have "\<forall>y \<in> set xs. \<not> k y < k x" using Cons.prems by auto
    then show ?thesis using 0 by simp
  next
    case (Suc m)
    then have m: "m < length xs" using Cons.prems by simp
    then have "k x < k (xs ! m)" using Cons.prems by (auto simp: order.strict_iff_order)
    moreover have "filter (\<lambda>y. k y < k (xs ! m)) xs = take m xs" using Cons.IH [OF _ _ m] Cons.prems by simp
    ultimately show ?thesis using Suc by simp
  qed
qed

lemma history_sorted_key:
  assumes "wf_database X db"
  shows "distinct (map history_key (sort_key history_key (history_rows X a t c db)))"
proof -
  have "inj_on operation_key (set (operations db))" and "distinct (operations db)"
    using wf_databaseD(2) [OF assms] by (simp_all add: distinct_map)
  then show ?thesis
    unfolding history_rows_def
    by (auto simp: distinct_map inj_on_def operation_key_def history_key_def)
qed

interpretation history_pages: keyset_pages history_query_ok history_items history_page_of operation_cursor_of
proof
  fix q :: history_query and n i
  assume q: "history_query_ok q"
  obtain X a tenantID counterID db where qe: "q = (X, a, tenantID, counterID, db)" by (cases q)
  from q qe obtain t c where tc: "pg_uuid X tenantID = Some t" "pg_uuid X counterID = Some c"
    and wf: "wf_database X db" and st: "stored_ok X db"
    by (auto simp: history_query_ok_def)
  let ?S = "sort_key history_key (history_rows X a t c db)"
  have L: "history_items q = rev ?S" by (simp add: qe history_items_def tc)
  show "history_page_of q None n = Inr (take n (history_items q))"
    by (simp add: qe history_page_of_def history_items_def list_operations_stmt_def tc)
  assume i: "i < length (history_items q)"
  let ?j = "length ?S - Suc i"
  have j: "?j < length ?S" and nth: "history_items q ! i = ?S ! ?j" using i by (simp_all add: L rev_nth)
  let ?r = "?S ! ?j"
  have "?r \<in> set (operations db)" using nth_mem [OF j] by (auto simp: history_rows_def)
  with st have r: "pg_uuid X (op_id ?r) = Some (op_id ?r)" "pg_time X (op_created_at ?r) = op_created_at ?r"
    by (auto simp: stored_ok_def list_all_iff)
  have "sort_key history_key (filter (\<lambda>x. history_key x < history_key ?r) (history_rows X a t c db)) = take ?j ?S"
    using sorted_filter_less [OF _ history_sorted_key [OF wf] j] by (simp add: filter_sort_key)
  moreover have "rev (take ?j ?S) = drop (Suc i) (rev ?S)" using i by (simp add: rev_take L)
  ultimately show "history_page_of q (Some (operation_cursor_of (history_items q ! i))) n =
      Inr (take n (drop (Suc i) (history_items q)))"
    using r unfolding nth unfolding L
    by (simp add: qe history_page_of_def list_operations_stmt_def tc operation_cursor_of_def
        history_key_def [of "_ ! _"])
qed

definition fetch_operations ::
  "externals \<Rightarrow> go_context \<Rightarrow> string \<Rightarrow> string \<Rightarrow> nat \<Rightarrow> database \<Rightarrow> operation_cursor option \<Rightarrow>
   go_error + (counter_operation list \<times> operation_cursor option)" where
  "fetch_operations X ctx tenantID counterID limit db cur =
     (case History_List X no_faults ctx tenantID counterID cur limit db of
        Inl e \<Rightarrow> Inl e
      | Inr p \<Rightarrow> Inr (pg_Operations p, pg_Next p))"

lemma fetch_operations_page:
  assumes "GetCounter X no_faults ctx tenantID counterID db = Inr row" and limit: "0 < limit"
  shows "fetch_operations X ctx tenantID counterID limit db cur =
    map_sum id (\<lambda>rows. apfst (map operation_model) (cut_page operation_cursor_of limit rows))
      (history_page_of (X, AccessFromContext ctx, tenantID, counterID, db) cur (limit + 1))"
proof -
  have lst: "last (take limit (map operation_model rows)) = operation_model (last (take limit rows))"
    if "limit < length rows" for rows
    unfolding take_map using that limit by (subst last_map) auto
  show ?thesis
    using assms(1)
    by (auto simp: fetch_operations_def History_List_def ListOperations_def history_page_of_def
        cut_page_def Let_def lst operation_cursor_of_def split: sum.splits)
      (simp_all add: operation_model_def take_map)
qed

lemma walk_pages_map:
  assumes "walk_pages fuel g cur = Some (Inr xs)"
    and "\<And>cur. fetch cur = map_sum id (apfst (map h)) (g cur)"
  shows "walk_pages fuel fetch cur = Some (Inr (map h xs))"
  using assms(1)
proof (induction fuel arbitrary: cur xs)
  case 0
  then show ?case by simp
next
  case (Suc fuel)
  show ?case
  proof (cases "g cur")
    case (Inl e)
    with Suc.prems show ?thesis by simp
  next
    case (Inr p)
    obtain ys nxt where p: "p = (ys, nxt)" by (cases p)
    show ?thesis
    proof (cases nxt)
      case None
      with Suc.prems Inr p show ?thesis by (simp add: assms(2))
    next
      case (Some c)
      with Suc.prems Inr p obtain zs where "walk_pages fuel g (Some c) = Some (Inr zs)" "xs = ys @ zs"
        by (auto split: option.splits sum.splits)
      with Suc.IH Inr p Some show ?thesis by (simp add: assms(2))
    qed
  qed
qed

text \<open>
  C10. Following the cursors of the operation history returns every completed operation of the
  counter exactly once, latest first, whatever the page size, and the walk ends.
\<close>

theorem history_listing_complete:
  assumes wf: "wf_database X db" and st: "stored_ok X db" and limit: "0 < limit"
    and row: "GetCounter X no_faults ctx tenantID counterID db = Inr row"
    and ids: "pg_uuid X tenantID = Some t" "pg_uuid X counterID = Some c"
    and fuel: "length (operations db) < fuel"
  shows "walk_pages fuel (fetch_operations X ctx tenantID counterID limit db) None =
    Some (Inr (map operation_model
      (rev (sort_key history_key (history_rows X (AccessFromContext ctx) t c db)))))"
proof -
  let ?q = "(X, AccessFromContext ctx, tenantID, counterID, db)"
  let ?g = "\<lambda>cur. map_sum id (cut_page operation_cursor_of limit) (history_page_of ?q cur (limit + 1))"
  have ok: "history_query_ok ?q" using wf st ids by (simp add: history_query_ok_def)
  have "length (history_items ?q) < fuel"
    using fuel by (simp add: history_items_def history_rows_def le_less_trans [OF length_filter_le])
  from history_pages.walk_complete [OF ok limit this, of ?g]
  have "walk_pages fuel ?g None = Some (Inr (history_items ?q))" by simp
  from walk_pages_map [OF this, of "fetch_operations X ctx tenantID counterID limit db" operation_model]
    fetch_operations_page [OF row limit]
  have "walk_pages fuel (fetch_operations X ctx tenantID counterID limit db) None =
      Some (Inr (map operation_model (history_items ?q)))"
    by (simp add: sum.map_comp comp_def id_def)
  then show ?thesis by (simp add: history_items_def ids)
qed

lemma sample_stored: "stored_ok sample_ext sample_db"
  by code_simp

theorem counter_listing_complete_witness:
  "walk_pages 2 (fetch_counters sample_ext sample_ctx ''t1'' 1 sample_db) None = Some (Inr [sample_counter])"
proof -
  have t: "tenant_exists_stmt sample_ext (AccessFromContext sample_ctx) ''t1'' sample_db = Inr True" by code_simp
  have "walk_pages 2 (fetch_counters sample_ext sample_ctx ''t1'' 1 sample_db) None =
      Some (Inr (sort_key counter_key (tenant_counters sample_ext (AccessFromContext sample_ctx) ''t1'' sample_db)))"
    by (rule counter_listing_complete [OF sample_wf sample_stored _ t sample_ids(1)])
      (simp_all add: sample_db_def)
  also have "sort_key counter_key (tenant_counters sample_ext (AccessFromContext sample_ctx) ''t1'' sample_db) =
      [sample_counter]" by code_simp
  finally show ?thesis .
qed

definition sample_db2 :: database where
  "sample_db2 = snd (incrementCounter sample_ext no_faults sample_ctx ''t1'' ''c1'' 5 ''k1'' ''h'' ''p1'' 2000 sample_db)"

theorem history_listing_complete_witness:
  "map_option (map_sum id (map co_Delta))
     (walk_pages 3 (fetch_operations sample_ext sample_ctx ''t1'' ''c1'' 1 sample_db2) None) = Some (Inr [5, 10])"
proof -
  have wf: "wf_database sample_ext sample_db2" "stored_ok sample_ext sample_db2" by code_simp+
  obtain row where row: "GetCounter sample_ext no_faults sample_ctx ''t1'' ''c1'' sample_db2 = Inr row"
  proof -
    have "\<not> isl (GetCounter sample_ext no_faults sample_ctx ''t1'' ''c1'' sample_db2)" by code_simp
    with that show thesis by (cases "GetCounter sample_ext no_faults sample_ctx ''t1'' ''c1'' sample_db2") auto
  qed
  have len: "length (operations sample_db2) < 3" by code_simp
  have "walk_pages 3 (fetch_operations sample_ext sample_ctx ''t1'' ''c1'' 1 sample_db2) None =
    Some (Inr (map operation_model (rev (sort_key history_key
      (history_rows sample_ext (AccessFromContext sample_ctx) ''t1'' ''c1'' sample_db2)))))"
    by (rule history_listing_complete [OF wf _ row sample_ids(1,2) len]) simp
  moreover have "map co_Delta (map operation_model (rev (sort_key history_key
      (history_rows sample_ext (AccessFromContext sample_ctx) ''t1'' ''c1'' sample_db2)))) = [5, 10]" by code_simp
  ultimately show ?thesis by simp
qed

end
