(* ===== verification/Coherence.thy ===== *)
theory Coherence
  imports Counter_Service
begin

text \<open>
  The read cache and the tables together: a process whose requests run one after the other always
  reads the current row, as long as every request spells the identifiers the way PostgreSQL prints
  them up to case and no answer of a commit is lost; and what goes wrong otherwise.
\<close>

section \<open>Requests of one process\<close>

definition plain :: "externals \<Rightarrow> string \<Rightarrow> bool" where
  "plain X s \<longleftrightarrow> pg_uuid X s = Some (to_lower s)"

definition answered :: "faults \<Rightarrow> bool" where
  "answered f \<longleftrightarrow> (case commit_out f of CommitLost e \<Rightarrow> False | _ \<Rightarrow> True)"

inductive service_step :: "externals \<Rightarrow> database \<times> mem_cache \<Rightarrow> database \<times> mem_cache \<Rightarrow> bool" for X where
  step_get:
    "Counter_Get X f ctx e tenantID counterID db (MemoryCache c) = (r, MemoryCache c') \<Longrightarrow>
     service_step X (db, c) (db, c')"
| step_increment:
    "incrementWithActor X f ctx e now newID tenantID counterID delta operationID actorID db (MemoryCache c) =
       (r, db', MemoryCache c') \<Longrightarrow>
     plain X tenantID \<Longrightarrow> plain X counterID \<Longrightarrow> \<not> ctx_tx ctx \<Longrightarrow> answered f \<Longrightarrow>
     service_step X (db, c) (db', c')"
| step_set:
    "setWithActor X f ctx e now newID tenantID counterID v operationID actorID db (MemoryCache c) =
       (r, db', MemoryCache c') \<Longrightarrow>
     plain X tenantID \<Longrightarrow> plain X counterID \<Longrightarrow> \<not> ctx_tx ctx \<Longrightarrow> answered f \<Longrightarrow>
     service_step X (db, c) (db', c')"
| step_create:
    "Counter_Create X f ctx now newID tenantID request db = (r, db') \<Longrightarrow> \<not> ctx_tx ctx \<Longrightarrow>
     service_step X (db, c) (db', c)"

definition service_reachable :: "externals \<Rightarrow> database \<times> mem_cache \<Rightarrow> database \<times> mem_cache \<Rightarrow> bool" where
  "service_reachable X s0 s \<longleftrightarrow> (service_step X)\<^sup>*\<^sup>* s0 s"

text \<open>Every cached counter is a current row, cached under its own key.\<close>

definition coherent :: "database \<Rightarrow> mem_cache \<Rightarrow> bool" where
  "coherent db c \<longleftrightarrow> mem_inv c \<and>
     (\<forall>k x u. mem_contents c k = Some (x, u) \<longrightarrow>
        x \<in> set (counters db) \<and> k = counterCacheKey (ctr_tenant_id x) (ctr_id x))"

lemma coherent_subset:
  assumes "coherent db c" "mem_inv c'" "mem_contents c' \<subseteq>\<^sub>m mem_contents c"
  shows "coherent db c'"
  using assms map_leD [OF assms(3)] unfolding coherent_def by blast

lemma coherent_get:
  assumes "coherent db c" "Counter_Get X f ctx e tenantID counterID db (MemoryCache c) = (r, MemoryCache c')"
  shows "coherent db c'" and "r = Inr x \<Longrightarrow> x \<in> set (counters db)"
proof -
  have inv: "mem_inv c" using assms(1) by (simp add: coherent_def)
  obtain g c1 where g: "mem_Get (ce_now e) tenantID counterID c = (g, c1)"
    by (cases "mem_Get (ce_now e) tenantID counterID c")
  have c1: "coherent db c1"
    using coherent_subset [OF assms(1) mem_Get_refines(3) [OF inv] mem_get_contents [OF inv], of "ce_now e" tenantID counterID] g
    by simp
  have "coherent db c' \<and> (\<forall>x. r = Inr x \<longrightarrow> x \<in> set (counters db))"
  proof (cases g)
    case (Some x)
    then have "x \<in> set (counters db)"
      using memory.get_hit [OF inv, of "ce_now e" tenantID counterID x] g assms(1) by (auto simp: coherent_def)
    with Some g c1 assms(2) show ?thesis by (auto simp: Counter_Get_def)
  next
    case None
    show ?thesis
    proof (cases "GetCounter X f ctx tenantID counterID db")
      case (Inl err)
      with None g c1 assms(2) show ?thesis by (auto simp: Counter_Get_def split: if_splits)
    next
      case (Inr y)
      then have "select_counter_stmt X (AccessFromContext ctx) tenantID counterID db = Inr y"
        by (auto simp: GetCounter_def split: sum.splits if_splits dest: query_Inr)
      then have y: "y \<in> set (counters db)" by (rule select_counter_stmt_Inr(1))
      have inv1: "mem_inv c1" using c1 by (simp add: coherent_def)
      have "coherent db (mem_Set (ce_now e) y c1)"
        unfolding coherent_def
      proof (intro conjI allI impI)
        show "mem_inv (mem_Set (ce_now e) y c1)" by (rule mem_Set_refines(2) [OF inv1])
      next
        fix k x u assume "mem_contents (mem_Set (ce_now e) y c1) k = Some (x, u)"
        from map_leD [OF mem_set_contents [OF inv1] this] c1 y
        show "x \<in> set (counters db)" "k = counterCacheKey (ctr_tenant_id x) (ctr_id x)"
          by (auto simp: coherent_def split: if_splits)
      qed
      with None g Inr y assms(2) show ?thesis by (auto simp: Counter_Get_def)
    qed
  qed
  then show "coherent db c'" and "r = Inr x \<Longrightarrow> x \<in> set (counters db)" by auto
qed

lemma coherent_invalidate:
  assumes "coherent db c" and ids: "pg_uuid X tenantID = Some t" "plain X tenantID"
      "pg_uuid X counterID = Some i" "plain X counterID"
  shows "coherent (record_mutation X kind t i oid before delta after h actorID meta now db) (mem_Delete tenantID counterID c)"
proof -
  have inv: "mem_inv c" using assms(1) by (simp add: coherent_def)
  have ti: "t = to_lower tenantID" "i = to_lower counterID" using ids by (auto simp: plain_def)
  show ?thesis
    unfolding coherent_def
  proof (intro conjI allI impI)
    show "mem_inv (mem_Delete tenantID counterID c)" by (rule mem_Delete_refines(2) [OF inv])
  next
    fix k x u
    assume "mem_contents (mem_Delete tenantID counterID c) k = Some (x, u)"
    then have k: "k \<noteq> counterCacheKey tenantID counterID" "mem_contents c k = Some (x, u)"
      by (auto simp: mem_del_contents [OF inv] split: if_splits)
    with assms(1) have x: "x \<in> set (counters db)" "k = counterCacheKey (ctr_tenant_id x) (ctr_id x)"
      by (auto simp: coherent_def)
    have "\<not> (ctr_tenant_id x = t \<and> ctr_id x = i)"
      using k(1) x(2) ti by (auto simp: counterCacheKey_def)
    with x(1) show "x \<in> set (counters (record_mutation X kind t i oid before delta after h actorID meta now db))"
      by (auto simp: record_mutation_def set_update_where image_iff intro!: bexI [of _ x])
    show "k = counterCacheKey (ctr_tenant_id x) (ctr_id x)" by (rule x(2))
  qed
qed

lemma coherent_same_counters: "coherent db c \<Longrightarrow> counters db' = counters db \<Longrightarrow> coherent db' c"
  by (simp add: coherent_def)

lemma answered_commit: "answered f \<Longrightarrow> commit_out f \<noteq> CommitLost e"
  by (auto simp: answered_def)

lemma coherent_delete:
  assumes "coherent db c"
  shows "coherent db (mem_Delete t i c)"
proof -
  have "mem_inv c" using assms by (simp add: coherent_def)
  from coherent_subset [OF assms mem_Delete_refines(2) [OF this] mem_del_le [OF this]] show ?thesis .
qed

text \<open>What a mutation through the service does to the tables and the cache.\<close>

definition mutation_effect ::
  "externals \<Rightarrow> string \<Rightarrow> string \<Rightarrow> database \<Rightarrow> mem_cache \<Rightarrow> database \<Rightarrow> mem_cache \<Rightarrow> bool" where
  "mutation_effect X tenantID counterID db c db' c' \<longleftrightarrow>
     counters db' = counters db \<and> c' = c \<or>
     counters db' = counters db \<and> c' = mem_Delete tenantID counterID c \<or>
     c' = mem_Delete tenantID counterID c \<and>
     (\<exists>kind t i oid before delta after h actorID meta now.
        pg_uuid X tenantID = Some t \<and> pg_uuid X counterID = Some i \<and>
        counters db' = counters (record_mutation X kind t i oid before delta after h actorID meta now db))"

lemma mutation_effectI:
  assumes "pg_uuid X tenantID = Some t" "pg_uuid X counterID = Some i"
    "counters db' = counters (record_mutation X kind t i oid before delta after h actorID meta now db)"
  shows "mutation_effect X tenantID counterID db c db' (mem_Delete tenantID counterID c)"
  using assms unfolding mutation_effect_def by blast

lemma mutation_effect_same:
  "mutation_effect X tenantID counterID db c db c"
  "mutation_effect X tenantID counterID db c db (mem_Delete tenantID counterID c)"
  by (simp_all add: mutation_effect_def)

lemma increment_effect:
  assumes run: "incrementWithActor X f ctx e now newID tenantID counterID delta operationID actorID db (MemoryCache c) =
       (r, db', MemoryCache c')" and tx: "\<not> ctx_tx ctx" and f: "answered f"
  shows "mutation_effect X tenantID counterID db c db' c'"
proof -
  let ?oid = "if operationID = [] then newID else operationID"
  obtain res db1 where st: "incrementCounter X f ctx tenantID counterID delta ?oid
      (incrementRequestHash X tenantID counterID delta) actorID now db = (res, db1)" by fastforce
  show ?thesis
  proof (cases res)
    case (Inl err)
    with run st have "db' = db1" "c' = c" by (simp_all add: incrementWithActor_def Let_def)
    moreover have "db1 = db"
      by (rule BeginWrite_error [OF st [unfolded incrementCounter_def Inl] tx answered_commit [OF f]])
    ultimately show ?thesis by (simp add: mutation_effect_same)
  next
    case (Inr m)
    with run st have eqs: "db' = db1" "c' = mem_Delete tenantID counterID c"
      by (simp_all add: incrementWithActor_def Let_def)
    from BeginWrite_Inr [OF st [unfolded incrementCounter_def Inr]] show ?thesis unfolding eqs
      by (cases rule: incrementCounter_body_Inr) (simp_all add: mutation_effect_same mutation_effectI)
  qed
qed

lemma set_effect:
  assumes run: "setWithActor X f ctx e now newID tenantID counterID v operationID actorID db (MemoryCache c) =
       (r, db', MemoryCache c')" and tx: "\<not> ctx_tx ctx" and f: "answered f"
  shows "mutation_effect X tenantID counterID db c db' c'"
proof -
  let ?oid = "if operationID = [] then newID else operationID"
  obtain res db1 where st: "setCounterValueWithOperation X f ctx tenantID counterID v ?oid
      (setRequestHash X tenantID counterID v) actorID now db = (res, db1)" by fastforce
  show ?thesis
  proof (cases res)
    case (Inl err)
    with run st have "db' = db1" "c' = c" by (simp_all add: setWithActor_def Let_def)
    moreover have "db1 = db"
      by (rule BeginWrite_error [OF st [unfolded setCounterValueWithOperation_def Inl] tx answered_commit [OF f]])
    ultimately show ?thesis by (simp add: mutation_effect_same)
  next
    case (Inr m)
    with run st have eqs: "db' = db1" "c' = mem_Delete tenantID counterID c"
      by (simp_all add: setWithActor_def Let_def)
    from BeginWrite_Inr [OF st [unfolded setCounterValueWithOperation_def Inr]] show ?thesis unfolding eqs
    proof (cases rule: setCounterValue_body_Inr)
      case replay
      then show "mutation_effect X tenantID counterID db c db1 (mem_Delete tenantID counterID c)"
        by (simp add: mutation_effect_same)
    next
      case (fresh row oid evs)
      from fresh(8) have "counters db1 = counters (record_mutation X SetAdjustment (ctr_tenant_id row) (ctr_id row) oid
          (ctr_value row) (v - ctr_value row) v (setRequestHash X tenantID counterID v) actorID (requestMetadata ctx) now db)"
        by simp
      then show "mutation_effect X tenantID counterID db c db1 (mem_Delete tenantID counterID c)"
        by (rule mutation_effectI [OF fresh(2,3)])
    qed
  qed
qed

lemma coherent_effect:
  assumes "mutation_effect X tenantID counterID db c db' c'" "coherent db c" "plain X tenantID" "plain X counterID"
  shows "coherent db' c'"
  using assms(1) unfolding mutation_effect_def
proof (elim disjE conjE exE)
  assume "counters db' = counters db" "c' = c"
  with coherent_same_counters [OF assms(2)] show ?thesis by blast
next
  assume "counters db' = counters db" "c' = mem_Delete tenantID counterID c"
  with coherent_same_counters [OF coherent_delete [OF assms(2)]] show ?thesis by blast
next
  fix kind t i oid before delta after h actorID meta now
  assume "c' = mem_Delete tenantID counterID c" and ids: "pg_uuid X tenantID = Some t" "pg_uuid X counterID = Some i"
    and "counters db' = counters (record_mutation X kind t i oid before delta after h actorID meta now db)"
  with coherent_same_counters [OF coherent_invalidate [OF assms(2) ids(1) assms(3) ids(2) assms(4)]]
  show ?thesis by blast
qed

lemma CreateCounter_grows:
  assumes "CreateCounter X f ctx x db = (r, db')" "\<not> ctx_tx ctx"
  shows "set (counters db) \<subseteq> set (counters db')"
proof -
  from BeginWrite_atomic [OF assms(1) [unfolded CreateCounter_def] assms(2)]
  consider "db' = db" | u where "CreateCounter_body X f (AccessFromContext ctx) x db = (Inr u, db')" by blast
  then show ?thesis
  proof cases
    case 2
    then show ?thesis by (rule CreateCounter_body_Inr) auto
  qed simp
qed

lemma coherent_step:
  assumes "service_step X (db, c) (db', c')" "coherent db c"
  shows "coherent db' c'"
  using assms(1)
proof (cases rule: service_step.cases)
  case (step_get f ctx e tenantID counterID r)
  with coherent_get(1) [OF assms(2)] show ?thesis by blast
next
  case (step_increment f ctx e now newID tenantID counterID delta operationID actorID r)
  with coherent_effect [OF increment_effect assms(2)] show ?thesis by blast
next
  case (step_set f ctx e now newID tenantID counterID v operationID actorID r)
  with coherent_effect [OF set_effect assms(2)] show ?thesis by blast
next
  case (step_create f ctx now newID tenantID request r)
  then have "set (counters db) \<subseteq> set (counters db')"
    by (auto simp: Counter_Create_def Let_def split: sum.splits bool.splits prod.splits
        dest!: CreateCounter_grows)
  with step_create assms(2) show ?thesis unfolding coherent_def by blast
qed

lemma coherent_reachable:
  assumes "service_reachable X (db0, c0) (db, c)" "coherent db0 c0"
  shows "coherent db c"
  using assms(1) unfolding service_reachable_def
proof (induction "(db, c)" arbitrary: db c rule: rtranclp_induct)
  case base
  with assms(2) show ?case by simp
next
  case (step s)
  obtain db1 c1 where s: "s = (db1, c1)" by (cases s)
  with step coherent_step show ?case by metis
qed


section \<open>Where the cache is stale\<close>

lemma read_cached_alone:
  assumes new: "NewMemoryCounterReadCache maxSize ttl = Inr c0"
    and ids: "pg_uuid X tenantID = Some tenantID" "pg_uuid X i = Some i"
    and read: "Counter_Get X no_faults ctx e tenantID i db (MemoryCache c0) = (Inr x, cache1)"
  shows "cache1 = MemoryCache (mem_Set (ce_now e) x c0) \<and> mem_inv (mem_Set (ce_now e) x c0) \<and>
    mem_abs (mem_Set (ce_now e) x c0) = [(counterCacheKey tenantID i, x, ce_now e + ttl)] \<and>
    x \<in> set (counters db) \<and> ctr_tenant_id x = tenantID \<and> ctr_id x = i"
proof -
  have c0: "mem_inv c0" "mem_abs c0 = []" using mem_inv_new [OF new] by simp_all
  have size: "1 \<le> mc_maxSize c0" "mc_ttl c0 = ttl" "mc_items c0 = Map.empty"
    using new by (auto simp: NewMemoryCounterReadCache_def split: if_splits)
  have "mem_Get (ce_now e) tenantID i c0 = (None, c0)" by (simp add: mem_Get_def size(3))
  with read have "GetCounter X no_faults ctx tenantID i db = Inr x" and
      cache1: "cache1 = MemoryCache (mem_Set (ce_now e) x c0)"
    by (auto simp: Counter_Get_def split: sum.splits if_splits)
  then have "select_counter_stmt X (AccessFromContext ctx) tenantID i db = Inr x"
    by (auto simp: GetCounter_def split: sum.splits if_splits)
  note row = select_counter_stmt_Inr [OF this]
  then have xid: "ctr_tenant_id x = tenantID" "ctr_id x = i" using ids by auto
  have "mem_abs (mem_Set (ce_now e) x c0) = [(counterCacheKey tenantID i, x, ce_now e + ttl)]"
    using mem_Set_refines(1) [OF c0(1), of "ce_now e" x] c0(2) size xid by (simp add: spec_set_def)
  with cache1 row(1) xid mem_Set_refines(2) [OF c0(1)] show ?thesis by simp
qed

lemma respelled_increment_adds:
  assumes wf: "wf_database X db" and d: "in_int64 delta" and row: "x \<in> set (counters db)"
    and ids: "pg_uuid X spelled = Some (ctr_id x)"
    and inc: "incrementCounter X no_faults ctx tenantID spelled delta oid h actorID now db = (Inr r, db')"
    and applied: "\<not> mr_Replayed r"
  shows "counter_value db' (ctr_tenant_id x) (ctr_id x) = Some (ctr_value x + delta) \<and> 0 < delta"
proof -
  from BeginWrite_Inr [OF inc [unfolded incrementCounter_def]] show ?thesis
  proof (cases rule: incrementCounter_body_Inr)
    case replay
    with applied show ?thesis by simp
  next
    case (fresh row' oid)
    have x: "row' = x"
      by (rule distinct_map_eq [OF wf_databaseD(1) [OF wf] fresh(1) row]) (use fresh(3) ids in simp)
    have "in_int64 (ctr_value x)" using wf_databaseD(3) [OF wf row] by (simp add: counter_ok_def)
    then have "wrap64 (ctr_value row' + delta) = ctr_value x + delta"
      using increment_no_overflow fresh(7,9) d x by auto
    moreover have "counter_value db (ctr_tenant_id x) (ctr_id x) = Some (ctr_value x)"
      using find_counter_row [OF wf row] by (simp add: counter_value_def)
    ultimately show ?thesis using fresh(7,10) x by (simp add: counter_value_record)
  qed
qed

text \<open>
  C37. A stale read. When a counter is read under its canonical ID and then incremented through
  another spelling that PostgreSQL accepts for it (without hyphens, in braces), the increment
  invalidates another key, so the next read returns the old counter until the entry expires,
  although the increment was acknowledged.
\<close>

theorem service_stale_after_respelled_increment:
  assumes new: "NewMemoryCounterReadCache maxSize ttl = Inr c0"
    and wf: "wf_database X db" and tx: "\<not> ctx_tx ctx"
    and ids: "pg_uuid X tenantID = Some tenantID" "pg_uuid X i = Some i" "pg_uuid X spelled = Some i"
    and differs: "to_lower spelled \<noteq> to_lower i"
    and read: "Counter_Get X no_faults ctx e tenantID i db (MemoryCache c0) = (Inr x, cache1)"
    and inc: "incrementWithActor X no_faults ctx e' now newID tenantID spelled delta operationID actorID db cache1 =
      (Inr m, db', cache2)" and applied: "\<not> cm_Replayed m" and d: "in_int64 delta"
    and soon: "ce_now e'' < ce_now e + ttl"
  shows "fst (Counter_Get X f ctx' e'' tenantID i db' cache2) = Inr x \<and>
    counter_value db' tenantID i = Some (ctr_value x + delta) \<and> 0 < delta"
proof -
  let ?k = "counterCacheKey tenantID i" and ?c1 = "mem_Set (ce_now e) x c0"
  note c1 = read_cached_alone [OF new ids(1,2) read]
  obtain res db1 where st: "incrementCounter X no_faults ctx tenantID spelled delta
      (if operationID = [] then newID else operationID) (incrementRequestHash X tenantID spelled delta) actorID now db =
      (res, db1)" by fastforce
  with inc c1 obtain mr where mr: "res = Inr mr" "m = mutation_response spelled mr" "db' = db1"
      "cache2 = MemoryCache (mem_Delete tenantID spelled ?c1)"
    by (cases res) (auto simp: incrementWithActor_def Let_def)
  have inv: "mem_inv ?c1" using c1 by blast
  have "counterCacheKey tenantID spelled \<noteq> ?k" using differs by (simp add: counterCacheKey_def)
  then have "mem_abs (mem_Delete tenantID spelled ?c1) = [(?k, x, ce_now e + ttl)]"
    using mem_Delete_refines(1) [OF inv] c1 by (simp add: spec_del_def)
  then have "fst (mem_Get (ce_now e'') tenantID i (mem_Delete tenantID spelled ?c1)) = Some x"
    using mem_Get_refines(1) [OF mem_Delete_refines(2) [OF inv]] soon by (simp add: spec_get_def)
  then have "fst (Counter_Get X f ctx' e'' tenantID i db' cache2) = Inr x"
    by (auto simp: Counter_Get_def mr(4) split: prod.splits)
  moreover have "counter_value db' tenantID i = Some (ctr_value x + delta) \<and> 0 < delta"
    using respelled_increment_adds [OF wf d _ _ st [unfolded mr(1)], of x] c1 ids(3) applied mr(2,3)
    by (simp add: mutation_response_def)
  ultimately show ?thesis by blast
qed

text \<open>PostgreSQL's reading of an identifier in braces.\<close>

definition sample_ext_braces :: externals where
  "sample_ext_braces = sample_ext\<lparr>pg_uuid := (\<lambda>s.
     let u = filter (\<lambda>c. c \<noteq> CHR ''{'' \<and> c \<noteq> CHR ''}'') s in if u = [] then None else Some (to_lower u))\<rparr>"

definition env_at :: "time \<Rightarrow> cache_env" where
  "env_at t = \<lparr>ce_now = t, ce_redis = redis_at (t div 1000)\<rparr>"

abbreviation sample_read :: "(go_error + counter) \<times> cache_impl" where
  "sample_read \<equiv> Counter_Get sample_ext_braces no_faults sample_ctx (env_at 10) ''t1'' ''c1'' sample_db (MemoryCache sample_mem)"

abbreviation sample_respelled :: "(go_error + counter_mutation) \<times> database \<times> cache_impl" where
  "sample_respelled \<equiv> incrementWithActor sample_ext_braces no_faults sample_ctx (env_at 20) 20 ''k9'' ''t1'' ''{c1}'' 5
     ''k1'' ''p1'' sample_db (snd sample_read)"

theorem service_stale_after_respelled_increment_witness:
  "fst (Counter_Get sample_ext_braces no_faults sample_ctx (env_at 30) ''t1'' ''c1''
      (fst (snd sample_respelled)) (snd (snd sample_respelled))) = Inr sample_counter \<and>
   counter_value (fst (snd sample_respelled)) ''t1'' ''c1'' = Some 15"
proof -
  have wf: "wf_database sample_ext_braces sample_db" by code_simp
  have ids: "pg_uuid sample_ext_braces ''t1'' = Some ''t1''" "pg_uuid sample_ext_braces ''c1'' = Some ''c1''"
    "pg_uuid sample_ext_braces ''{c1}'' = Some ''c1''" "to_lower ''{c1}'' \<noteq> to_lower ''c1''" by code_simp+
  have read: "sample_read = (Inr sample_counter, snd sample_read)" by (rule prod_eqI) (code_simp, simp)
  have inc: "sample_respelled = (Inr \<lparr>cm_OperationID = ''k1'', cm_CounterID = ''{c1}'', cm_Delta = 5, cm_Value = 15,
      cm_UpdatedAt = 20, cm_Replayed = False\<rparr>, fst (snd sample_respelled), snd (snd sample_respelled))"
    by (intro prod_eqI) (code_simp, simp_all)
  have v: "ctr_value sample_counter + 5 = 15" by code_simp
  have "ce_now (env_at 30) < ce_now (env_at 10) + 100" by code_simp
  from service_stale_after_respelled_increment [OF sample_mem_new wf sample_no_tx ids read inc _ in_int64_5 this] v
  show ?thesis by simp
qed

abbreviation sample_plain :: "(go_error + counter_mutation) \<times> database \<times> cache_impl" where
  "sample_plain \<equiv> incrementWithActor sample_ext no_faults sample_ctx (env_at 20) 20 ''k9'' ''t1'' ''c1'' 5
     ''k1'' ''p1'' sample_db (MemoryCache sample_mem)"


end
