(* ===== verification/Rate_Limit.thy ===== *)
theory Rate_Limit
  imports Complex_Main Text "HOL-Library.AList"
begin

text \<open>
  The rate limiter of \<open>internal/middleware/ratelimit.go\<close>: token buckets for reads and for writes per
  client, their store and its cleanup, and the decision of the middleware. What both halves of a
  bucket promise is the locale \<open>token_side\<close>; the bound on the number of requests let through is
  proved there once and interpreted for reads and for writes.
\<close>

section \<open>Token buckets\<close>

record token_bucket =
  tb_postTokens :: int64
  tb_getTokens :: int64
  tb_maxPostTokens :: int64
  tb_maxGetTokens :: int64
  tb_postRefillRate :: int64
  tb_getRefillRate :: int64
  tb_lastRefill :: time
  tb_getLastRefill :: time
  tb_window :: duration

definition refillInterval :: "duration \<Rightarrow> int64 \<Rightarrow> duration" where
  "refillInterval window refillRate =
     (if refillRate \<le> 0 then window
      else (let interval = go_div window refillRate in if interval < 1 then 1 else interval))"

definition refillPost :: "time \<Rightarrow> duration \<Rightarrow> token_bucket \<Rightarrow> token_bucket" where
  "refillPost now window tb =
     (if tb_postRefillRate tb \<le> 0 then tb
      else
        (let interval = refillInterval window (tb_postRefillRate tb);
             elapsed = time_Sub now (tb_lastRefill tb)
         in if elapsed < interval then tb
            else
              (let amount = go_div elapsed interval;
                   tokens = wrap64 (tb_postTokens tb + amount)
               in tb\<lparr>tb_postTokens := (if tokens > tb_maxPostTokens tb then tb_maxPostTokens tb else tokens),
                     tb_lastRefill := tb_lastRefill tb + wrap64 (amount * interval)\<rparr>)))"

definition refillGet :: "time \<Rightarrow> duration \<Rightarrow> token_bucket \<Rightarrow> token_bucket" where
  "refillGet now window tb =
     (if tb_getRefillRate tb \<le> 0 then tb
      else
        (let lastRefill = (if tb_getLastRefill tb = zero_time then tb_lastRefill tb else tb_getLastRefill tb);
             interval = refillInterval window (tb_getRefillRate tb);
             elapsed = time_Sub now lastRefill
         in if elapsed < interval then tb
            else
              (let amount = go_div elapsed interval;
                   tokens = wrap64 (tb_getTokens tb + amount)
               in tb\<lparr>tb_getTokens := (if tokens > tb_maxGetTokens tb then tb_maxGetTokens tb else tokens),
                     tb_getLastRefill := lastRefill + wrap64 (amount * interval)\<rparr>)))"

definition retryAfter :: "bool \<Rightarrow> time \<Rightarrow> duration \<Rightarrow> token_bucket \<Rightarrow> int64" where
  "retryAfter isGet now window tb =
     (let tokens = (if isGet then tb_getTokens tb else tb_postTokens tb);
          refillRate = (if isGet then tb_getRefillRate tb else tb_postRefillRate tb);
          lastRefill = (if isGet \<and> tb_getLastRefill tb \<noteq> zero_time then tb_getLastRefill tb else tb_lastRefill tb)
      in if tokens > 0 \<or> refillRate \<le> 0 then 1
         else
           (let r = wrap64 (refillInterval window refillRate - time_Sub now lastRefill);
                remaining = (if r < 0 then 0 else r)
            in go_div (wrap64 (remaining + time_Second - 1)) time_Second))"

definition bucket_window :: "token_bucket \<Rightarrow> duration" where
  "bucket_window tb = (if tb_window tb = 0 then time_Second else tb_window tb)"

definition allowRequest :: "bool \<Rightarrow> time \<Rightarrow> token_bucket \<Rightarrow> (bool \<times> int64) \<times> token_bucket" where
  "allowRequest isGet now tb =
     (let window = bucket_window tb;
          tb1 = (if isGet then refillGet now window tb else refillPost now window tb)
      in if isGet
         then (if tb_getTokens tb1 > 0 then ((True, 0), tb1\<lparr>tb_getTokens := tb_getTokens tb1 - 1\<rparr>)
               else ((False, retryAfter isGet now window tb1), tb1))
         else (if tb_postTokens tb1 > 0 then ((True, 0), tb1\<lparr>tb_postTokens := tb_postTokens tb1 - 1\<rparr>)
               else ((False, retryAfter isGet now window tb1), tb1)))"

section \<open>The contract of one half of a bucket\<close>

text \<open>A run of attempts of this half (\<open>True\<close>) and of the other, with the number let through.\<close>

fun side_run :: "(time \<Rightarrow> 'b \<Rightarrow> bool \<times> 'b) \<Rightarrow> (time \<Rightarrow> 'b \<Rightarrow> 'b) \<Rightarrow> (time \<times> bool) list \<Rightarrow> 'b \<Rightarrow> nat" where
  "side_run attempt other [] b = 0"
| "side_run attempt other ((now, mine) # rest) b =
     (if mine
      then (if fst (attempt now b) then 1 else 0) + side_run attempt other rest (snd (attempt now b))
      else side_run attempt other rest (other now b))"

text \<open>
  Taking a token refills by some number \<open>n\<close> of intervals, which never reaches past the present, and
  lets a request through only for a token. The other half leaves this one alone.
\<close>

locale token_side =
  fixes inv :: "'b \<Rightarrow> bool"
    and tokens :: "'b \<Rightarrow> int"
    and since :: "'b \<Rightarrow> time"
    and interval :: "'b \<Rightarrow> duration"
    and attempt :: "time \<Rightarrow> 'b \<Rightarrow> bool \<times> 'b"
    and other :: "time \<Rightarrow> 'b \<Rightarrow> 'b"
  assumes attempt_inv: "inv b \<Longrightarrow> inv (snd (attempt now b))"
    and other_inv: "inv b \<Longrightarrow> inv (other now b)"
    and interval_pos: "inv b \<Longrightarrow> 0 < interval b"
    and attempt_interval: "inv b \<Longrightarrow> interval (snd (attempt now b)) = interval b"
    and other_same: "inv b \<Longrightarrow> interval (other now b) = interval b \<and> tokens (other now b) = tokens b \<and>
      since (other now b) = since b"
    and attempt_refill: "inv b \<Longrightarrow> \<exists>n \<ge> 0. since (snd (attempt now b)) = since b + n * interval b \<and>
      (n = 0 \<or> since (snd (attempt now b)) \<le> now) \<and>
      tokens (snd (attempt now b)) + (if fst (attempt now b) then 1 else 0) \<le> tokens b + n"
    and attempt_needs: "inv b \<Longrightarrow> fst (attempt now b) \<Longrightarrow> 0 \<le> tokens (snd (attempt now b))"
begin

lemma run_bound_steps:
  assumes "inv b" "\<forall>r \<in> set reqs. fst r \<le> T" "since b \<le> T"
  shows "\<exists>m \<ge> 0. since b + m * interval b \<le> T \<and>
    (0 < side_run attempt other reqs b \<longrightarrow> int (side_run attempt other reqs b) \<le> tokens b + m)"
  using assms
proof (induction reqs arbitrary: b)
  case Nil
  then show ?case by (intro exI [of _ 0]) simp
next
  case (Cons r reqs)
  obtain now mine where r: "r = (now, mine)" by (cases r)
  show ?case
  proof (cases mine)
    case False
    note o = other_same [OF Cons.prems(1), of now]
    from Cons.IH [OF other_inv [OF Cons.prems(1), of now]] Cons.prems o
    show ?thesis by (simp add: r False)
  next
    case True
    let ?b = "snd (attempt now b)"
    obtain n where n: "0 \<le> n" "since ?b = since b + n * interval b" "n = 0 \<or> since ?b \<le> now"
      "tokens ?b + (if fst (attempt now b) then 1 else 0) \<le> tokens b + n"
      using attempt_refill [OF Cons.prems(1), of now] by blast
    have rest: "\<forall>r \<in> set reqs. fst r \<le> T" and now: "now \<le> T" using Cons.prems(2) r by simp_all
    have "since ?b \<le> T" using n(2,3) now Cons.prems(3) by auto
    from Cons.IH [OF attempt_inv [OF Cons.prems(1), of now] rest this]
    obtain m where "0 \<le> m \<and> since ?b + m * interval ?b \<le> T \<and>
      (0 < side_run attempt other reqs ?b \<longrightarrow> int (side_run attempt other reqs ?b) \<le> tokens ?b + m)" ..
    then have m: "0 \<le> m" "since ?b + m * interval b \<le> T"
      "0 < side_run attempt other reqs ?b \<longrightarrow> int (side_run attempt other reqs ?b) \<le> tokens ?b + m"
      unfolding attempt_interval [OF Cons.prems(1), of now] by simp_all
    have "since b + (n + m) * interval b \<le> T" using n(2) m(2) by (simp add: algebra_simps)
    moreover have "0 < side_run attempt other (r # reqs) b \<longrightarrow>
        int (side_run attempt other (r # reqs) b) \<le> tokens b + (n + m)"
      using n(1,4) m(1,3) attempt_needs [OF Cons.prems(1), of now]
      by (cases "side_run attempt other reqs ?b = 0") (auto simp: r True split: if_splits)
    ultimately show ?thesis using n(1) m(1) by (intro exI [of _ "n + m"]) simp
  qed
qed

lemma run_bound:
  assumes "inv b" "\<forall>r \<in> set reqs. fst r \<le> T" "since b \<le> T" "0 \<le> tokens b"
  shows "int (side_run attempt other reqs b) \<le> tokens b + (T - since b) div interval b"
proof -
  from run_bound_steps [OF assms(1-3)] obtain m where "0 \<le> m \<and> since b + m * interval b \<le> T \<and>
    (0 < side_run attempt other reqs b \<longrightarrow> int (side_run attempt other reqs b) \<le> tokens b + m)" ..
  then have m: "0 \<le> m" "since b + m * interval b \<le> T"
    "0 < side_run attempt other reqs b \<longrightarrow> int (side_run attempt other reqs b) \<le> tokens b + m" by simp_all
  have "m \<le> (T - since b) div interval b"
    using m(2) interval_pos [OF assms(1)] zdiv_mono1 [of "m * interval b" "T - since b" "interval b"] by simp
  with m assms(4) show ?thesis by (cases "side_run attempt other reqs b = 0") auto
qed

end

section \<open>Reads and writes\<close>

definition get_attempt :: "time \<Rightarrow> token_bucket \<Rightarrow> bool \<times> token_bucket" where
  "get_attempt now tb = (fst (fst (allowRequest True now tb)), snd (allowRequest True now tb))"

definition post_attempt :: "time \<Rightarrow> token_bucket \<Rightarrow> bool \<times> token_bucket" where
  "post_attempt now tb = (fst (fst (allowRequest False now tb)), snd (allowRequest False now tb))"

definition bucket_inv :: "token_bucket \<Rightarrow> bool" where
  "bucket_inv tb \<longleftrightarrow> in_int64 (tb_postTokens tb) \<and> in_int64 (tb_getTokens tb) \<and>
     in_int64 (tb_maxPostTokens tb) \<and> in_int64 (tb_maxGetTokens tb) \<and>
     in_int64 (tb_postRefillRate tb) \<and> in_int64 (tb_getRefillRate tb) \<and> in_int64 (tb_window tb) \<and>
     zero_time < tb_getLastRefill tb"

lemma wrap64_le: "minInt64 \<le> x \<Longrightarrow> wrap64 x \<le> x"
proof (cases "x \<le> maxInt64")
  case True
  assume "minInt64 \<le> x"
  with True show ?thesis by (simp add: in_int64_def)
next
  case False
  have "in_int64 (wrap64 x)" by simp
  with False show ?thesis by (simp add: in_int64_def)
qed

lemma refillInterval_pos: "0 < rate \<Longrightarrow> 0 < refillInterval window rate"
  by (simp add: refillInterval_def Let_def)

text \<open>The arithmetic of a refill.\<close>

lemma refill_amount:
  assumes "0 < interval" "interval \<le> time_Sub now lst"
  shows "1 \<le> go_div (time_Sub now lst) interval"
    and "wrap64 (go_div (time_Sub now lst) interval * interval) = go_div (time_Sub now lst) interval * interval"
    and "lst + go_div (time_Sub now lst) interval * interval \<le> now"
    and "go_div (time_Sub now lst) interval = time_Sub now lst div interval"
proof -
  let ?e = "time_Sub now lst"
  have e: "0 < ?e" "?e \<le> maxInt64" "?e \<le> now - lst"
    using assms time_Sub_in_range [of now lst]
    by (auto simp: in_int64_def time_Sub_def minInt64_def maxInt64_def)
  show d: "go_div ?e interval = ?e div interval" using e assms(1) by (simp add: go_div_nonneg)
  show "1 \<le> go_div ?e interval" unfolding d using assms zdiv_mono1 [of interval ?e interval] by simp
  have p: "?e div interval * interval \<le> ?e" using assms(1) by (simp add: minus_mod_eq_div_mult [symmetric])
  have "0 \<le> ?e div interval * interval" using e assms(1) by (simp add: pos_imp_zdiv_nonneg_iff)
  with p e show "wrap64 (go_div ?e interval * interval) = go_div ?e interval * interval"
    unfolding d by (intro wrap64_id) (simp add: in_int64_def minInt64_def)
  show "lst + go_div ?e interval * interval \<le> now" unfolding d using p e by linarith
qed

definition get_interval :: "token_bucket \<Rightarrow> duration" where
  "get_interval tb = (if tb_getRefillRate tb \<le> 0 then 1 else refillInterval (bucket_window tb) (tb_getRefillRate tb))"

definition post_interval :: "token_bucket \<Rightarrow> duration" where
  "post_interval tb = (if tb_postRefillRate tb \<le> 0 then 1 else refillInterval (bucket_window tb) (tb_postRefillRate tb))"

text \<open>What a refill does to its half, as \<open>n\<close> intervals.\<close>

lemma refillGet_effect:
  assumes "bucket_inv tb"
  obtains n t where "refillGet now (bucket_window tb) tb = tb\<lparr>tb_getTokens := t, tb_getLastRefill := tb_getLastRefill tb + n * get_interval tb\<rparr>"
    "0 \<le> n" "n = 0 \<or> tb_getLastRefill tb + n * get_interval tb \<le> now" "t \<le> tb_getTokens tb + n" "in_int64 t"
proof (cases "tb_getRefillRate tb \<le> 0 \<or> time_Sub now (tb_getLastRefill tb) < get_interval tb")
  case True
  then have "refillGet now (bucket_window tb) tb = tb"
    using assms by (auto simp: refillGet_def get_interval_def bucket_inv_def Let_def)
  with that [of 0 "tb_getTokens tb"] assms show thesis by (simp add: bucket_inv_def)
next
  case False
  let ?a = "go_div (time_Sub now (tb_getLastRefill tb)) (get_interval tb)"
  have iv: "get_interval tb = refillInterval (bucket_window tb) (tb_getRefillRate tb)" "0 < get_interval tb"
    using False refillInterval_pos by (auto simp: get_interval_def)
  note r = refill_amount [OF iv(2), of now "tb_getLastRefill tb"]
  let ?t = "if wrap64 (tb_getTokens tb + ?a) > tb_maxGetTokens tb then tb_maxGetTokens tb else wrap64 (tb_getTokens tb + ?a)"
  have eq: "refillGet now (bucket_window tb) tb = tb\<lparr>tb_getTokens := ?t, tb_getLastRefill := tb_getLastRefill tb + ?a * get_interval tb\<rparr>"
    using False assms r(2) by (auto simp: refillGet_def iv(1) [symmetric] bucket_inv_def Let_def)
  have "minInt64 \<le> tb_getTokens tb + ?a" using r(1) False assms by (auto simp: bucket_inv_def in_int64_def)
  from wrap64_le [OF this] have t: "?t \<le> tb_getTokens tb + ?a" by auto
  have a0: "0 \<le> ?a" and past: "?a = 0 \<or> tb_getLastRefill tb + ?a * get_interval tb \<le> now"
    using r(1,3) False by auto
  have "in_int64 ?t" using assms by (simp add: bucket_inv_def)
  with that [OF eq a0 past t] show thesis by blast
qed

lemma refillPost_effect:
  assumes "bucket_inv tb"
  obtains n t where "refillPost now (bucket_window tb) tb = tb\<lparr>tb_postTokens := t, tb_lastRefill := tb_lastRefill tb + n * post_interval tb\<rparr>"
    "0 \<le> n" "n = 0 \<or> tb_lastRefill tb + n * post_interval tb \<le> now" "t \<le> tb_postTokens tb + n" "in_int64 t"
proof (cases "tb_postRefillRate tb \<le> 0 \<or> time_Sub now (tb_lastRefill tb) < post_interval tb")
  case True
  then have "refillPost now (bucket_window tb) tb = tb"
    by (auto simp: refillPost_def post_interval_def Let_def)
  with that [of 0 "tb_postTokens tb"] assms show thesis by (simp add: bucket_inv_def)
next
  case False
  let ?a = "go_div (time_Sub now (tb_lastRefill tb)) (post_interval tb)"
  have iv: "post_interval tb = refillInterval (bucket_window tb) (tb_postRefillRate tb)" "0 < post_interval tb"
    using False refillInterval_pos by (auto simp: post_interval_def)
  note r = refill_amount [OF iv(2), of now "tb_lastRefill tb"]
  let ?t = "if wrap64 (tb_postTokens tb + ?a) > tb_maxPostTokens tb then tb_maxPostTokens tb else wrap64 (tb_postTokens tb + ?a)"
  have eq: "refillPost now (bucket_window tb) tb = tb\<lparr>tb_postTokens := ?t, tb_lastRefill := tb_lastRefill tb + ?a * post_interval tb\<rparr>"
    using False assms r(2) by (auto simp: refillPost_def iv(1) [symmetric] bucket_inv_def Let_def)
  have "minInt64 \<le> tb_postTokens tb + ?a" using r(1) False assms by (auto simp: bucket_inv_def in_int64_def)
  from wrap64_le [OF this] have t: "?t \<le> tb_postTokens tb + ?a" by auto
  have a0: "0 \<le> ?a" and past: "?a = 0 \<or> tb_lastRefill tb + ?a * post_interval tb \<le> now"
    using r(1,3) False by auto
  have "in_int64 ?t" using assms by (simp add: bucket_inv_def)
  with that [OF eq a0 past t] show thesis by blast
qed

text \<open>An attempt, on each half.\<close>

lemma get_attempt_effect:
  assumes "bucket_inv tb"
  obtains n t ok where "get_attempt now tb = (ok, tb\<lparr>tb_getTokens := t, tb_getLastRefill := tb_getLastRefill tb + n * get_interval tb\<rparr>)"
    "0 \<le> n" "n = 0 \<or> tb_getLastRefill tb + n * get_interval tb \<le> now"
    "t + (if ok then 1 else 0) \<le> tb_getTokens tb + n" "in_int64 t" "ok \<Longrightarrow> 0 \<le> t"
proof (rule refillGet_effect [OF assms, of now])
  fix n t
  assume h: "refillGet now (bucket_window tb) tb = tb\<lparr>tb_getTokens := t, tb_getLastRefill := tb_getLastRefill tb + n * get_interval tb\<rparr>"
    "0 \<le> n" "n = 0 \<or> tb_getLastRefill tb + n * get_interval tb \<le> now" "t \<le> tb_getTokens tb + n" "in_int64 t"
  show thesis
  proof (cases "0 < t")
    case True
    have "in_int64 (t - 1)" using True h(5) by (simp add: in_int64_def minInt64_def)
    with True h show thesis
      by (intro that [of True n "t - 1"]) (simp_all add: get_attempt_def allowRequest_def Let_def)
  next
    case False
    with h show thesis
      by (intro that [of False n t]) (simp_all add: get_attempt_def allowRequest_def Let_def)
  qed
qed

lemma post_attempt_effect:
  assumes "bucket_inv tb"
  obtains n t ok where "post_attempt now tb = (ok, tb\<lparr>tb_postTokens := t, tb_lastRefill := tb_lastRefill tb + n * post_interval tb\<rparr>)"
    "0 \<le> n" "n = 0 \<or> tb_lastRefill tb + n * post_interval tb \<le> now"
    "t + (if ok then 1 else 0) \<le> tb_postTokens tb + n" "in_int64 t" "ok \<Longrightarrow> 0 \<le> t"
proof (rule refillPost_effect [OF assms, of now])
  fix n t
  assume h: "refillPost now (bucket_window tb) tb = tb\<lparr>tb_postTokens := t, tb_lastRefill := tb_lastRefill tb + n * post_interval tb\<rparr>"
    "0 \<le> n" "n = 0 \<or> tb_lastRefill tb + n * post_interval tb \<le> now" "t \<le> tb_postTokens tb + n" "in_int64 t"
  show thesis
  proof (cases "0 < t")
    case True
    have "in_int64 (t - 1)" using True h(5) by (simp add: in_int64_def minInt64_def)
    with True h show thesis
      by (intro that [of True n "t - 1"]) (simp_all add: post_attempt_def allowRequest_def Let_def)
  next
    case False
    with h show thesis
      by (intro that [of False n t]) (simp_all add: post_attempt_def allowRequest_def Let_def)
  qed
qed

lemma bucket_interval_pos: "0 < get_interval tb" "0 < post_interval tb"
  by (auto simp: get_interval_def post_interval_def refillInterval_pos)

lemma get_attempt_inv:
  assumes inv: "bucket_inv tb"
  shows "bucket_inv (snd (get_attempt now tb)) \<and>
    get_interval (snd (get_attempt now tb)) = get_interval tb \<and> post_interval (snd (get_attempt now tb)) = post_interval tb \<and>
    tb_postTokens (snd (get_attempt now tb)) = tb_postTokens tb \<and> tb_lastRefill (snd (get_attempt now tb)) = tb_lastRefill tb"
proof (rule get_attempt_effect [OF inv, of now])
  fix n t ok
  assume h: "get_attempt now tb = (ok, tb\<lparr>tb_getTokens := t, tb_getLastRefill := tb_getLastRefill tb + n * get_interval tb\<rparr>)"
    "0 \<le> n" "in_int64 t"
  have "0 \<le> n * get_interval tb" using h(2) bucket_interval_pos(1) [of tb] by simp
  with inv h show ?thesis by (simp add: bucket_inv_def get_interval_def post_interval_def bucket_window_def)
qed

lemma post_attempt_inv:
  assumes inv: "bucket_inv tb"
  shows "bucket_inv (snd (post_attempt now tb)) \<and>
    get_interval (snd (post_attempt now tb)) = get_interval tb \<and> post_interval (snd (post_attempt now tb)) = post_interval tb \<and>
    tb_getTokens (snd (post_attempt now tb)) = tb_getTokens tb \<and> tb_getLastRefill (snd (post_attempt now tb)) = tb_getLastRefill tb"
proof (rule post_attempt_effect [OF inv, of now])
  fix n t ok
  assume h: "post_attempt now tb = (ok, tb\<lparr>tb_postTokens := t, tb_lastRefill := tb_lastRefill tb + n * post_interval tb\<rparr>)"
    "in_int64 t"
  with inv show ?thesis by (simp add: bucket_inv_def get_interval_def post_interval_def bucket_window_def)
qed

interpretation reads: token_side bucket_inv tb_getTokens tb_getLastRefill get_interval get_attempt
  "\<lambda>now tb. snd (post_attempt now tb)"
proof
  fix now tb
  assume inv: "bucket_inv tb"
  show "\<exists>n \<ge> 0. tb_getLastRefill (snd (get_attempt now tb)) = tb_getLastRefill tb + n * get_interval tb \<and>
      (n = 0 \<or> tb_getLastRefill (snd (get_attempt now tb)) \<le> now) \<and>
      tb_getTokens (snd (get_attempt now tb)) + (if fst (get_attempt now tb) then 1 else 0) \<le> tb_getTokens tb + n"
    by (rule get_attempt_effect [OF inv, of now]) auto
  show "0 \<le> tb_getTokens (snd (get_attempt now tb))" if "fst (get_attempt now tb)"
    by (rule get_attempt_effect [OF inv, of now]) (use that in auto)
qed (simp_all add: get_attempt_inv post_attempt_inv bucket_interval_pos)

interpretation writes: token_side bucket_inv tb_postTokens tb_lastRefill post_interval post_attempt
  "\<lambda>now tb. snd (get_attempt now tb)"
proof
  fix now tb
  assume inv: "bucket_inv tb"
  show "\<exists>n \<ge> 0. tb_lastRefill (snd (post_attempt now tb)) = tb_lastRefill tb + n * post_interval tb \<and>
      (n = 0 \<or> tb_lastRefill (snd (post_attempt now tb)) \<le> now) \<and>
      tb_postTokens (snd (post_attempt now tb)) + (if fst (post_attempt now tb) then 1 else 0) \<le> tb_postTokens tb + n"
    by (rule post_attempt_effect [OF inv, of now]) auto
  show "0 \<le> tb_postTokens (snd (post_attempt now tb))" if "fst (post_attempt now tb)"
    by (rule post_attempt_effect [OF inv, of now]) (use that in auto)
qed (simp_all add: get_attempt_inv post_attempt_inv bucket_interval_pos)

section \<open>The rate\<close>

text \<open>How many requests of a kind a sequence of requests gets through a bucket.\<close>

fun allowed_count :: "bool \<Rightarrow> (time \<times> bool) list \<Rightarrow> token_bucket \<Rightarrow> nat" where
  "allowed_count kind [] tb = 0"
| "allowed_count kind ((now, isGet) # rest) tb =
     (let ((ok, _), tb') = allowRequest isGet now tb
      in (if ok \<and> isGet = kind then 1 else 0) + allowed_count kind rest tb')"

lemma allowed_count_reads:
  "allowed_count True reqs tb = side_run get_attempt (\<lambda>now tb. snd (post_attempt now tb)) reqs tb"
  by (induction True reqs tb rule: allowed_count.induct)
    (auto simp: get_attempt_def post_attempt_def split: prod.splits)

lemma allowed_count_writes:
  "allowed_count False reqs tb =
     side_run post_attempt (\<lambda>now tb. snd (get_attempt now tb)) (map (apsnd Not) reqs) tb"
  by (induction False reqs tb rule: allowed_count.induct)
    (auto simp: get_attempt_def post_attempt_def split: prod.splits)

text \<open>
  C12. The rate limit. Whatever requests a client sends, in any mixture and order of times, the number
  of its reads and of its writes let through up to time \<open>T\<close> is at most the tokens it had plus one for
  every full refill interval since its last refill; the two halves do not affect each other.
\<close>

theorem rate_limit_bound:
  assumes inv: "bucket_inv tb" and T: "\<forall>r \<in> set reqs. fst r \<le> T"
    and start: "tb_getLastRefill tb \<le> T" "tb_lastRefill tb \<le> T" "0 \<le> tb_getTokens tb" "0 \<le> tb_postTokens tb"
  shows "int (allowed_count True reqs tb) \<le> tb_getTokens tb + (T - tb_getLastRefill tb) div get_interval tb \<and>
    int (allowed_count False reqs tb) \<le> tb_postTokens tb + (T - tb_lastRefill tb) div post_interval tb"
proof
  show "int (allowed_count True reqs tb) \<le> tb_getTokens tb + (T - tb_getLastRefill tb) div get_interval tb"
    unfolding allowed_count_reads by (rule reads.run_bound [OF inv T start(1,3)])
  have "\<forall>r \<in> set (map (apsnd Not) reqs). fst r \<le> T" using T by auto
  then show "int (allowed_count False reqs tb) \<le> tb_postTokens tb + (T - tb_lastRefill tb) div post_interval tb"
    unfolding allowed_count_writes by (rule writes.run_bound [OF inv _ start(2,4)])
qed

section \<open>The advice to retry\<close>

lemma refillInterval_le: "0 < rate \<Longrightarrow> refillInterval window rate \<le> max 1 window"
proof -
  assume "0 < rate"
  have "go_div window rate \<le> max 1 window"
  proof (cases "0 \<le> window")
    case True
    then have "go_div window rate = window div rate" using \<open>0 < rate\<close> by (simp add: go_div_nonneg)
    also have "\<dots> \<le> window" using True \<open>0 < rate\<close> zdiv_mono2 [of window 1 rate] by simp
    finally show ?thesis by simp
  next
    case False
    then have "go_div window rate \<le> 0"
      using \<open>0 < rate\<close> by (simp add: go_div_def mult_nonpos_nonneg pos_imp_zdiv_nonneg_iff)
    then show ?thesis by simp
  qed
  with \<open>0 < rate\<close> show ?thesis by (simp add: refillInterval_def Let_def)
qed

text \<open>The number of seconds covers what is missing of the interval.\<close>

lemma retry_covers:
  assumes "lst \<le> now" "now - lst < interval" "interval \<le> maxInt64 - time_Second"
  shows "interval \<le> now + go_div (wrap64 ((if wrap64 (interval - time_Sub now lst) < 0 then 0
      else wrap64 (interval - time_Sub now lst)) + time_Second - 1)) time_Second * time_Second - lst"
proof -
  have e: "time_Sub now lst = now - lst"
    using assms by (intro time_Sub_exact) (auto simp: in_int64_def minInt64_def maxInt64_def)
  let ?r = "interval - (now - lst)"
  have r: "wrap64 ?r = ?r" "0 < ?r" using assms by (simp_all add: in_int64_def minInt64_def maxInt64_def)
  have w: "wrap64 (?r + time_Second - 1) = ?r + time_Second - 1"
    using assms by (intro wrap64_id) (auto simp: in_int64_def minInt64_def maxInt64_def)
  have "go_div (?r + time_Second - 1) time_Second = (?r + time_Second - 1) div time_Second"
    using r(2) by (intro go_div_nonneg) auto
  moreover have "?r \<le> (?r + time_Second - 1) div time_Second * time_Second" by linarith
  ultimately show ?thesis using e r w by simp
qed

lemma refillPost_remainder:
  assumes "tb_lastRefill tb \<le> now" "now - tb_lastRefill tb \<le> maxInt64" "0 < tb_postRefillRate tb"
  shows "tb_lastRefill (refillPost now (bucket_window tb) tb) \<le> now"
    and "now - tb_lastRefill (refillPost now (bucket_window tb) tb) < post_interval tb"
proof -
  have e: "time_Sub now (tb_lastRefill tb) = now - tb_lastRefill tb"
    using assms by (intro time_Sub_exact) (auto simp: in_int64_def minInt64_def)
  have iv: "post_interval tb = refillInterval (bucket_window tb) (tb_postRefillRate tb)"
    using assms(3) by (simp add: post_interval_def)
  note p = bucket_interval_pos(2) [of tb]
  have "tb_lastRefill (refillPost now (bucket_window tb) tb) \<le> now \<and>
    now - tb_lastRefill (refillPost now (bucket_window tb) tb) < post_interval tb"
  proof (cases "now - tb_lastRefill tb < post_interval tb")
    case True
    with assms e show ?thesis by (simp add: refillPost_def iv [symmetric] Let_def)
  next
    case False
    with e have "post_interval tb \<le> time_Sub now (tb_lastRefill tb)" by simp
    note r = refill_amount [OF p this]
    from False assms e r have "tb_lastRefill (refillPost now (bucket_window tb) tb) =
        tb_lastRefill tb + (now - tb_lastRefill tb) div post_interval tb * post_interval tb"
      by (simp add: refillPost_def iv [symmetric] Let_def)
    with p show ?thesis by (simp add: minus_mod_eq_div_mult [symmetric])
  qed
  then show "tb_lastRefill (refillPost now (bucket_window tb) tb) \<le> now"
    and "now - tb_lastRefill (refillPost now (bucket_window tb) tb) < post_interval tb" by simp_all
qed

lemma refillPost_tokens:
  assumes "tb_lastRefill tb \<le> now" "tb_postTokens tb + (now - tb_lastRefill tb) \<le> maxInt64" "0 \<le> tb_postTokens tb"
    "0 < tb_postRefillRate tb" "0 \<le> tb_maxPostTokens tb"
  shows "0 \<le> tb_postTokens (refillPost now (bucket_window tb) tb)"
proof (cases "time_Sub now (tb_lastRefill tb) < post_interval tb")
  case True
  with assms show ?thesis by (simp add: refillPost_def post_interval_def Let_def)
next
  case False
  have e: "time_Sub now (tb_lastRefill tb) = now - tb_lastRefill tb"
    using assms by (intro time_Sub_exact) (auto simp: in_int64_def minInt64_def)
  note p = bucket_interval_pos(2) [of tb]
  from False have "post_interval tb \<le> time_Sub now (tb_lastRefill tb)" by simp
  note r = refill_amount [OF p this]
  have "(now - tb_lastRefill tb) div post_interval tb \<le> now - tb_lastRefill tb"
    using zdiv_mono2 [of "now - tb_lastRefill tb" 1 "post_interval tb"] p assms(1) by simp
  with r(1,4) e assms have "in_int64 (tb_postTokens tb + (now - tb_lastRefill tb) div post_interval tb)"
    by (auto simp: in_int64_def minInt64_def)
  with False r(1,4) e assms show ?thesis by (simp add: refillPost_def post_interval_def Let_def)
qed

lemma refillPost_positive:
  assumes "post_interval tb \<le> time_Sub later (tb_lastRefill tb)" "tb_postTokens tb = 0"
    "0 < tb_postRefillRate tb" "1 \<le> tb_maxPostTokens tb"
  shows "0 < tb_postTokens (refillPost later (bucket_window tb) tb)"
proof -
  let ?e = "time_Sub later (tb_lastRefill tb)"
  note p = bucket_interval_pos(2) [of tb]
  note r = refill_amount [OF p assms(1)]
  have "0 \<le> ?e" using assms(1) p by linarith
  then have "?e div post_interval tb \<le> ?e" using zdiv_mono2 [of ?e 1 "post_interval tb"] p by simp
  with r(1,4) time_Sub_in_range [of later "tb_lastRefill tb"] have "in_int64 (?e div post_interval tb)"
    by (auto simp: in_int64_def minInt64_def)
  with assms r(1,4) show ?thesis by (simp add: refillPost_def post_interval_def Let_def)
qed

text \<open>
  C24. The retry advice is enough: a write that is refused with \<open>retry\<close> seconds is let through when
  it is repeated after that many seconds, if the client sends no other write in between.
\<close>

theorem retry_after_sufficient:
  assumes inv: "bucket_inv tb" and rate: "0 < tb_postRefillRate tb" "1 \<le> tb_maxPostTokens tb"
    and toks: "0 \<le> tb_postTokens tb" and win: "tb_window tb \<le> maxInt64 - time_Second"
    and denied: "allowRequest False now tb = ((False, retry), tb')"
    and clock: "tb_lastRefill tb \<le> now" "now \<le> later" "now + retry * time_Second \<le> later"
      "tb_postTokens tb + (later - tb_lastRefill tb) \<le> maxInt64"
  shows "fst (fst (allowRequest False later tb'))"
proof -
  let ?w = "bucket_window tb"
  have iv: "post_interval tb = refillInterval ?w (tb_postRefillRate tb)" using rate by (simp add: post_interval_def)
  have small: "post_interval tb \<le> maxInt64 - time_Second"
    using refillInterval_le [OF rate(1), of ?w] win
    by (auto simp: iv bucket_window_def maxInt64_def split: if_splits)
  from denied have tb': "tb' = refillPost now ?w tb" "\<not> 0 < tb_postTokens tb'" "retry = retryAfter False now ?w tb'"
    by (auto simp: allowRequest_def Let_def split: if_splits)
  obtain n t where eff: "tb' = tb\<lparr>tb_postTokens := t, tb_lastRefill := tb_lastRefill tb + n * post_interval tb\<rparr>" "0 \<le> n"
    using refillPost_effect [OF inv, of now] tb'(1) by metis
  have w': "bucket_window tb' = ?w" "post_interval tb' = post_interval tb" "tb_postRefillRate tb' = tb_postRefillRate tb"
    "tb_maxPostTokens tb' = tb_maxPostTokens tb"
    by (simp_all add: eff bucket_window_def post_interval_def)
  have rem: "tb_lastRefill tb' \<le> now" "now - tb_lastRefill tb' < post_interval tb"
    using refillPost_remainder [of tb now] clock rate(1) toks unfolding tb'(1) by auto
  have t0: "tb_postTokens tb' = 0" using refillPost_tokens [OF clock(1) _ toks rate(1)] clock rate(2) tb'(1,2) by auto
  have "tb_lastRefill tb \<le> tb_lastRefill tb'" using eff bucket_interval_pos(2) [of tb] by simp
  with clock toks have e: "time_Sub later (tb_lastRefill tb') = later - tb_lastRefill tb'" "later - tb_lastRefill tb' \<le> maxInt64"
    using rem(1) by (auto intro!: time_Sub_exact simp: in_int64_def minInt64_def)
  have "retry = go_div (wrap64 ((if wrap64 (post_interval tb - time_Sub now (tb_lastRefill tb')) < 0 then 0
      else wrap64 (post_interval tb - time_Sub now (tb_lastRefill tb'))) + time_Second - 1)) time_Second"
    unfolding tb'(3) retryAfter_def using t0 rate w' by (simp add: Let_def iv)
  with retry_covers [OF rem small] clock(3) have enough: "post_interval tb \<le> time_Sub later (tb_lastRefill tb')"
    unfolding e by linarith
  have "0 < tb_postTokens (refillPost later ?w tb')"
    using refillPost_positive [of tb' later] enough t0 rate w' e by simp
  then show ?thesis by (simp add: allowRequest_def Let_def w')
qed

section \<open>The limiter\<close>

record rate_limiter =
  rl_store :: "(string \<times> token_bucket) list"
  rl_maxRequests :: int64
  rl_maxGetRequests :: int64
  rl_window :: duration

abbreviation MaxStoreEntries :: nat where "MaxStoreEntries \<equiv> 10000"

definition NewRateLimiter :: "int64 \<Rightarrow> int64 \<Rightarrow> int64 \<Rightarrow> rate_limiter" where
  "NewRateLimiter maxRequests getMultiplier windowSeconds =
     \<lparr>rl_store = [], rl_maxRequests = maxRequests, rl_maxGetRequests = wrap64 (maxRequests * getMultiplier),
      rl_window = wrap64 (windowSeconds * time_Second)\<rparr>"

definition new_bucket :: "rate_limiter \<Rightarrow> time \<Rightarrow> token_bucket" where
  "new_bucket rl now = \<lparr>tb_postTokens = rl_maxRequests rl, tb_getTokens = rl_maxGetRequests rl,
     tb_maxPostTokens = rl_maxRequests rl, tb_maxGetTokens = rl_maxGetRequests rl,
     tb_postRefillRate = rl_maxRequests rl, tb_getRefillRate = rl_maxGetRequests rl,
     tb_lastRefill = now, tb_getLastRefill = now, tb_window = rl_window rl\<rparr>"

text \<open>
  The bucket is entered under the limiter's lock and used under its own, at two readings of the
  clock. The error of the shared backend is \<open>Inl\<close>, no backend is \<open>None\<close>.
\<close>

definition allowLocalRequest ::
  "time \<Rightarrow> time \<Rightarrow> string \<Rightarrow> bool \<Rightarrow> rate_limiter \<Rightarrow> (bool \<times> int64) \<times> rate_limiter" where
  "allowLocalRequest created now ip isGet rl =
     (case map_of (rl_store rl) ip of
        None \<Rightarrow>
          if length (rl_store rl) \<ge> MaxStoreEntries then ((False, 60), rl)
          else (let (r, tb) = allowRequest isGet now (new_bucket rl created)
                in (r, rl\<lparr>rl_store := AList.update ip tb (rl_store rl)\<rparr>))
      | Some bucket \<Rightarrow>
          (let (r, tb) = allowRequest isGet now bucket
           in (r, rl\<lparr>rl_store := AList.update ip tb (rl_store rl)\<rparr>)))"

definition AllowRequestWithContext ::
  "(go_error + bool \<times> int64) option \<Rightarrow> time \<Rightarrow> time \<Rightarrow> string \<Rightarrow> bool \<Rightarrow> rate_limiter \<Rightarrow>
   (bool \<times> int64 \<times> bool) \<times> rate_limiter" where
  "AllowRequestWithContext shared created now ip isGet rl =
     (case shared of
        Some (Inr (allowed, retry)) \<Rightarrow> ((allowed, retry, False), rl)
      | _ \<Rightarrow>
        (let ((allowed, retry), rl') = allowLocalRequest created now ip isGet rl
         in ((allowed, retry, shared \<noteq> None), rl')))"

definition last_activity :: "token_bucket \<Rightarrow> time" where
  "last_activity tb = (if tb_getLastRefill tb > tb_lastRefill tb then tb_getLastRefill tb else tb_lastRefill tb)"

definition Cleanup :: "time \<Rightarrow> duration \<Rightarrow> rate_limiter \<Rightarrow> rate_limiter" where
  "Cleanup now maxAge rl =
     rl\<lparr>rl_store := filter (\<lambda>p. \<not> time_Sub now (last_activity (snd p)) > maxAge) (rl_store rl)\<rparr>"

text \<open>The limiter's buckets: one per client, of the limiter's capacity and window, not too many.\<close>

definition limiter_inv :: "rate_limiter \<Rightarrow> bool" where
  "limiter_inv rl \<longleftrightarrow>
     distinct (map fst (rl_store rl)) \<and> length (rl_store rl) \<le> MaxStoreEntries \<and>
     (\<forall>p \<in> set (rl_store rl). let tb = snd p in
        bucket_inv tb \<and> tb_window tb = rl_window rl \<and>
        tb_maxPostTokens tb = rl_maxRequests rl \<and> tb_postRefillRate tb = rl_maxRequests rl \<and>
        tb_maxGetTokens tb = rl_maxGetRequests rl \<and> tb_getRefillRate tb = rl_maxGetRequests rl)"

lemma allowRequest_same:
  "tb_window (snd (allowRequest isGet now tb)) = tb_window tb"
  "tb_maxPostTokens (snd (allowRequest isGet now tb)) = tb_maxPostTokens tb"
  "tb_maxGetTokens (snd (allowRequest isGet now tb)) = tb_maxGetTokens tb"
  "tb_postRefillRate (snd (allowRequest isGet now tb)) = tb_postRefillRate tb"
  "tb_getRefillRate (snd (allowRequest isGet now tb)) = tb_getRefillRate tb"
  by (simp_all add: allowRequest_def refillGet_def refillPost_def Let_def)

lemma allowRequest_inv: "bucket_inv tb \<Longrightarrow> bucket_inv (snd (allowRequest isGet now tb))"
  using get_attempt_inv [of tb now] post_attempt_inv [of tb now]
  by (cases isGet) (auto simp: get_attempt_def post_attempt_def)

lemma length_update_known: "map_of xs k \<noteq> None \<Longrightarrow> length (AList.update k v xs) = length xs"
  by (induction xs) auto

lemma length_update_new: "map_of xs k = None \<Longrightarrow> length (AList.update k v xs) = Suc (length xs)"
  by (induction xs) (auto split: if_splits)

lemma set_update_subset: "set (AList.update k v xs) \<subseteq> insert (k, v) (set xs)"
  by (induction xs) auto

text \<open>
  C25. The store of the limiter is bounded and its clients are independent: after a request there are
  at most 10000 buckets, each of the configured capacity, and no other client's bucket has changed.
\<close>

theorem limiter_request:
  assumes inv: "limiter_inv rl" and conf: "in_int64 (rl_maxRequests rl)" "in_int64 (rl_maxGetRequests rl)"
      "in_int64 (rl_window rl)" "zero_time < created"
    and req: "allowLocalRequest created now ip isGet rl = (r, rl')"
  shows "limiter_inv rl' \<and> (\<forall>ip'. ip' \<noteq> ip \<longrightarrow> map_of (rl_store rl') ip' = map_of (rl_store rl) ip')"
proof -
  have fresh: "bucket_inv (new_bucket rl created)" using conf by (simp add: bucket_inv_def new_bucket_def)
  have put: "limiter_inv (rl\<lparr>rl_store := AList.update ip tb (rl_store rl)\<rparr>)"
    if "length (AList.update ip tb (rl_store rl)) \<le> MaxStoreEntries" "bucket_inv tb" "tb_window tb = rl_window rl"
      "tb_maxPostTokens tb = rl_maxRequests rl" "tb_postRefillRate tb = rl_maxRequests rl"
      "tb_maxGetTokens tb = rl_maxGetRequests rl" "tb_getRefillRate tb = rl_maxGetRequests rl" for tb
    using inv that set_update_subset [of ip tb "rl_store rl"]
    by (auto simp: limiter_inv_def Let_def distinct_update)
  show ?thesis
  proof (cases "map_of (rl_store rl) ip")
    case None
    show ?thesis
    proof (cases "length (rl_store rl) \<ge> MaxStoreEntries")
      case True
      with None req inv show ?thesis by (simp add: allowLocalRequest_def)
    next
      case False
      with None req have "rl' = rl\<lparr>rl_store := AList.update ip (snd (allowRequest isGet now (new_bucket rl created))) (rl_store rl)\<rparr>"
        by (auto simp: allowLocalRequest_def split: prod.splits)
      with put [of "snd (allowRequest isGet now (new_bucket rl created))"] False None fresh allowRequest_inv [OF fresh] show ?thesis
        by (simp add: length_update_new allowRequest_same update_conv) (simp add: new_bucket_def)
    qed
  next
    case (Some tb)
    then have tb: "(ip, tb) \<in> set (rl_store rl)" by (rule map_of_SomeD)
    from Some req have rl': "rl' = rl\<lparr>rl_store := AList.update ip (snd (allowRequest isGet now tb)) (rl_store rl)\<rparr>"
      by (auto simp: allowLocalRequest_def split: prod.splits)
    have "limiter_inv rl'" unfolding rl'
      using inv tb Some allowRequest_inv [of tb isGet now]
      by (intro put) (auto simp: limiter_inv_def Let_def length_update_known allowRequest_same)
    then show ?thesis by (simp add: rl' update_conv)
  qed
qed

section \<open>Cleanup\<close>

lemma refill_reaches_max:
  assumes "0 < rate" "rate \<le> window" "window < time_Sub now lst"
    "0 \<le> tokens" "tokens + time_Sub now lst \<le> maxInt64"
  shows "rate \<le> wrap64 (tokens + go_div (time_Sub now lst) (refillInterval window rate))"
    and "refillInterval window rate \<le> time_Sub now lst"
proof -
  let ?e = "time_Sub now lst"
  let ?i = "refillInterval window rate"
  have d: "go_div window rate = window div rate" using assms by (simp add: go_div_nonneg)
  have one: "1 \<le> window div rate" using assms zdiv_mono1 [of rate window rate] by simp
  have i: "?i = window div rate" "0 < ?i" using assms(1) one d by (simp_all add: refillInterval_def Let_def)
  have le: "?i * rate \<le> window" using assms(1) i(1) by (simp add: minus_mod_eq_div_mult [symmetric])
  have "?i \<le> window" using le i(2) assms(1) by (smt (verit) mult_le_cancel_left1)
  then show fits: "?i \<le> ?e" using assms(3) by simp
  note r = refill_amount [OF i(2) fits]
  have "rate \<le> ?e div ?i" using le assms(3) i(2) zdiv_mono1 [of "?i * rate" ?e ?i] by simp
  moreover have "?e div ?i \<le> ?e" using zdiv_mono2 [of ?e 1 ?i] i(2) fits by simp
  ultimately have "in_int64 (tokens + ?e div ?i)" "rate \<le> tokens + ?e div ?i"
    using assms by (auto simp: in_int64_def minInt64_def)
  then show "rate \<le> wrap64 (tokens + go_div ?e ?i)" by (simp add: r(4))
qed


section \<open>The shared limiter on Redis\<close>

text \<open>
  The script of \<open>internal/middleware/redis_ratelimit.go\<close> on the hash of one client: Lua's numbers are
  taken as exact rationals. \<open>None\<close> is a missing or expired hash.
\<close>

record redis_bucket =
  rb_tokens :: rat
  rb_last :: rat
  rb_expire_ms :: int

definition redis_interval :: "int \<Rightarrow> int \<Rightarrow> rat" where
  "redis_interval capacity window_us =
     (let i = of_int window_us / of_int capacity in if i < 1 then 1 else i)"

definition redis_refill :: "int \<Rightarrow> int \<Rightarrow> int \<Rightarrow> redis_bucket option \<Rightarrow> rat \<times> rat" where
  "redis_refill now capacity window_us h =
     (let interval_us = redis_interval capacity window_us;
          tokens = (case h of None \<Rightarrow> of_int capacity | Some b \<Rightarrow> rb_tokens b);
          lst = (case h of None \<Rightarrow> of_int now | Some b \<Rightarrow> rb_last b)
      in if of_int now > lst
         then (let refill = \<lfloor>(of_int now - lst) / interval_us\<rfloor>
               in if refill > 0 then (min (of_int capacity) (tokens + of_int refill), lst + of_int refill * interval_us)
                  else (tokens, lst))
         else (tokens, lst))"

definition redis_token_script ::
  "int \<Rightarrow> int \<Rightarrow> int \<Rightarrow> redis_bucket option \<Rightarrow> (int \<times> int) \<times> redis_bucket" where
  "redis_token_script now capacity window_us h =
     (let interval_us = redis_interval capacity window_us;
          (tokens, lst) = redis_refill now capacity window_us h;
          allowed = tokens > 0;
          tokens' = (if allowed then tokens - 1 else tokens);
          retry_us = (if allowed then 0 else max 1 (interval_us - (of_int now - lst)))
      in ((if allowed then 1 else 0, \<lceil>retry_us / 1000\<rceil>),
          \<lparr>rb_tokens = tokens', rb_last = lst,
           rb_expire_ms = max 1000 (\<lceil>of_int window_us / (1000 :: rat)\<rceil> * 2)\<rparr>))"

text \<open>\<open>AllowRequest\<close>: the cooldown, the parameters and the answer of the script or its failure.\<close>

record redis_limiter =
  rlb_unavailableUntil :: time
  rlb_hashes :: "string \<rightharpoonup> redis_bucket"

definition redis_limit_key :: "externals \<Rightarrow> string \<Rightarrow> bool \<Rightarrow> string" where
  "redis_limit_key X key isGet = ''counter:rate-limit:'' @
     hex_EncodeToString (sha256 X (key @ [CHR 0x00] @ (if isGet then ''get'' else ''post'')))"

definition Redis_AllowRequest ::
  "externals \<Rightarrow> time \<Rightarrow> int \<Rightarrow> go_error option \<Rightarrow> string \<Rightarrow> bool \<Rightarrow> int64 \<Rightarrow> int64 \<Rightarrow> redis_limiter \<Rightarrow>
   (go_error + bool \<times> int64) \<times> redis_limiter" where
  "Redis_AllowRequest X now server_us failure key isGet maxRequests windowMicroseconds b =
     (if rlb_unavailableUntil b > now
      then (Inl (Msg ''redis rate limit backend temporarily unavailable''), b)
      else if maxRequests < 1 \<or> windowMicroseconds < 1
        then (Inl (Msg ''invalid shared rate limit parameters''), b)
      else
        (let k = redis_limit_key X key isGet in
         case failure of
           Some e \<Rightarrow> (Inl (Wrapf ''execute shared rate limit'' e), b\<lparr>rlb_unavailableUntil := now + time_Second\<rparr>)
         | None \<Rightarrow>
           (let ((allowed, retry), h) = redis_token_script server_us maxRequests windowMicroseconds (rlb_hashes b k)
            in (Inr (allowed = 1, max 0 retry),
                b\<lparr>rlb_unavailableUntil := 0, rlb_hashes := (rlb_hashes b)(k \<mapsto> h)\<rparr>))))"


section \<open>Concrete limiters\<close>

definition sample_limiter :: rate_limiter where
  "sample_limiter = NewRateLimiter 2 5 1"

definition sample_bucket :: token_bucket where
  "sample_bucket = new_bucket sample_limiter 1000"

theorem rate_limit_bound_witness:
  "allowed_count False [(1000, False), (2000, False), (3000, True), (4000, False)] sample_bucket \<le> 2"
proof -
  have "int (allowed_count False [(1000, False), (2000, False), (3000, True), (4000, False)] sample_bucket) \<le>
      tb_postTokens sample_bucket + (4000 - tb_lastRefill sample_bucket) div post_interval sample_bucket"
    by (rule rate_limit_bound [THEN conjunct2]) code_simp+
  also have "\<dots> = 2" by code_simp
  finally show ?thesis by simp
qed

definition sample_empty_bucket :: token_bucket where
  "sample_empty_bucket = sample_bucket\<lparr>tb_postTokens := 0\<rparr>"

theorem retry_after_sufficient_witness:
  "allowRequest False 1500 sample_empty_bucket = ((False, 1), sample_empty_bucket) \<and>
   fst (fst (allowRequest False 1000001500 sample_empty_bucket))"
proof
  show denied: "allowRequest False 1500 sample_empty_bucket = ((False, 1), sample_empty_bucket)" by code_simp
  show "fst (fst (allowRequest False 1000001500 sample_empty_bucket))"
    by (rule retry_after_sufficient [OF _ _ _ _ _ denied]) code_simp+
qed

theorem limiter_request_witness:
  "limiter_inv (snd (allowLocalRequest 1000 1000 ''10.0.0.1'' True sample_limiter))"
proof -
  obtain r rl' where req: "allowLocalRequest 1000 1000 ''10.0.0.1'' True sample_limiter = (r, rl')"
    by (cases "allowLocalRequest 1000 1000 ''10.0.0.1'' True sample_limiter")
  have inv: "limiter_inv sample_limiter" by (simp add: limiter_inv_def sample_limiter_def NewRateLimiter_def)
  have conf: "in_int64 (rl_maxRequests sample_limiter)" "in_int64 (rl_maxGetRequests sample_limiter)"
    "in_int64 (rl_window sample_limiter)" "zero_time < 1000" by code_simp+
  from limiter_request [OF inv conf req] req show ?thesis by simp
qed



end
