(* ===== verification/Runes.thy ===== *)
theory Runes
  imports Text
begin

text \<open>Go's strings as sequences of runes: the range loop over a string, \<open>[]rune(s)\<close> and \<open>string(rs)\<close>.\<close>

section \<open>Decoding and encoding\<close>

type_synonym rune = nat

abbreviation byte :: "char \<Rightarrow> nat" where "byte c \<equiv> of_char c"

definition cont :: "nat \<Rightarrow> bool" where
  "cont b \<longleftrightarrow> 128 \<le> b \<and> b \<le> 191"

abbreviation RuneError :: rune where "RuneError \<equiv> 65533"

text \<open>
  One step of the range loop over a string: the rune at the front and how many bytes it takes; an
  invalid encoding is the error rune, one byte long.
\<close>

fun DecodeRune :: "nat list \<Rightarrow> rune \<times> nat" where
  "DecodeRune [] = (RuneError, 0)"
| "DecodeRune (a # rest) =
     (if a < 128 then (a, 1)
      else if 194 \<le> a \<and> a \<le> 223 then
        (case rest of
           b # _ \<Rightarrow> if cont b then ((a - 192) * 64 + (b - 128), 2) else (RuneError, 1)
         | [] \<Rightarrow> (RuneError, 1))
      else if 224 \<le> a \<and> a \<le> 239 then
        (case rest of
           b # c # _ \<Rightarrow>
             if cont b \<and> cont c \<and> (a = 224 \<longrightarrow> 160 \<le> b) \<and> (a = 237 \<longrightarrow> b \<le> 159)
             then ((a - 224) * 4096 + (b - 128) * 64 + (c - 128), 3) else (RuneError, 1)
         | _ \<Rightarrow> (RuneError, 1))
      else if 240 \<le> a \<and> a \<le> 244 then
        (case rest of
           b # c # d # _ \<Rightarrow>
             if cont b \<and> cont c \<and> cont d \<and> (a = 240 \<longrightarrow> 144 \<le> b) \<and> (a = 244 \<longrightarrow> b \<le> 143)
             then ((a - 240) * 262144 + (b - 128) * 4096 + (c - 128) * 64 + (d - 128), 4) else (RuneError, 1)
         | _ \<Rightarrow> (RuneError, 1))
      else (RuneError, 1))"

lemma DecodeRune_width: "0 < snd (DecodeRune (a # rest))"
  by (auto split: list.splits)

function decode_bytes :: "nat list \<Rightarrow> rune list" where
  "decode_bytes [] = []"
| "decode_bytes (a # rest) =
     (let (r, w) = DecodeRune (a # rest) in r # decode_bytes (drop w (a # rest)))"
  by pat_completeness auto
termination
proof (relation "measure length")
  fix a rest p r w
  assume "p = DecodeRune (a # rest)" "(r, w) = p"
  then have "0 < w" using DecodeRune_width [of a rest] by (metis snd_conv)
  then show "(drop w (a # rest), a # rest) \<in> measure length" by (cases w) auto
qed simp

declare decode_bytes.simps(2) [simp del]

text \<open>\<open>[]rune(s)\<close> and \<open>string(runes)\<close>.\<close>

definition runes :: "string \<Rightarrow> rune list" where
  "runes s = decode_bytes (map byte s)"

definition EncodeRune :: "rune \<Rightarrow> nat list" where
  "EncodeRune r =
     (if r < 128 then [r]
      else if r < 2048 then [192 + r div 64, 128 + r mod 64]
      else if r < 65536 then
        (if 55296 \<le> r \<and> r \<le> 57343 then [239, 191, 189]
         else [224 + r div 4096, 128 + r div 64 mod 64, 128 + r mod 64])
      else if r < 1114112 then [240 + r div 262144, 128 + r div 4096 mod 64, 128 + r div 64 mod 64, 128 + r mod 64]
      else [239, 191, 189])"

definition string_of_runes :: "rune list \<Rightarrow> string" where
  "string_of_runes rs = map char_of (concat (map EncodeRune rs))"

definition RuneCountInString :: "string \<Rightarrow> int" where
  "RuneCountInString s = int (length (runes s))"

section \<open>The two are inverse on valid text\<close>

lemma DecodeRune_bound: "snd (DecodeRune bs) \<le> length bs"
  by (cases bs) (auto split: list.splits)

text \<open>A rune of several bytes is read from those bytes alone, and they are its encoding.\<close>

lemma DecodeRune_local:
  assumes "DecodeRune bs = (r, w)" "1 < w"
  shows "DecodeRune (take w bs @ rest) = (r, w)"
  using assms by (cases bs) (auto split: if_splits list.splits)

lemma low_bits: "z < 64 \<Longrightarrow> (q * 64 + z) div 64 = (q::nat)" "z < 64 \<Longrightarrow> (q * 64 + z) mod 64 = (z::nat)"
  by simp_all

lemma EncodeRune_DecodeRune:
  assumes "DecodeRune bs = (r, w)" "1 < w"
  shows "EncodeRune r = take w bs"
proof -
  from assms obtain a rest where bs: "bs = a # rest" by (cases bs) auto
  from assms consider
      (two) b r2 where "rest = b # r2" "w = 2" "194 \<le> a" "a \<le> 223" "cont b" "r = (a - 192) * 64 + (b - 128)"
    | (three) b c r3 where "rest = b # c # r3" "w = 3" "224 \<le> a" "a \<le> 239" "cont b" "cont c"
        "a = 224 \<longrightarrow> 160 \<le> b" "a = 237 \<longrightarrow> b \<le> 159" "r = (a - 224) * 4096 + (b - 128) * 64 + (c - 128)"
    | (four) b c d r4 where "rest = b # c # d # r4" "w = 4" "240 \<le> a" "a \<le> 244" "cont b" "cont c" "cont d"
        "a = 240 \<longrightarrow> 144 \<le> b" "a = 244 \<longrightarrow> b \<le> 143"
        "r = (a - 240) * 262144 + (b - 128) * 4096 + (c - 128) * 64 + (d - 128)"
    unfolding bs by (auto split: if_splits list.splits)
  then show ?thesis
  proof cases
    case two
    then have r: "r = (a - 192) * 64 + (b - 128)" "b - 128 < 64" "2 \<le> a - 192" "a - 192 < 32" by (auto simp: cont_def)
    then have "128 \<le> r" "r < 2048" "r div 64 = a - 192" "r mod 64 = b - 128" by auto
    with two show ?thesis by (auto simp: bs EncodeRune_def cont_def)
  next
    case three
    define x y z where xyz: "x = a - 224" "y = b - 128" "z = c - 128"
    have small: "y < 64" "z < 64" "x < 16" using three by (auto simp: cont_def xyz)
    have r: "r = (x * 64 + y) * 64 + z" using three(9) by (simp add: xyz)
    have rf: "r = x * 4096 + y * 64 + z" unfolding r by simp
    have "r div 64 = x * 64 + y" "r mod 64 = z" unfolding r by (rule low_bits [OF small(2)])+
    moreover have "r div 4096 = x" using calculation(1) small by (simp add: div_mult2_eq [of r 64 64, simplified])
    moreover have "2048 \<le> r"
    proof (cases "a = 224")
      case True
      with three have "32 \<le> y" by (auto simp: xyz)
      then show ?thesis unfolding rf by linarith
    next
      case False
      with three have "1 \<le> x" by (auto simp: xyz)
      then show ?thesis unfolding rf by linarith
    qed
    moreover have "r < 65536" unfolding rf using small by linarith
    moreover have "\<not> (55296 \<le> r \<and> r \<le> 57343)"
    proof (cases "a = 237")
      case True
      with three have "x = 13" "y < 32" by (auto simp: xyz)
      then show ?thesis unfolding rf using small by linarith
    next
      case False
      then have "x \<le> 12 \<or> 14 \<le> x" using three by (auto simp: xyz)
      then show ?thesis unfolding rf using small by linarith
    qed
    ultimately have "EncodeRune r = [224 + x, 128 + y, 128 + z]"
      unfolding EncodeRune_def using low_bits(2) [OF small(1)] by auto
    moreover have "224 + x = a" "128 + y = b" "128 + z = c" using three by (simp_all add: xyz cont_def)
    ultimately show ?thesis using three by (simp add: bs)
  next
    case four
    define x y z u where xyz: "x = a - 240" "y = b - 128" "z = c - 128" "u = d - 128"
    have small: "y < 64" "z < 64" "u < 64" "x \<le> 4" using four by (auto simp: cont_def xyz)
    have r: "r = ((x * 64 + y) * 64 + z) * 64 + u" using four(10) by (simp add: xyz)
    have rf: "r = x * 262144 + y * 4096 + z * 64 + u" unfolding r by simp
    have d1: "r div 64 = (x * 64 + y) * 64 + z" "r mod 64 = u" unfolding r by (rule low_bits [OF small(3)])+
    have d2: "r div 4096 = x * 64 + y" using d1(1) small by (simp add: div_mult2_eq [of r 64 64, simplified])
    have d3: "r div 262144 = x" using d2 small by (simp add: div_mult2_eq [of r 4096 64, simplified])
    have "65536 \<le> r"
    proof (cases "a = 240")
      case True
      with four have "16 \<le> y" by (auto simp: xyz)
      then show ?thesis unfolding rf by linarith
    next
      case False
      with four have "1 \<le> x" by (auto simp: xyz)
      then show ?thesis unfolding rf by linarith
    qed
    moreover have "r < 1114112"
    proof (cases "a = 244")
      case True
      with four have "x = 4" "y < 16" by (auto simp: xyz)
      then show ?thesis unfolding rf using small by linarith
    next
      case False
      with four have "x \<le> 3" by (auto simp: xyz)
      then show ?thesis unfolding rf using small by linarith
    qed
    ultimately have "EncodeRune r = [240 + x, 128 + y, 128 + z, 128 + u]"
      unfolding EncodeRune_def d1 d2 d3 low_bits(2) [OF small(1)] low_bits(2) [OF small(2)] by simp
    moreover have "240 + x = a" "128 + y = b" "128 + z = c" "128 + u = d" using four by (simp_all add: xyz cont_def)
    ultimately show ?thesis using four by (simp add: bs)
  qed
qed

section \<open>Where runes are ASCII\<close>

lemma DecodeRune_two: "194 \<le> a \<Longrightarrow> a \<le> 223 \<Longrightarrow> 128 \<le> fst (DecodeRune (a # rest))"
proof -
  assume h: "194 \<le> a" "a \<le> 223"
  then have "128 \<le> (a - 192) * 64" by linarith
  then have "128 \<le> (a - 192) * 64 + x" for x by linarith
  with h show ?thesis by (cases rest) simp_all
qed

lemma DecodeRune_three: "224 \<le> a \<Longrightarrow> a \<le> 239 \<Longrightarrow> 128 \<le> fst (DecodeRune (a # rest))"
proof -
  assume h: "224 \<le> a" "a \<le> 239"
  have "128 \<le> (a - 224) * 4096 + (b - 128) * 64 + x" if "a = 224 \<longrightarrow> 160 \<le> b" for b x
    using h that by (cases "a = 224") linarith+
  with h show ?thesis by (simp split: list.split)
qed

lemma DecodeRune_four: "240 \<le> a \<Longrightarrow> a \<le> 244 \<Longrightarrow> 128 \<le> fst (DecodeRune (a # rest))"
proof -
  assume h: "240 \<le> a" "a \<le> 244"
  have "128 \<le> (a - 240) * 262144 + (b - 128) * 4096 + x + y" if "a = 240 \<longrightarrow> 144 \<le> b" for b x y
    using h that by (cases "a = 240") linarith+
  with h show ?thesis by (simp split: list.split)
qed

lemma DecodeRune_ascii: "fst (DecodeRune (a # rest)) < 128 \<Longrightarrow> DecodeRune (a # rest) = (a, 1)"
proof -
  assume r: "fst (DecodeRune (a # rest)) < 128"
  consider "a < 128" | "194 \<le> a" "a \<le> 223" | "224 \<le> a" "a \<le> 239" | "240 \<le> a" "a \<le> 244"
    | "128 \<le> a" "\<not> (194 \<le> a \<and> a \<le> 223)" "\<not> (224 \<le> a \<and> a \<le> 239)" "\<not> (240 \<le> a \<and> a \<le> 244)"
    by linarith
  then show ?thesis
  proof cases
    case 5
    then have "fst (DecodeRune (a # rest)) = RuneError" by auto
    with r show ?thesis by simp
  next
    case 2
    with r DecodeRune_two [of a rest] show ?thesis by linarith
  next
    case 3
    with r DecodeRune_three [of a rest] show ?thesis by linarith
  next
    case 4
    with r DecodeRune_four [of a rest] show ?thesis by linarith
  qed simp
qed

end
