(* ===== verification/Validation.thy ===== *)
theory Validation
  imports Tenant Counter_Service Runes
begin

text \<open>
  Request validation: \<open>internal/utils/validation.go\<close>, \<open>internal/contract/mutation.go\<close> and the
  \<open>Validate\<close> methods of \<open>internal/models\<close>.
\<close>

section \<open>Labels\<close>

text \<open>The class of the regular expression \<open>^[\w\s\-\.]+$\<close> on runes.\<close>

definition label_rune :: "rune \<Rightarrow> bool" where
  "label_rune r \<longleftrightarrow>
     48 \<le> r \<and> r \<le> 57 \<or> 65 \<le> r \<and> r \<le> 90 \<or> 97 \<le> r \<and> r \<le> 122 \<or> r = 95 \<or>
     r = 9 \<or> r = 10 \<or> r = 12 \<or> r = 13 \<or> r = 32 \<or> r = 45 \<or> r = 46"

definition validLabelRegex :: "string \<Rightarrow> bool" where
  "validLabelRegex s \<longleftrightarrow> runes s \<noteq> [] \<and> list_all label_rune (runes s)"

definition ValidateLabel :: "string \<Rightarrow> go_error option" where
  "ValidateLabel label =
     (if label = [] then Some (Sentinel ErrLabelTooShort)
      else
        (let n = RuneCountInString label in
         if n < 1 then Some (Sentinel ErrLabelTooShort)
         else if n > 255 then Some (Sentinel ErrLabelTooLong)
         else if \<not> validLabelRegex label then Some (Sentinel ErrLabelInvalidChars)
         else None))"

definition isWhitespace :: "rune \<Rightarrow> bool" where
  "isWhitespace r \<longleftrightarrow> r = 32 \<or> r = 9 \<or> r = 10 \<or> r = 13"

text \<open>The two loops of \<open>sanitizeString\<close> move the ends inwards over white space.\<close>

definition sanitizeString :: "string \<Rightarrow> string" where
  "sanitizeString s = string_of_runes (rev (dropWhile isWhitespace (rev (dropWhile isWhitespace (runes s)))))"

definition SanitizeString :: "string \<Rightarrow> string" where
  "SanitizeString s = sanitizeString (filter (\<lambda>c. c \<noteq> CHR 0x00) s)"

definition SanitizeLabel :: "string \<Rightarrow> go_error + string" where
  "SanitizeLabel label =
     (let sanitized = SanitizeString label
      in case ValidateLabel sanitized of Some e \<Rightarrow> Inl e | None \<Rightarrow> Inr sanitized)"

section \<open>Identifiers, values and keys\<close>

definition ValidateUUID :: "externals \<Rightarrow> string \<Rightarrow> go_error option" where
  "ValidateUUID X i =
     (if i = [] then Some (Sentinel ErrInvalidUUID)
      else if uuid_parse X i = None then Some (Sentinel ErrInvalidUUID) else None)"

abbreviation MaxCounterValue :: int64 where "MaxCounterValue \<equiv> 9223372036854775806"
abbreviation MinCounterValue :: int64 where "MinCounterValue \<equiv> - 9223372036854775808"

definition ValidateCounterValue :: "int64 \<Rightarrow> go_error option" where
  "ValidateCounterValue v =
     (if v > MaxCounterValue then Some (Sentinel ErrCounterValueOverflow)
      else if v < MinCounterValue then Some (Sentinel ErrCounterValueUnderflow) else None)"

definition ValidateIncrement :: "int64 \<Rightarrow> int64 \<Rightarrow> go_error option" where
  "ValidateIncrement currentValue delta =
     (if delta > 0 \<and> currentValue > wrap64 (MaxCounterValue - delta) then Some (Sentinel ErrCounterValueOverflow)
      else if delta < 0 \<and> currentValue < wrap64 (MinCounterValue - delta) then Some (Sentinel ErrCounterValueUnderflow)
      else None)"

definition FormatError :: "string \<Rightarrow> go_error option \<Rightarrow> go_error option" where
  "FormatError field err = map_option (Wrapf field) err"

definition ValidateIdempotencyKey :: "externals \<Rightarrow> string \<Rightarrow> bool \<Rightarrow> go_error option" where
  "ValidateIdempotencyKey X key required =
     (let k = TrimSpace key in
      if k = [] then (if \<not> required then None else Some (Sentinel ErrIdempotencyKeyRequired))
      else if uuid_parse X k = None then Some (Sentinel ErrInvalidIdempotencyKey) else None)"

section \<open>Requests\<close>

text \<open>A request's \<open>Validate\<close> may also normalise it: the result is the normalised request.\<close>

definition Counter_Validate :: "counter option \<Rightarrow> go_error option" where
  "Counter_Validate c =
     (case c of
        None \<Rightarrow> Some (Msg ''counter is nil'')
      | Some c \<Rightarrow>
        if ctr_tenant_id c = [] then Some (Msg ''tenant_id is required'')
        else
          (case (if ctr_label c \<noteq> [] then ValidateLabel (ctr_label c) else None) of
             Some e \<Rightarrow> Some e
           | None \<Rightarrow> ValidateCounterValue (ctr_value c)))"

definition CreateCounterRequest_Validate :: "create_request \<Rightarrow> go_error + create_request" where
  "CreateCounterRequest_Validate r =
     (case (if rq_Label r \<noteq> [] then SanitizeLabel (rq_Label r) else Inr (rq_Label r)) of
        Inl e \<Rightarrow> Inl e
      | Inr label \<Rightarrow>
        (case ValidateCounterValue (rq_InitialValue r) of
           Some e \<Rightarrow> Inl e
         | None \<Rightarrow>
           (let maxDelta = (if rq_MaxDelta r = 0 then 50 else rq_MaxDelta r)
            in if maxDelta < 1 then Inl (Msg ''max_delta must be at least 1'')
               else Inr (r\<lparr>rq_Label := label, rq_MaxDelta := maxDelta\<rparr>))))"

definition SetCounterValueRequest_Validate :: "int64 option \<Rightarrow> go_error option" where
  "SetCounterValueRequest_Validate v =
     (case v of None \<Rightarrow> Some (Msg ''value is required'') | Some x \<Rightarrow> ValidateCounterValue x)"

definition Tenant_Validate :: "tenant option \<Rightarrow> go_error option" where
  "Tenant_Validate t =
     (case t of None \<Rightarrow> Some (Msg ''tenant is nil'') | Some t \<Rightarrow> ValidateLabel (tn_label t))"

definition CreateTenantRequest_Validate :: "string \<Rightarrow> go_error + string" where
  "CreateTenantRequest_Validate label =
     (if label = [] then Inl (Msg ''label is required'') else SanitizeLabel label)"

section \<open>What is accepted\<close>

lemma runes_ascii: "\<forall>c \<in> set s. byte c < 128 \<Longrightarrow> runes s = map byte s"
proof -
  have "\<forall>b \<in> set bs. b < 128 \<Longrightarrow> decode_bytes bs = bs" for bs
    by (induction bs) (simp_all add: decode_bytes.simps(2))
  then show "\<forall>c \<in> set s. byte c < 128 \<Longrightarrow> runes s = map byte s" by (simp add: runes_def)
qed

lemma string_of_runes_ascii: "\<forall>r \<in> set rs. r < 128 \<Longrightarrow> string_of_runes rs = map char_of rs"
  by (induction rs) (simp_all add: string_of_runes_def EncodeRune_def)

lemma label_rune_ascii: "label_rune r \<Longrightarrow> 0 < r \<and> r < 128"
  by (auto simp: label_rune_def)

lemma decode_ascii_inv: "\<forall>r \<in> set (decode_bytes bs). r < 128 \<Longrightarrow> decode_bytes bs = bs"
proof (induction bs rule: decode_bytes.induct)
  case (2 a rest)
  obtain r w where d: "DecodeRune (a # rest) = (r, w)" by (cases "DecodeRune (a # rest)")
  then have "decode_bytes (a # rest) = r # decode_bytes (drop w (a # rest))"
    unfolding decode_bytes.simps(2) Let_def by (simp only: case_prod_conv)
  with 2(2) have "r < 128" by simp
  with DecodeRune_ascii [of a rest] have "DecodeRune (a # rest) = (a, 1)" unfolding d by (simp only: fst_conv)
  then have rw: "r = a" "w = 1" unfolding d by simp_all
  have dec: "decode_bytes (a # rest) = a # decode_bytes rest" 
    unfolding decode_bytes.simps(2) Let_def d rw by (simp only: case_prod_conv drop_Suc_Cons One_nat_def drop_0)
  with 2(2) have "\<forall>r \<in> set (decode_bytes rest). r < 128" by simp
  then have "\<forall>x \<in> set (decode_bytes (drop w (a # rest))). x < 128" by (simp add: rw)
  from 2(1) [OF refl d [symmetric] this] have "decode_bytes rest = rest" by (simp add: rw)
  with dec show ?case by simp
qed simp

lemma runes_ascii_inv: "\<forall>r \<in> set (runes s). r < 128 \<Longrightarrow> runes s = map byte s \<and> (\<forall>c \<in> set s. byte c < 128)"
  using decode_ascii_inv [of "map byte s"] by (auto simp: runes_def)

lemma string_of_runes_ascii_inv:
  assumes "\<forall>c \<in> set (string_of_runes rs). byte c < 128"
  shows "\<forall>r \<in> set rs. r < 128"
proof
  fix r assume r: "r \<in> set rs"
  show "r < 128"
  proof (rule ccontr)
    assume "\<not> r < 128"
    then have "\<exists>b \<in> set (EncodeRune r). 128 \<le> b mod 256"
      by (auto simp: EncodeRune_def)
    then show False
      using r assms by (fastforce simp: string_of_runes_def of_char_of)
  qed
qed

declare DecodeRune.simps(2) [simp del]

definition trim_runes :: "rune list \<Rightarrow> rune list" where
  "trim_runes rs = rev (dropWhile isWhitespace (rev (dropWhile isWhitespace rs)))"

lemma trim_runes_ends:
  assumes "trim_runes rs \<noteq> []"
  shows "\<not> isWhitespace (hd (trim_runes rs))" "\<not> isWhitespace (last (trim_runes rs))"
proof -
  let ?d = "dropWhile isWhitespace rs"
  let ?e = "dropWhile isWhitespace (rev ?d)"
  from assms have e: "?e \<noteq> []" by (simp add: trim_runes_def)
  then show "\<not> isWhitespace (last (trim_runes rs))" by (simp add: trim_runes_def last_rev hd_dropWhile)
  have d: "?d \<noteq> []" using e by (metis dropWhile.simps(1) rev.simps(1))
  obtain pre where "rev ?d = pre @ ?e" by (metis takeWhile_dropWhile_id)
  then have "hd ?d = last ?e" using e by (metis hd_rev last_appendR rev_rev_ident)
  with hd_dropWhile [of isWhitespace rs] d show "\<not> isWhitespace (hd (trim_runes rs))"
    by (simp add: trim_runes_def hd_rev)
qed

lemma trim_runes_id:
  assumes "rs \<noteq> []" "\<not> isWhitespace (hd rs)" "\<not> isWhitespace (last rs)"
  shows "trim_runes rs = rs"
proof -
  have "dropWhile isWhitespace rs = rs" using assms(1,2) by (cases rs) auto
  moreover have "dropWhile isWhitespace (rev rs) = rev rs"
    using assms(1,3) by (cases "rev rs") (auto simp: last_snoc)
  ultimately show ?thesis by (simp add: trim_runes_def)
qed

lemma ValidateLabel_None:
  "ValidateLabel s = None \<longleftrightarrow> s \<noteq> [] \<and> 1 \<le> length (runes s) \<and> length (runes s) \<le> 255 \<and>
     list_all label_rune (runes s)"
  by (auto simp: ValidateLabel_def Let_def RuneCountInString_def validLabelRegex_def Suc_le_eq)

lemma sanitize_again:
  assumes "SanitizeLabel label = Inr s"
  shows "1 \<le> length s \<and> length s \<le> 255 \<and> (\<forall>c \<in> set s. label_rune (byte c)) \<and>
    \<not> isWhitespace (byte (hd s)) \<and> \<not> isWhitespace (byte (last s)) \<and> SanitizeLabel s = Inr s"
proof -
  let ?R = "runes (filter (\<lambda>c. c \<noteq> CHR 0x00) label)"
  let ?T = "trim_runes ?R"
  from assms have s: "s = string_of_runes ?T" and v: "ValidateLabel s = None"
    by (auto simp: SanitizeLabel_def Let_def SanitizeString_def sanitizeString_def trim_runes_def split: option.splits)
  from v have len: "s \<noteq> []" "1 \<le> length (runes s)" "length (runes s) \<le> 255" and cls: "\<forall>r \<in> set (runes s). label_rune r"
    by (simp_all add: ValidateLabel_None list_all_iff)
  from cls have "\<forall>r \<in> set (runes s). r < 128" using label_rune_ascii by blast
  then have rs: "runes s = map byte s" "\<forall>c \<in> set s. byte c < 128" using runes_ascii_inv by blast+
  have T: "\<forall>r \<in> set ?T. r < 128" using string_of_runes_ascii_inv rs(2) s by blast
  then have sT: "s = map char_of ?T" unfolding s by (rule string_of_runes_ascii)
  have bT: "map byte s = ?T" 
  proof -
    have "map (\<lambda>r. byte (char_of r)) ?T = ?T" by (rule map_idI) (use T in \<open>auto simp: of_char_of\<close>)
    then show ?thesis by (simp add: sT comp_def)
  qed
  have ne: "?T \<noteq> []" using len(1) sT by auto
  have c: "\<forall>c \<in> set s. label_rune (byte c)" using cls rs(1) by simp
  have ends: "byte (hd s) = hd ?T" "byte (last s) = last ?T"
    using bT len(1) by (metis hd_map, metis last_map)
  note w = trim_runes_ends [OF ne]
  have "filter (\<lambda>c. c \<noteq> CHR 0x00) s = s"
    using c label_rune_ascii by (fastforce simp: filter_id_conv)
  then have "SanitizeString s = string_of_runes (trim_runes ?T)"
    by (simp add: SanitizeString_def sanitizeString_def trim_runes_def rs(1) bT)
  also have "trim_runes ?T = ?T" by (rule trim_runes_id [OF ne w])
  finally have "SanitizeLabel s = Inr s" using v s by (simp add: SanitizeLabel_def)
  with len rs(1) c ends w show ?thesis by simp
qed

text \<open>
  C27. A label that is accepted has between 1 and 255 characters, all of them ASCII letters, digits,
  white space, hyphens, underscores and dots, does not begin or end with a blank, tab or line
  break, and is accepted again unchanged.
\<close>

theorem SanitizeLabel_accepts:
  assumes "SanitizeLabel label = Inr s"
  shows "1 \<le> length s \<and> length s \<le> 255 \<and> (\<forall>c \<in> set s. label_rune (byte c)) \<and>
    \<not> isWhitespace (byte (hd s)) \<and> \<not> isWhitespace (byte (last s)) \<and> SanitizeLabel s = Inr s"
  using assms by (rule sanitize_again)

theorem SanitizeLabel_accepts_witness:
  "SanitizeLabel '' page-views.v2 '' = Inr ''page-views.v2'' \<and> SanitizeLabel ''page-views.v2'' = Inr ''page-views.v2''"
proof
  show s: "SanitizeLabel '' page-views.v2 '' = Inr ''page-views.v2''" by code_simp
  show "SanitizeLabel ''page-views.v2'' = Inr ''page-views.v2''" using SanitizeLabel_accepts [OF s] by blast
qed

text \<open>
  The overflow test for an increment is exact: it accepts a non-zero delta if and only if the sum
  stays within the range of counter values, computed without wrapping.
\<close>

theorem ValidateIncrement_exact:
  assumes "in_int64 currentValue" "in_int64 delta" "delta \<noteq> 0" "currentValue \<le> MaxCounterValue"
  shows "ValidateIncrement currentValue delta = None \<longleftrightarrow>
    MinCounterValue \<le> currentValue + delta \<and> currentValue + delta \<le> MaxCounterValue"
proof -
  have "wrap64 (MaxCounterValue - delta) = MaxCounterValue - delta" if "0 < delta"
    using that assms by (intro wrap64_id) (auto simp: in_int64_def minInt64_def maxInt64_def)
  moreover have "wrap64 (MinCounterValue - delta) = MinCounterValue - delta" if "delta < 0"
    using that assms by (intro wrap64_id) (auto simp: in_int64_def minInt64_def maxInt64_def)
  ultimately show ?thesis
    using assms by (auto simp: ValidateIncrement_def in_int64_def minInt64_def maxInt64_def)
qed

theorem ValidateIncrement_exact_witness: "ValidateIncrement 9223372036854775800 7 = Some (Sentinel ErrCounterValueOverflow)"
proof -
  have "ValidateIncrement 9223372036854775800 7 = None \<longleftrightarrow>
      MinCounterValue \<le> 9223372036854775800 + 7 \<and> 9223372036854775800 + 7 \<le> MaxCounterValue"
    by (rule ValidateIncrement_exact) (simp_all add: in_int64_def minInt64_def maxInt64_def)
  then show ?thesis by (auto simp: ValidateIncrement_def split: if_splits)
qed

text \<open>
  A creation request that passes validation has a maximum delta of at least 1, an initial value
  that a counter can hold, and a label that is empty or in the form the sanitiser accepts; and
  validating it again changes nothing.
\<close>

theorem CreateCounterRequest_Validate_normal:
  assumes "CreateCounterRequest_Validate r = Inr r'"
  shows "1 \<le> rq_MaxDelta r' \<and> rq_InitialValue r' = rq_InitialValue r \<and>
    MinCounterValue \<le> rq_InitialValue r' \<and> rq_InitialValue r' \<le> MaxCounterValue \<and>
    (rq_Label r' = [] \<or> SanitizeLabel (rq_Label r') = Inr (rq_Label r')) \<and>
    CreateCounterRequest_Validate r' = Inr r'"
proof -
  from assms obtain label where l: "(if rq_Label r \<noteq> [] then SanitizeLabel (rq_Label r) else Inr (rq_Label r)) = Inr label"
    by (cases "if rq_Label r \<noteq> [] then SanitizeLabel (rq_Label r) else Inr (rq_Label r)")
      (simp_all add: CreateCounterRequest_Validate_def)
  let ?m = "if rq_MaxDelta r = 0 then 50 else rq_MaxDelta r"
  from assms l have r': "r' = r\<lparr>rq_Label := label, rq_MaxDelta := ?m\<rparr>" and m: "1 \<le> ?m"
    and v: "ValidateCounterValue (rq_InitialValue r) = None"
    by (auto simp: CreateCounterRequest_Validate_def Let_def split: option.splits if_splits)
  have lab: "label = [] \<or> SanitizeLabel label = Inr label"
  proof (cases "rq_Label r = []")
    case False
    with l have "SanitizeLabel (rq_Label r) = Inr label" by simp
    with sanitize_again show ?thesis by blast
  qed (use l in simp)
  have "MinCounterValue \<le> rq_InitialValue r \<and> rq_InitialValue r \<le> MaxCounterValue"
    using v by (auto simp: ValidateCounterValue_def split: if_splits)
  moreover have "CreateCounterRequest_Validate r' = Inr r'"
    using lab m v by (auto simp: r' CreateCounterRequest_Validate_def Let_def)
  ultimately show ?thesis using lab m by (simp add: r')
qed

theorem CreateCounterRequest_Validate_normal_witness:
  "CreateCounterRequest_Validate \<lparr>rq_Label = '' hits '', rq_InitialValue = 3, rq_MaxDelta = 0\<rparr> =
     Inr \<lparr>rq_Label = ''hits'', rq_InitialValue = 3, rq_MaxDelta = 50\<rparr> \<and>
   CreateCounterRequest_Validate \<lparr>rq_Label = ''hits'', rq_InitialValue = 3, rq_MaxDelta = 50\<rparr> =
     Inr \<lparr>rq_Label = ''hits'', rq_InitialValue = 3, rq_MaxDelta = 50\<rparr>"
proof
  show v: "CreateCounterRequest_Validate \<lparr>rq_Label = '' hits '', rq_InitialValue = 3, rq_MaxDelta = 0\<rparr> =
     Inr \<lparr>rq_Label = ''hits'', rq_InitialValue = 3, rq_MaxDelta = 50\<rparr>" by code_simp
  show "CreateCounterRequest_Validate \<lparr>rq_Label = ''hits'', rq_InitialValue = 3, rq_MaxDelta = 50\<rparr> =
     Inr \<lparr>rq_Label = ''hits'', rq_InitialValue = 3, rq_MaxDelta = 50\<rparr>"
    using CreateCounterRequest_Validate_normal [OF v] by blast
qed

end
