(* ===== verification/Base64.thy ===== *)
theory Base64
  imports Text
begin

text \<open>\<open>base64.RawURLEncoding\<close> of the standard library: the URL alphabet, no padding.\<close>

definition b64_char :: "nat \<Rightarrow> char" where
  "b64_char n =
     (if n < 26 then char_of (65 + n) else if n < 52 then char_of (71 + n)
      else if n < 62 then char_of (n - 4) else if n = 62 then CHR ''-'' else CHR ''_'')"

text \<open>\<open>base64.RawURLEncoding\<close>: three bytes to four characters, no padding.\<close>

fun RawURLEncoding :: "nat list \<Rightarrow> string" where
  "RawURLEncoding [] = []"
| "RawURLEncoding [a] = [b64_char (a div 4), b64_char (a mod 4 * 16)]"
| "RawURLEncoding [a, b] = [b64_char (a div 4), b64_char (a mod 4 * 16 + b div 16), b64_char (b mod 16 * 4)]"
| "RawURLEncoding (a # b # c # rest) =
     b64_char (a div 4) # b64_char (a mod 4 * 16 + b div 16) # b64_char (b mod 16 * 4 + c div 64) #
     b64_char (c mod 64) # RawURLEncoding rest"

definition b64_value :: "char \<Rightarrow> nat option" where
  "b64_value c =
     (let n = of_char c in
      if 65 \<le> n \<and> n \<le> 90 then Some (n - 65)
      else if 97 \<le> n \<and> n \<le> 122 then Some (n - 71)
      else if 48 \<le> n \<and> n \<le> 57 then Some (n + 4)
      else if c = CHR ''-'' then Some 62 else if c = CHR ''_'' then Some 63 else None)"

text \<open>Four characters to three bytes; the bits a short last group has too many are ignored.\<close>

fun b64_groups :: "nat list \<Rightarrow> nat list option" where
  "b64_groups [] = Some []"
| "b64_groups [w, x] = Some [w * 4 + x div 16]"
| "b64_groups [w, x, y] = Some [w * 4 + x div 16, x mod 16 * 16 + y div 4]"
| "b64_groups (w # x # y # z # rest) =
     map_option (\<lambda>bs. (w * 4 + x div 16) # (x mod 16 * 16 + y div 4) # (y mod 4 * 64 + z) # bs) (b64_groups rest)"
| "b64_groups _ = None"

definition RawURLDecode :: "string \<Rightarrow> nat list option" where
  "RawURLDecode s =
     Option.bind (those (map b64_value (filter (\<lambda>c. c \<noteq> CHR 0x0A \<and> c \<noteq> CHR 0x0D) s))) b64_groups"

lemma char_of_neq: "k < 256 \<Longrightarrow> k \<noteq> (of_char c :: nat) \<Longrightarrow> char_of k \<noteq> c"
  by auto

lemma b64_char_value:
  assumes "n < 64"
  shows "b64_value (b64_char n) = Some n \<and> b64_char n \<noteq> CHR 0x0A \<and> b64_char n \<noteq> CHR 0x0D"
proof -
  consider "n < 26" | "26 \<le> n" "n < 52" | "52 \<le> n" "n < 62" | "n = 62" | "n = 63" using assms by linarith
  then show ?thesis
  proof cases
    case 1
    then show ?thesis by (simp add: b64_char_def b64_value_def Let_def char_of_neq)
  next
    case 2
    then show ?thesis by (simp add: b64_char_def b64_value_def Let_def char_of_neq)
  next
    case 3
    then have "48 \<le> n - 4" "n - 4 \<le> 57" by linarith+
    with 3 show ?thesis by (simp add: b64_char_def b64_value_def Let_def char_of_neq)
  qed (simp_all add: b64_char_def b64_value_def Let_def)
qed

fun b64_codes :: "nat list \<Rightarrow> nat list" where
  "b64_codes [] = []"
| "b64_codes [a] = [a div 4, a mod 4 * 16]"
| "b64_codes [a, b] = [a div 4, a mod 4 * 16 + b div 16, b mod 16 * 4]"
| "b64_codes (a # b # c # rest) =
     a div 4 # (a mod 4 * 16 + b div 16) # (b mod 16 * 4 + c div 64) # (c mod 64) # b64_codes rest"

lemma RawURLEncoding_codes: "RawURLEncoding bs = map b64_char (b64_codes bs)"
  by (induction bs rule: b64_codes.induct) simp_all

lemma sextets:
  fixes a b c :: nat
  assumes "a < 256" "b < 256" "c < 256"
  shows "a div 4 < 64" "a mod 4 * 16 + b div 16 < 64" "b mod 16 * 4 + c div 64 < 64" "c mod 64 < 64"
    "a mod 4 * 16 < 64" "b mod 16 * 4 < 64"
    "a div 4 * 4 + (a mod 4 * 16 + b div 16) div 16 = a" "a div 4 * 4 + a mod 4 * 16 div 16 = a"
    "(a mod 4 * 16 + b div 16) mod 16 * 16 + (b mod 16 * 4 + c div 64) div 4 = b"
    "(a mod 4 * 16 + b div 16) mod 16 * 16 + b mod 16 * 4 div 4 = b"
    "(b mod 16 * 4 + c div 64) mod 4 * 64 + c mod 64 = c"
proof -
  have h: "b div 16 < 16" "c div 64 < 4" using assms by (simp_all add: less_mult_imp_div_less)
  have low: "(k * 16 + x) div 16 = k" "(k * 16 + x) mod 16 = x" if "x < 16" for k x :: nat using that by simp_all
  have low4: "(k * 4 + x) div 4 = k" "(k * 4 + x) mod 4 = x" if "x < 4" for k x :: nat using that by simp_all
  show "a div 4 < 64" using assms by (simp add: less_mult_imp_div_less)
  have "a mod 4 < 4" "b mod 16 < 16" by simp_all
  then show "a mod 4 * 16 + b div 16 < 64" "b mod 16 * 4 + c div 64 < 64" "c mod 64 < 64" "a mod 4 * 16 < 64"
    "b mod 16 * 4 < 64" using h by linarith+
  show "a div 4 * 4 + (a mod 4 * 16 + b div 16) div 16 = a" "a div 4 * 4 + a mod 4 * 16 div 16 = a"
    unfolding low [OF h(1)] by simp_all
  show "(a mod 4 * 16 + b div 16) mod 16 * 16 + (b mod 16 * 4 + c div 64) div 4 = b"
    "(a mod 4 * 16 + b div 16) mod 16 * 16 + b mod 16 * 4 div 4 = b"
    unfolding low [OF h(1)] low4 [OF h(2)] by simp_all
  show "(b mod 16 * 4 + c div 64) mod 4 * 64 + c mod 64 = c" unfolding low4 [OF h(2)] by simp
qed

lemma b64_codes_small: "\<forall>b \<in> set bs. b < 256 \<Longrightarrow> \<forall>n \<in> set (b64_codes bs). n < 64"
proof (induction bs rule: b64_codes.induct)
  case (2 a)
  then show ?case using sextets [of a 0 0] by simp
next
  case (3 a b)
  then show ?case using sextets [of a b 0] by simp
next
  case (4 a b c rest)
  then show ?case using sextets [of a b c] by simp
qed simp

lemma b64_groups_codes: "\<forall>b \<in> set bs. b < 256 \<Longrightarrow> b64_groups (b64_codes bs) = Some bs"
proof (induction bs rule: b64_codes.induct)
  case (2 a)
  then show ?case using sextets [of a 0 0] by simp
next
  case (3 a b)
  then show ?case using sextets [of a b 0] by simp
next
  case (4 a b c rest)
  then show ?case using sextets [of a b c] by simp
qed simp

lemma those_map_Some: "\<forall>x \<in> set xs. f x = Some (g x) \<Longrightarrow> those (map f xs) = Some (map g xs)"
  by (induction xs) auto

lemma RawURLDecode_Encoding:
  assumes "\<forall>b \<in> set bs. b < 256"
  shows "RawURLDecode (RawURLEncoding bs) = Some bs"
proof -
  note small = b64_codes_small [OF assms]
  have "filter (\<lambda>c. c \<noteq> CHR 0x0A \<and> c \<noteq> CHR 0x0D) (map b64_char (b64_codes bs)) = map b64_char (b64_codes bs)"
    using small b64_char_value by (auto simp: filter_id_conv)
  moreover have "those (map (b64_value \<circ> b64_char) (b64_codes bs)) = Some (b64_codes bs)"
    using those_map_Some [of "b64_codes bs" "b64_value \<circ> b64_char" id] small b64_char_value by simp
  ultimately show ?thesis
    using b64_groups_codes [OF assms] by (simp add: RawURLDecode_def RawURLEncoding_codes)
qed

end
