(* ===== verification/Credential.thy ===== *)
theory Credential
  imports Counter_Store Base64
begin

text \<open>
  API credentials: the key format (\<open>internal/security/apikey.go\<close>), the store
  (\<open>internal/store/credential.go\<close>), the service (\<open>internal/service/credential.go\<close>) and the
  authentication and authorization of requests (\<open>internal/middleware/auth.go\<close>).
\<close>

section \<open>Keys\<close>

definition HashAPIKey :: "externals \<Rightarrow> string \<Rightarrow> string" where
  "HashAPIKey X secret = sha256 X secret"

definition FormatAPIKey :: "string \<Rightarrow> string \<Rightarrow> string" where
  "FormatAPIKey credentialID secret = ''ck'' @ ''_'' @ credentialID @ ''.'' @ secret"

text \<open>The random bytes, or the error of reading them, are the first argument.\<close>

definition GenerateAPIKey :: "externals \<Rightarrow> go_error + nat list \<Rightarrow> string \<Rightarrow> go_error + (string \<times> string)" where
  "GenerateAPIKey X rand credentialID =
     (case rand of
        Inl e \<Rightarrow> Inl (Wrapf ''generate API key secret'' e)
      | Inr secretBytes \<Rightarrow>
        (let secret = RawURLEncoding secretBytes
         in Inr (FormatAPIKey credentialID secret, HashAPIKey X secret)))"

definition ParseAPIKey :: "string \<Rightarrow> go_error + (string \<times> string)" where
  "ParseAPIKey key =
     (if \<not> HasPrefix key (''ck'' @ ''_'') then Inl (Msg ''invalid API key prefix'')
      else
        (case cut CHR ''.'' (TrimPrefix key (''ck'' @ ''_'')) of
           None \<Rightarrow> Inl (Msg ''invalid API key format'')
         | Some (i, s) \<Rightarrow>
             if i = [] \<or> s = [] then Inl (Msg ''invalid API key format'') else Inr (i, s)))"

section \<open>The store\<close>

text \<open>The policies of migration 10 on \<open>api_credentials\<close>.\<close>

definition credential_lookup :: "externals \<Rightarrow> access \<Rightarrow> credential \<Rightarrow> bool" where
  "credential_lookup X a r \<longleftrightarrow>
     acc_AuthenticationID a \<noteq> [] \<and> pg_uuid X (acc_AuthenticationID a) = Some (cr_id r) \<or>
     counter_app_admin a \<and> counter_tenant_visible X a (cr_tenant_id r)"

definition credential_write :: "externals \<Rightarrow> access \<Rightarrow> string option \<Rightarrow> bool" where
  "credential_write X a t \<longleftrightarrow> counter_app_admin a \<and> counter_tenant_visible X a t"

definition active_at :: "time \<Rightarrow> credential \<Rightarrow> bool" where
  "active_at now r \<longleftrightarrow> cr_revoked_at r = None \<and> (case cr_expires_at r of None \<Rightarrow> True | Some t \<Rightarrow> t > now)"

definition select_credential_stmt ::
  "externals \<Rightarrow> access \<Rightarrow> time \<Rightarrow> string \<Rightarrow> database \<Rightarrow> go_error + credential" where
  "select_credential_stmt X a now credentialID db =
     (case pg_uuid X credentialID of
        None \<Rightarrow> Inl (Pq ''22P02'')
      | Some i \<Rightarrow>
        (case find (\<lambda>r. cr_id r = i \<and> active_at now r \<and> credential_lookup X a r) (credentials db) of
           None \<Rightarrow> Inl (Sentinel ErrNoRows)
         | Some r \<Rightarrow> Inr r))"

definition insert_credential_stmt :: "externals \<Rightarrow> access \<Rightarrow> credential \<Rightarrow> database \<Rightarrow> go_error + database" where
  "insert_credential_stmt X a c db =
     (case (pg_uuid X (cr_id c), map_option (pg_uuid X) (cr_tenant_id c), map_option (pg_uuid X) (cr_rotated_from c)) of
        (None, _, _) \<Rightarrow> Inl (Pq ''22P02'')
      | (_, Some None, _) \<Rightarrow> Inl (Pq ''22P02'')
      | (_, _, Some None) \<Rightarrow> Inl (Pq ''22P02'')
      | (Some i, tn, rf) \<Rightarrow>
        (let t = Option.bind tn (\<lambda>x. x); rf' = Option.bind rf (\<lambda>x. x)
         in if \<not> credential_write X a t then Inl (Pq ''42501'')
            else if \<not> cr_is_admin c \<and> t = None then Inl (Pq ''23514'')
            else if list_ex (\<lambda>r. cr_id r = i) (credentials db) then Inl (Pq ''23505'')
            else if (case t of None \<Rightarrow> False | Some t' \<Rightarrow> \<not> list_ex (\<lambda>r. tn_id r = t') (tenants db))
              then Inl (Pq ''23503'')
            else if (case rf' of None \<Rightarrow> False | Some i' \<Rightarrow> \<not> list_ex (\<lambda>r. cr_id r = i') (credentials db))
              then Inl (Pq ''23503'')
            else Inr (db\<lparr>credentials := credentials db @
              [c\<lparr>cr_id := i, cr_tenant_id := t, cr_rotated_from := rf',
                 cr_created_at := pg_time X (cr_created_at c),
                 cr_expires_at := map_option (pg_time X) (cr_expires_at c), cr_revoked_at := None\<rparr>]\<rparr>)))"

text \<open>The statement's result is the number of rows it changed.\<close>

definition revoke_credential_stmt ::
  "externals \<Rightarrow> access \<Rightarrow> string \<Rightarrow> time \<Rightarrow> database \<Rightarrow> go_error + (nat \<times> database)" where
  "revoke_credential_stmt X a credentialID revokedAt db =
     (case pg_uuid X credentialID of
        None \<Rightarrow> Inl (Pq ''22P02'')
      | Some i \<Rightarrow>
        (let hit = (\<lambda>r. cr_id r = i \<and> cr_revoked_at r = None \<and> credential_write X a (cr_tenant_id r))
         in Inr (length (filter hit (credentials db)),
              db\<lparr>credentials := update_where hit (\<lambda>r. r\<lparr>cr_revoked_at := Some (pg_time X revokedAt)\<rparr>)
                   (credentials db)\<rparr>)))"

definition GetActiveCredential ::
  "externals \<Rightarrow> faults \<Rightarrow> go_context \<Rightarrow> time \<Rightarrow> string \<Rightarrow> database \<Rightarrow> go_error + credential option" where
  "GetActiveCredential X f ctx now credentialID db =
     (case query f ctx SGetCredential (select_credential_stmt X (AccessFromContext ctx) now credentialID) db of
        Inl e \<Rightarrow> if errors_Is e ErrNoRows then Inr None else Inl (Wrapf ''get active credential'' e)
      | Inr r \<Rightarrow> Inr (Some r))"

definition LookupCredential ::
  "externals \<Rightarrow> faults \<Rightarrow> go_context \<Rightarrow> time \<Rightarrow> string \<Rightarrow> database \<Rightarrow> go_error + credential option" where
  "LookupCredential X f ctx now credentialID db =
     GetActiveCredential X f (WithAccess ctx (no_access\<lparr>acc_AuthenticationID := credentialID\<rparr>)) now credentialID db"

definition mapCredentialWriteError :: "go_error \<Rightarrow> go_error" where
  "mapCredentialWriteError e =
     (if errors_As_pq e = Some ''23503'' then Sentinel StoreErrTenantNotFound else Wrapf ''create credential'' e)"

definition CreateCredential ::
  "externals \<Rightarrow> faults \<Rightarrow> go_context \<Rightarrow> credential \<Rightarrow> database \<Rightarrow> (go_error + unit) \<times> database" where
  "CreateCredential X f ctx c db =
     (case ExecutorFor f ctx SInsertCredential
         (\<lambda>d. case insert_credential_stmt X (AccessFromContext ctx) c d of Inl e \<Rightarrow> Inl e | Inr d' \<Rightarrow> Inr ((), d')) db of
        (Inl e, db') \<Rightarrow> (Inl (mapCredentialWriteError e), db')
      | (Inr u, db') \<Rightarrow> (Inr u, db'))"

definition CreateCredentialAndAudit ::
  "externals \<Rightarrow> faults \<Rightarrow> go_context \<Rightarrow> credential \<Rightarrow> audit_event \<Rightarrow> database \<Rightarrow> (go_error + unit) \<times> database" where
  "CreateCredentialAndAudit X f ctx c ev db =
     BeginWrite f ctx (Wrapf ''begin credential creation'') (\<lambda>_. Wrapf ''commit credential creation'')
       (\<lambda>d. case exec f SInsertCredential (insert_credential_stmt X (AccessFromContext ctx) c d) of
              Inl e \<Rightarrow> (Inl (mapCredentialWriteError e), d)
            | Inr d1 \<Rightarrow>
              (case exec f SInsertAudit (insert_audit_stmt X (AccessFromContext ctx) ev d1) of
                 Inl e \<Rightarrow> (Inl (Wrapf ''create credential audit event'' e), d1)
               | Inr d2 \<Rightarrow> (Inr (), d2))) db"

definition RevokeCredential ::
  "externals \<Rightarrow> faults \<Rightarrow> go_context \<Rightarrow> string \<Rightarrow> time \<Rightarrow> database \<Rightarrow> (go_error + unit) \<times> database" where
  "RevokeCredential X f ctx credentialID revokedAt db =
     (case ExecutorFor f ctx SRevokeCredential
         (revoke_credential_stmt X (AccessFromContext ctx) credentialID revokedAt) db of
        (Inl e, db') \<Rightarrow> (Inl (Wrapf ''revoke credential'' e), db')
      | (Inr affected, db') \<Rightarrow>
          (if affected = 0 then Inl (Sentinel StoreErrCredentialNotFound) else Inr (), db'))"

definition RevokeCredentialAndAudit ::
  "externals \<Rightarrow> faults \<Rightarrow> go_context \<Rightarrow> string \<Rightarrow> time \<Rightarrow> audit_event \<Rightarrow> database \<Rightarrow> (go_error + unit) \<times> database" where
  "RevokeCredentialAndAudit X f ctx credentialID revokedAt ev db =
     BeginWrite f ctx (Wrapf ''begin credential revocation'') (\<lambda>_. Wrapf ''commit credential revocation'')
       (\<lambda>d. case exec f SRevokeCredential (revoke_credential_stmt X (AccessFromContext ctx) credentialID revokedAt d) of
              Inl e \<Rightarrow> (Inl (Wrapf ''revoke credential'' e), d)
            | Inr (affected, d1) \<Rightarrow>
              if affected = 0 then (Inl (Sentinel StoreErrCredentialNotFound), d1)
              else
                (case exec f SInsertAudit (insert_audit_stmt X (AccessFromContext ctx) ev d1) of
                   Inl e \<Rightarrow> (Inl (Wrapf ''create revocation audit event'' e), d1)
                 | Inr d2 \<Rightarrow> (Inr (), d2))) db"

definition CreateAuthAuditEvent ::
  "externals \<Rightarrow> faults \<Rightarrow> go_context \<Rightarrow> audit_event \<Rightarrow> database \<Rightarrow> (go_error + unit) \<times> database" where
  "CreateAuthAuditEvent X f ctx ev db =
     (case ExecutorFor f ctx SInsertAudit
         (\<lambda>d. case insert_audit_stmt X (AccessFromContext ctx) ev d of Inl e \<Rightarrow> Inl e | Inr d' \<Rightarrow> Inr ((), d')) db of
        (Inl e, db') \<Rightarrow> (Inl (Wrapf ''create auth audit event'' e), db')
      | (Inr u, db') \<Rightarrow> (Inr u, db'))"

section \<open>The service\<close>

definition allowed_scopes :: "string list" where
  "allowed_scopes = [''tenant:read'', ''counter:read'', ''counter:list'', ''counter:create'', ''counter:increment'',
     ''counter:adjust'', ''counter:history'', ''metadata:read'', ''metadata:write'']"

fun dedup_scopes :: "string list \<Rightarrow> string list \<Rightarrow> go_error + string list" where
  "dedup_scopes result [] = Inr result"
| "dedup_scopes result (s # rest) =
     (if s \<notin> set allowed_scopes then Inl (Msg (''unsupported credential scope '' @ s))
      else dedup_scopes (if s \<in> set result then result else result @ [s]) rest)"

definition normalizeCredentialScopes :: "string list \<Rightarrow> go_error + string list" where
  "normalizeCredentialScopes scopes =
     (let scopes' = (if scopes = [] then [''counter:read'', ''counter:increment'', ''counter:history''] else scopes)
      in case dedup_scopes [] scopes' of Inl e \<Rightarrow> Inl e | Inr result \<Rightarrow> Inr (sort result))"

definition auditEvent :: "string \<Rightarrow> time \<Rightarrow> credential \<Rightarrow> string \<Rightarrow> audit_action \<Rightarrow> audit_event" where
  "auditEvent newID now c actorID action =
     \<lparr>ev_id = newID, ev_credential_id = Some (cr_id c), ev_tenant_id = cr_tenant_id c, ev_actor_id = actorID,
      ev_action = action, ev_metadata = JObject [], ev_created_at = now\<rparr>"

record issue_response =
  is_CredentialID :: string
  is_TenantID :: string
  is_APIKey :: string
  is_Scopes :: "string list"
  is_ExpiresAt :: "time option"

definition issueResponse :: "credential \<Rightarrow> string \<Rightarrow> issue_response" where
  "issueResponse c apiKey = \<lparr>is_CredentialID = cr_id c,
     is_TenantID = (case cr_tenant_id c of None \<Rightarrow> [] | Some t \<Rightarrow> t),
     is_APIKey = apiKey, is_Scopes = cr_scopes c, is_ExpiresAt = cr_expires_at c\<rparr>"

definition credentialBelongsToTenant :: "credential option \<Rightarrow> string \<Rightarrow> bool" where
  "credentialBelongsToTenant c tenantID \<longleftrightarrow>
     (case c of None \<Rightarrow> False | Some c \<Rightarrow> cr_tenant_id c = Some tenantID)"

text \<open>
  What one call reads from outside: the clock, the fresh identifiers of the credential and of the
  audit event, and the random bytes.
\<close>

record issue_env =
  ie_now :: time
  ie_newID :: string
  ie_auditID :: string
  ie_rand :: "go_error + nat list"

definition Credential_create ::
  "externals \<Rightarrow> faults \<Rightarrow> go_context \<Rightarrow> issue_env \<Rightarrow> string option \<Rightarrow> bool \<Rightarrow> string list \<Rightarrow> time option \<Rightarrow> string \<Rightarrow>
   database \<Rightarrow> (go_error + issue_response) \<times> database" where
  "Credential_create X f ctx e tenantID isAdmin scopes expiresAt actorID db =
     (case normalizeCredentialScopes scopes of
        Inl err \<Rightarrow> (Inl err, db)
      | Inr scopes' \<Rightarrow>
        if (case expiresAt of None \<Rightarrow> False | Some t \<Rightarrow> \<not> t > ie_now e)
        then (Inl (Msg ''credential expiry must be in the future''), db)
        else
          (case GenerateAPIKey X (ie_rand e) (ie_newID e) of
             Inl err \<Rightarrow> (Inl err, db)
           | Inr (apiKey, verifier) \<Rightarrow>
             (let c = \<lparr>cr_id = ie_newID e, cr_tenant_id = tenantID, cr_verifier = verifier, cr_scopes = scopes',
                       cr_is_admin = isAdmin, cr_created_at = ie_now e, cr_expires_at = expiresAt,
                       cr_revoked_at = None, cr_created_by = actorID, cr_rotated_from = None\<rparr>
              in case CreateCredentialAndAudit X f ctx c (auditEvent (ie_auditID e) (ie_now e) c actorID ActCreated) db of
                   (Inl err, db') \<Rightarrow>
                     (if errors_Is err StoreErrTenantNotFound then Inl (Sentinel ErrTenantNotFound) else Inl err, db')
                 | (Inr _, db') \<Rightarrow> (Inr (issueResponse c apiKey), db'))))"

definition Credential_Create ::
  "externals \<Rightarrow> faults \<Rightarrow> go_context \<Rightarrow> issue_env \<Rightarrow> string \<Rightarrow> string list \<Rightarrow> time option \<Rightarrow> string \<Rightarrow>
   database \<Rightarrow> (go_error + issue_response) \<times> database" where
  "Credential_Create X f ctx e tenantID scopes expiresAt actorID db =
     Credential_create X f ctx e (Some tenantID) False scopes expiresAt actorID db"

definition Credential_CreateAdmin ::
  "externals \<Rightarrow> faults \<Rightarrow> go_context \<Rightarrow> issue_env \<Rightarrow> string list \<Rightarrow> time option \<Rightarrow> string \<Rightarrow>
   database \<Rightarrow> (go_error + issue_response) \<times> database" where
  "Credential_CreateAdmin X f ctx e scopes expiresAt actorID db =
     Credential_create X f ctx e None True scopes expiresAt actorID db"

definition Credential_Rotate ::
  "externals \<Rightarrow> faults \<Rightarrow> go_context \<Rightarrow> issue_env \<Rightarrow> string \<Rightarrow> string \<Rightarrow> string \<Rightarrow>
   database \<Rightarrow> (go_error + issue_response) \<times> database" where
  "Credential_Rotate X f ctx e tenantID credentialID actorID db =
     (case GetActiveCredential X f ctx (ie_now e) credentialID db of
        Inl err \<Rightarrow>
          (if errors_Is err StoreErrCredentialNotFound then Inl (Sentinel ErrCredentialNotFound) else Inl err, db)
      | Inr old \<Rightarrow>
        (case old of
           Some o' \<Rightarrow>
             if \<not> credentialBelongsToTenant old tenantID then (Inl (Sentinel ErrCredentialNotFound), db)
             else
               (case GenerateAPIKey X (ie_rand e) (ie_newID e) of
                  Inl err \<Rightarrow> (Inl err, db)
                | Inr (apiKey, verifier) \<Rightarrow>
                  (let c = \<lparr>cr_id = ie_newID e, cr_tenant_id = cr_tenant_id o', cr_verifier = verifier,
                            cr_scopes = cr_scopes o', cr_is_admin = False, cr_created_at = ie_now e,
                            cr_expires_at = cr_expires_at o', cr_revoked_at = None, cr_created_by = actorID,
                            cr_rotated_from = Some (cr_id o')\<rparr>
                   in case CreateCredentialAndAudit X f ctx c
                          (auditEvent (ie_auditID e) (ie_now e) c actorID ActRotated) db of
                        (Inl err, db') \<Rightarrow> (Inl err, db')
                      | (Inr _, db') \<Rightarrow> (Inr (issueResponse c apiKey), db')))
         | None \<Rightarrow> (Inl (Sentinel ErrCredentialNotFound), db)))"

definition Credential_Revoke ::
  "externals \<Rightarrow> faults \<Rightarrow> go_context \<Rightarrow> issue_env \<Rightarrow> string \<Rightarrow> string \<Rightarrow> string \<Rightarrow> database \<Rightarrow>
   (go_error + unit) \<times> database" where
  "Credential_Revoke X f ctx e tenantID credentialID actorID db =
     (case GetActiveCredential X f ctx (ie_now e) credentialID db of
        Inl err \<Rightarrow>
          (if errors_Is err StoreErrCredentialNotFound then Inl (Sentinel ErrCredentialNotFound) else Inl err, db)
      | Inr c \<Rightarrow>
        (case c of
           Some c' \<Rightarrow>
             if \<not> credentialBelongsToTenant c tenantID then (Inl (Sentinel ErrCredentialNotFound), db)
             else
               (case RevokeCredentialAndAudit X f ctx credentialID (ie_now e)
                    (auditEvent (ie_auditID e) (ie_now e) c' actorID ActRevoked) db of
                  (Inl err, db') \<Rightarrow>
                    (if errors_Is err StoreErrCredentialNotFound then Inl (Sentinel ErrCredentialNotFound)
                     else Inl err, db')
                | (Inr u, db') \<Rightarrow> (Inr u, db'))
         | None \<Rightarrow> (Inl (Sentinel ErrCredentialNotFound), db)))"

section \<open>Authentication\<close>

record principal =
  pr_CredentialID :: string
  pr_TenantID :: string
  pr_Scopes :: "string list"
  pr_IsAdmin :: bool
  pr_Legacy :: bool

definition HasScope :: "principal \<Rightarrow> string \<Rightarrow> bool" where
  "HasScope p scope \<longleftrightarrow> pr_IsAdmin p \<or> list_ex (\<lambda>allowed. allowed = scope) (pr_Scopes p)"

definition secureKeyEqual :: "externals \<Rightarrow> string \<Rightarrow> string \<Rightarrow> bool" where
  "secureKeyEqual X provided expected \<longleftrightarrow> HashAPIKey X provided = HashAPIKey X expected"

definition legacy_principal :: principal where
  "legacy_principal = \<lparr>pr_CredentialID = ''legacy-env-admin'', pr_TenantID = [],
     pr_Scopes = [''tenant:read'', ''counter:read'', ''counter:list'', ''counter:create'', ''counter:increment'',
       ''counter:adjust'', ''counter:history''], pr_IsAdmin = True, pr_Legacy = True\<rparr>"

text \<open>\<open>None\<close> as the third argument is an authenticator without a credential store.\<close>

definition Authenticate ::
  "externals \<Rightarrow> string \<Rightarrow> (string \<Rightarrow> go_error + credential option) option \<Rightarrow> time \<Rightarrow> string \<Rightarrow> go_error + principal" where
  "Authenticate X legacyKey lookup now apiKey =
     (if apiKey = [] then Inl (Sentinel ErrInvalidCredentials)
      else if legacyKey \<noteq> [] \<and> secureKeyEqual X apiKey legacyKey then Inr legacy_principal
      else
        (case (ParseAPIKey apiKey, lookup) of
           (Inr (credentialID, secret), Some find_credential) \<Rightarrow>
             (case find_credential credentialID of
                Inl _ \<Rightarrow> Inl (Sentinel ErrCredentialUnavailable)
              | Inr None \<Rightarrow> Inl (Sentinel ErrInvalidCredentials)
              | Inr (Some c) \<Rightarrow>
                if cr_revoked_at c \<noteq> None \<or> (case cr_expires_at c of None \<Rightarrow> False | Some t \<Rightarrow> \<not> t > now)
                then Inl (Sentinel ErrInvalidCredentials)
                else if HashAPIKey X secret \<noteq> cr_verifier c then Inl (Sentinel ErrInvalidCredentials)
                else Inr \<lparr>pr_CredentialID = cr_id c,
                          pr_TenantID = (case cr_tenant_id c of None \<Rightarrow> [] | Some t \<Rightarrow> t),
                          pr_Scopes = cr_scopes c, pr_IsAdmin = cr_is_admin c, pr_Legacy = False\<rparr>)
         | _ \<Rightarrow> Inl (Sentinel ErrInvalidCredentials)))"

text \<open>The authenticator the program builds looks credentials up in the store.\<close>

definition authenticate_request ::
  "externals \<Rightarrow> faults \<Rightarrow> go_context \<Rightarrow> string \<Rightarrow> time \<Rightarrow> string \<Rightarrow> database \<Rightarrow> go_error + principal" where
  "authenticate_request X f ctx legacyKey now apiKey db =
     Authenticate X legacyKey (Some (\<lambda>i. LookupCredential X f ctx now i db)) now apiKey"

definition PrincipalAuthorized :: "principal \<Rightarrow> string \<Rightarrow> string list \<Rightarrow> bool" where
  "PrincipalAuthorized p tenantID scopes \<longleftrightarrow>
     list_all (HasScope p) scopes \<and> (pr_IsAdmin p \<or> tenantID \<noteq> [] \<and> pr_TenantID p = tenantID)"

section \<open>Keys are unambiguous\<close>

lemma parse_format:
  "ParseAPIKey key = Inr (i, secret) \<longleftrightarrow>
     key = FormatAPIKey i secret \<and> i \<noteq> [] \<and> secret \<noteq> [] \<and> CHR ''.'' \<notin> set i"
proof
  assume p: "ParseAPIKey key = Inr (i, secret)"
  then obtain t where t: "key = (''ck'' @ ''_'') @ t"
    by (auto simp: ParseAPIKey_def HasPrefix_iff split: if_splits)
  with p have "cut CHR ''.'' t = Some (i, secret)" "i \<noteq> []" "secret \<noteq> []"
    by (auto simp: ParseAPIKey_def TrimPrefix_def split: option.splits if_splits)
  with cut_SomeD t show "key = FormatAPIKey i secret \<and> i \<noteq> [] \<and> secret \<noteq> [] \<and> CHR ''.'' \<notin> set i"
    by (fastforce simp: FormatAPIKey_def)
next
  assume k: "key = FormatAPIKey i secret \<and> i \<noteq> [] \<and> secret \<noteq> [] \<and> CHR ''.'' \<notin> set i"
  then have key: "key = (''ck'' @ ''_'') @ (i @ CHR ''.'' # secret)" by (simp add: FormatAPIKey_def)
  have "HasPrefix key (''ck'' @ ''_'')" "TrimPrefix key (''ck'' @ ''_'') = i @ CHR ''.'' # secret"
    unfolding key by (rule HasPrefix_append, rule TrimPrefix_append)
  with k cut_append [of "CHR ''.''" i secret] show "ParseAPIKey key = Inr (i, secret)"
    by (simp add: ParseAPIKey_def)
qed

text \<open>
  C30. Parsing a key inverts formatting it, and parses nothing else: a key is accepted if and only if
  it is the formatted key of the identifier and secret returned, both non-empty, the identifier
  without a dot.
\<close>

theorem ParseAPIKey_FormatAPIKey:
  "ParseAPIKey key = Inr (i, secret) \<longleftrightarrow>
     key = FormatAPIKey i secret \<and> i \<noteq> [] \<and> secret \<noteq> [] \<and> CHR ''.'' \<notin> set i"
  by (rule parse_format)

lemma dedup_scopes_Inr:
  assumes "dedup_scopes acc scopes = Inr result" "distinct acc" "set acc \<subseteq> set allowed_scopes"
  shows "distinct result \<and> set result = set acc \<union> set scopes \<and> set result \<subseteq> set allowed_scopes"
  using assms by (induction acc scopes rule: dedup_scopes.induct) (auto split: if_splits)

lemma dedup_scopes_isl: "isl (dedup_scopes acc scopes) \<longleftrightarrow> \<not> set scopes \<subseteq> set allowed_scopes"
  by (induction acc scopes rule: dedup_scopes.induct) auto

lemma default_scopes_allowed: "set [''counter:read'', ''counter:increment'', ''counter:history''] \<subseteq> set allowed_scopes"
  by code_simp

lemma normalized_scopes:
  assumes "normalizeCredentialScopes scopes = Inr result"
  shows "sorted result \<and> distinct result \<and> result \<noteq> [] \<and>
    set result = set (if scopes = [] then [''counter:read'', ''counter:increment'', ''counter:history''] else scopes)"
proof -
  let ?s = "if scopes = [] then [''counter:read'', ''counter:increment'', ''counter:history''] else scopes"
  from assms obtain d where d: "dedup_scopes [] ?s = Inr d" "result = sort d"
    by (auto simp: normalizeCredentialScopes_def Let_def split: sum.splits)
  have ds: "set d = set ?s" "distinct d" using dedup_scopes_Inr [OF d(1)] by simp_all
  have "d \<noteq> []"
  proof
    assume "d = []"
    with ds(1) have "set ?s = {}" by simp
    then show False by (simp split: if_splits)
  qed
  then have "result \<noteq> []" using d(2) by (metis length_0_conv length_sort)
  with ds d(2) show ?thesis by simp
qed

text \<open>
  The scopes of a credential: a request is refused if and only if it has a scope the program does
  not know; otherwise the result is sorted, without duplicates, and has exactly the requested
  scopes, or the three default ones for an empty request.
\<close>

theorem normalizeCredentialScopes_spec:
  "(isl (normalizeCredentialScopes scopes) \<longleftrightarrow> \<not> set scopes \<subseteq> set allowed_scopes) \<and>
   (\<forall>result. normalizeCredentialScopes scopes = Inr result \<longrightarrow>
      sorted result \<and> distinct result \<and> result \<noteq> [] \<and>
      set result = set (if scopes = [] then [''counter:read'', ''counter:increment'', ''counter:history''] else scopes))"
proof (intro conjI allI impI)
  show "isl (normalizeCredentialScopes scopes) \<longleftrightarrow> \<not> set scopes \<subseteq> set allowed_scopes"
    using dedup_scopes_isl [of "[]" "if scopes = [] then [''counter:read'', ''counter:increment'', ''counter:history''] else scopes"]
      default_scopes_allowed
    by (cases "scopes = []") (auto simp: normalizeCredentialScopes_def Let_def split: sum.splits)
qed (use normalized_scopes in blast)+

theorem normalizeCredentialScopes_spec_witness:
  "normalizeCredentialScopes [''counter:read'', ''counter:adjust'', ''counter:read''] =
     Inr [''counter:adjust'', ''counter:read''] \<and> distinct [''counter:adjust'', ''counter:read'']"
proof
  show n: "normalizeCredentialScopes [''counter:read'', ''counter:adjust'', ''counter:read''] =
     Inr [''counter:adjust'', ''counter:read'']" by code_simp
  show "distinct [''counter:adjust'', ''counter:read'']"
    using normalizeCredentialScopes_spec [of "[''counter:read'', ''counter:adjust'', ''counter:read'']"] n by blast
qed

section \<open>Issued keys\<close>

lemma CreateCredentialAndAudit_Inr:
  assumes "CreateCredentialAndAudit X f ctx c ev db = (Inr u, db')"
  obtains i t rf evs where "pg_uuid X (cr_id c) = Some i"
    "t = Option.bind (cr_tenant_id c) (pg_uuid X)" "cr_tenant_id c = None \<longleftrightarrow> t = None"
    "credential_write X (AccessFromContext ctx) t" "cr_is_admin c \<or> t \<noteq> None"
    "\<forall>r \<in> set (credentials db). cr_id r \<noteq> i"
    "db' = db\<lparr>credentials := credentials db @
        [c\<lparr>cr_id := i, cr_tenant_id := t, cr_rotated_from := rf, cr_created_at := pg_time X (cr_created_at c),
           cr_expires_at := map_option (pg_time X) (cr_expires_at c), cr_revoked_at := None\<rparr>],
       audit_events := evs\<rparr>"
proof -
  from BeginWrite_Inr [OF assms [unfolded CreateCredentialAndAudit_def]] obtain d1
    where ins: "insert_credential_stmt X (AccessFromContext ctx) c db = Inr d1"
      and aud: "insert_audit_stmt X (AccessFromContext ctx) ev d1 = Inr db'"
    by (auto simp: exec_Inr split: sum.splits)
  from aud obtain evs where db': "db' = d1\<lparr>audit_events := evs\<rparr>"
    by (auto simp: insert_audit_stmt_def Let_def split: option.splits if_splits)
  from ins show thesis
    by (intro that [where t = "Option.bind (cr_tenant_id c) (pg_uuid X)"
        and rf = "Option.bind (cr_rotated_from c) (pg_uuid X)" and evs = evs and i = "the (pg_uuid X (cr_id c))"])
      (auto simp: insert_credential_stmt_def Let_def db' list_ex_iff split: option.splits if_splits)
qed

text \<open>
  C22. An issued key works: the key that a creation returns, presented before its expiry, authenticates
  as a principal with the credential's identifier, its tenant in canonical form, exactly the
  normalised scopes, and administrator rights only if it was created as an administrator's.
\<close>

theorem issued_key_authenticates:
  assumes create: "Credential_create X f ctx e tenantID isAdmin scopes expiresAt actorID db = (Inr r, db')"
    and rand: "ie_rand e = Inr bs" "bs \<noteq> []"
    and newID: "pg_uuid X (ie_newID e) = Some (ie_newID e)" "CHR ''.'' \<notin> set (ie_newID e)" "ie_newID e \<noteq> []"
    and legacy: "\<not> (legacyKey \<noteq> [] \<and> secureKeyEqual X (is_APIKey r) legacyKey)"
    and early: "\<forall>t. expiresAt = Some t \<longrightarrow> now < pg_time X t"
  shows "\<exists>p. authenticate_request X no_faults ctx' legacyKey now (is_APIKey r) db' = Inr p \<and>
    pr_CredentialID p = ie_newID e \<and> pr_IsAdmin p = isAdmin \<and> \<not> pr_Legacy p \<and>
    normalizeCredentialScopes scopes = Inr (pr_Scopes p) \<and>
    (case tenantID of None \<Rightarrow> pr_TenantID p = [] | Some t \<Rightarrow> pg_uuid X t = Some (pr_TenantID p))"
proof -
  let ?secret = "RawURLEncoding bs"
  have ne: "?secret \<noteq> []" using rand(2) by (cases bs rule: RawURLEncoding.cases) simp_all
  from create rand(1) obtain sc where sc: "normalizeCredentialScopes scopes = Inr sc"
    by (cases "normalizeCredentialScopes scopes") (simp_all add: Credential_create_def)
  let ?c = "\<lparr>cr_id = ie_newID e, cr_tenant_id = tenantID, cr_verifier = HashAPIKey X ?secret, cr_scopes = sc,
      cr_is_admin = isAdmin, cr_created_at = ie_now e, cr_expires_at = expiresAt, cr_revoked_at = None,
      cr_created_by = actorID, cr_rotated_from = None\<rparr>"
  from create sc rand(1) obtain u where
    ca: "CreateCredentialAndAudit X f ctx ?c (auditEvent (ie_auditID e) (ie_now e) ?c actorID ActCreated) db = (Inr u, db')"
    and r: "is_APIKey r = FormatAPIKey (ie_newID e) ?secret"
    by (auto simp: Credential_create_def GenerateAPIKey_def Let_def issueResponse_def
        split: if_splits prod.splits sum.splits)
  from ca show ?thesis
  proof (rule CreateCredentialAndAudit_Inr)
    fix i t rf evs
    assume h: "pg_uuid X (cr_id ?c) = Some i" "t = Option.bind (cr_tenant_id ?c) (pg_uuid X)"
      "cr_tenant_id ?c = None \<longleftrightarrow> t = None" "\<forall>r \<in> set (credentials db). cr_id r \<noteq> i"
      "db' = db\<lparr>credentials := credentials db @ [?c\<lparr>cr_id := i, cr_tenant_id := t, cr_rotated_from := rf,
         cr_created_at := pg_time X (cr_created_at ?c), cr_expires_at := map_option (pg_time X) (cr_expires_at ?c),
         cr_revoked_at := None\<rparr>], audit_events := evs\<rparr>"
    let ?row = "?c\<lparr>cr_id := i, cr_tenant_id := t, cr_rotated_from := rf, cr_created_at := pg_time X (ie_now e),
       cr_expires_at := map_option (pg_time X) expiresAt, cr_revoked_at := None\<rparr>"
    let ?a = "no_access\<lparr>acc_AuthenticationID := ie_newID e\<rparr>"
    have i: "i = ie_newID e" using h(1) newID by simp
    have act: "active_at now ?row" using early by (auto simp: active_at_def split: option.splits)
    have look: "credential_lookup X ?a ?row" using newID i by (simp add: credential_lookup_def)
    have "find (\<lambda>r. cr_id r = i \<and> active_at now r \<and> credential_lookup X ?a r) (credentials db') = Some ?row"
      using h(4,5) act look by (intro find_unique) auto
    then have "LookupCredential X no_faults ctx' now (ie_newID e) db' = Inr (Some ?row)"
      using newID i by (simp add: LookupCredential_def GetActiveCredential_def select_credential_stmt_def)
    moreover have "ParseAPIKey (is_APIKey r) = Inr (ie_newID e, ?secret)"
      unfolding r parse_format using newID ne by simp
    moreover have "is_APIKey r \<noteq> []" by (simp add: r FormatAPIKey_def)
    ultimately have "authenticate_request X no_faults ctx' legacyKey now (is_APIKey r) db' =
        Inr \<lparr>pr_CredentialID = i, pr_TenantID = (case t of None \<Rightarrow> [] | Some t \<Rightarrow> t), pr_Scopes = sc,
             pr_IsAdmin = isAdmin, pr_Legacy = False\<rparr>"
      using legacy early by (auto simp: authenticate_request_def Authenticate_def split: option.splits)
    with h(2,3) i sc show ?thesis by (cases tenantID) (auto simp: Option.bind_eq_Some_conv)
  qed
qed

definition sample_admin_ctx :: go_context where
  "sample_admin_ctx = WithAccess context_Background
     \<lparr>acc_TenantID = ''t1'', acc_PrincipalID = ''root'', acc_Admin = True, acc_AuthenticationID = []\<rparr>"

definition sample_issue_env :: issue_env where
  "sample_issue_env = \<lparr>ie_now = 1000, ie_newID = ''k-1'', ie_auditID = ''a-1'', ie_rand = Inr [1, 2, 250, 7]\<rparr>"

definition sample_tenant_db :: database where
  "sample_tenant_db = empty_database\<lparr>tenants :=
     [\<lparr>tn_id = ''t1'', tn_label = ''acme'', tn_created_at = 0, tn_updated_at = 0\<rparr>]\<rparr>"

abbreviation "sample_issue \<equiv> Credential_create sample_ext no_faults sample_admin_ctx sample_issue_env (Some ''T1'') False
  [''counter:read''] (Some 9000) ''root'' sample_tenant_db"

lemma sample_issue_ok: "fst sample_issue = Inr \<lparr>is_CredentialID = ''k-1'', is_TenantID = ''T1'',
    is_APIKey = ''ck_k-1.AQL6Bw'', is_Scopes = [''counter:read''], is_ExpiresAt = Some 9000\<rparr>"
  by code_simp

theorem issued_key_authenticates_witness:
  "\<exists>p. authenticate_request sample_ext no_faults context_Background ''legacy'' 5000 ''ck_k-1.AQL6Bw'' (snd sample_issue) = Inr p \<and>
    pr_CredentialID p = ''k-1'' \<and> pr_TenantID p = ''t1'' \<and> \<not> pr_IsAdmin p"
proof -
  let ?r = "\<lparr>is_CredentialID = ''k-1'', is_TenantID = ''T1'', is_APIKey = ''ck_k-1.AQL6Bw'',
    is_Scopes = [''counter:read''], is_ExpiresAt = Some 9000\<rparr>"
  have env: "ie_rand sample_issue_env = Inr [1, 2, 250, 7]" "ie_newID sample_issue_env = ''k-1''"
    by (simp_all add: sample_issue_env_def)
  have issue: "sample_issue = (Inr ?r, snd sample_issue)" using sample_issue_ok by (metis prod.collapse)
  have newID: "pg_uuid sample_ext ''k-1'' = Some ''k-1''" "CHR ''.'' \<notin> set ''k-1''" by code_simp+
  have legacy: "\<not> (''legacy'' \<noteq> [] \<and> secureKeyEqual sample_ext (is_APIKey ?r) ''legacy'')" by code_simp
  have time: "(5000::int) < pg_time sample_ext 9000" by code_simp
  have t1: "pg_uuid sample_ext ''T1'' = Some ''t1''" by code_simp
  show ?thesis
    using issued_key_authenticates [where now = 5000 and legacyKey = "''legacy''" and ctx' = context_Background,
        OF issue env(1)] newID legacy time t1 unfolding env by auto
qed

text \<open>
  C23. A revoked key stops working: once a revocation has been acknowledged, every key of that
  credential, with whatever secret, is refused as invalid.
\<close>

theorem revoked_key_refused:
  assumes revoke: "Credential_Revoke X f ctx e tenantID credentialID actorID db = (Inr u, db')"
    and ids: "distinct (map cr_id (credentials db))" and same: "pg_uuid X credentialID' = pg_uuid X credentialID"
    and key: "ParseAPIKey apiKey = Inr (credentialID', secret)"
    and legacy: "\<not> (legacyKey \<noteq> [] \<and> secureKeyEqual X apiKey legacyKey)"
  shows "authenticate_request X no_faults ctx' legacyKey now apiKey db' = Inl (Sentinel ErrInvalidCredentials)"
proof -
  from revoke obtain c where ca: "RevokeCredentialAndAudit X f ctx credentialID (ie_now e)
      (auditEvent (ie_auditID e) (ie_now e) c actorID ActRevoked) db = (Inr u, db')"
    by (auto simp: Credential_Revoke_def split: sum.splits option.splits if_splits prod.splits)
  from BeginWrite_Inr [OF ca [unfolded RevokeCredentialAndAudit_def]] obtain n d1
    where rv: "revoke_credential_stmt X (AccessFromContext ctx) credentialID (ie_now e) db = Inr (n, d1)" "n \<noteq> 0"
      and aud: "insert_audit_stmt X (AccessFromContext ctx) (auditEvent (ie_auditID e) (ie_now e) c actorID ActRevoked) d1 = Inr db'"
    by (auto simp: exec_Inr split: sum.splits prod.splits if_splits)
  from aud have cr: "credentials db' = credentials d1"
    by (auto simp: insert_audit_stmt_def Let_def split: option.splits if_splits)
  from rv(1) obtain i where i: "pg_uuid X credentialID = Some i"
    by (auto simp: revoke_credential_stmt_def split: option.splits)
  let ?hit = "\<lambda>r. cr_id r = i \<and> cr_revoked_at r = None \<and> credential_write X (AccessFromContext ctx) (cr_tenant_id r)"
  from rv i have n: "n = length (filter ?hit (credentials db))" and d1: "credentials d1 =
      update_where ?hit (\<lambda>r. r\<lparr>cr_revoked_at := Some (pg_time X (ie_now e))\<rparr>) (credentials db)"
    by (auto simp: revoke_credential_stmt_def Let_def)
  have "filter ?hit (credentials db) \<noteq> []" using n rv(2) by simp
  then obtain row where row: "row \<in> set (credentials db)" "?hit row" unfolding filter_empty_conv by blast
  have "\<not> (cr_id r = i \<and> active_at now r)" if "r \<in> set (credentials db')" for r
  proof
    assume r: "cr_id r = i \<and> active_at now r"
    from that cr d1 obtain r0 where r0: "r0 \<in> set (credentials db)" "r = (if ?hit r0 then r0\<lparr>cr_revoked_at := Some (pg_time X (ie_now e))\<rparr> else r0)"
      by (auto simp: set_update_where)
    then have "cr_id r0 = cr_id row" using r row(2) by (auto split: if_splits)
    with distinct_map_eq [OF ids r0(1) row(1)] have "r0 = row" by simp
    with r0(2) row(2) r show False by (simp add: active_at_def)
  qed
  then have "find (\<lambda>r. cr_id r = i \<and> active_at now r \<and> credential_lookup X a r) (credentials db') = None" for a
    by (auto simp: find_None_all)
  then have "LookupCredential X no_faults ctx' now credentialID' db' = Inr None"
    using i same by (simp add: LookupCredential_def GetActiveCredential_def select_credential_stmt_def)
  moreover have "apiKey \<noteq> []" using key by (auto simp: parse_format FormatAPIKey_def)
  ultimately show ?thesis using key legacy by (simp add: authenticate_request_def Authenticate_def)
qed


abbreviation "sample_revoke \<equiv> Credential_Revoke sample_ext no_faults sample_admin_ctx
  (sample_issue_env\<lparr>ie_now := 2000, ie_auditID := ''a-2''\<rparr>) ''t1'' ''k-1'' ''root'' (snd sample_issue)"

theorem revoked_key_refused_witness:
  "authenticate_request sample_ext no_faults context_Background ''legacy'' 5000 ''ck_k-1.AQL6Bw'' (snd sample_revoke) =
     Inl (Sentinel ErrInvalidCredentials)"
proof -
  have "fst sample_revoke = Inr ()" by code_simp
  then have rv: "sample_revoke = (Inr (), snd sample_revoke)" by (metis prod.collapse)
  have ids: "distinct (map cr_id (credentials (snd sample_issue)))" by code_simp
  have key: "ParseAPIKey ''ck_k-1.AQL6Bw'' = Inr (''k-1'', ''AQL6Bw'')" by code_simp
  have legacy: "\<not> (''legacy'' \<noteq> [] \<and> secureKeyEqual sample_ext ''ck_k-1.AQL6Bw'' ''legacy'')" by code_simp
  show ?thesis using revoked_key_refused [OF rv ids refl key legacy] by simp
qed

section \<open>Soundness of authentication\<close>

lemma Authenticate_Inr:
  assumes "Authenticate X legacyKey (Some look) now apiKey = Inr p" "\<not> pr_Legacy p"
  obtains i secret c where "ParseAPIKey apiKey = Inr (i, secret)" "look i = Inr (Some c)"
    "active_at now c" "cr_verifier c = HashAPIKey X secret"
    "p = \<lparr>pr_CredentialID = cr_id c, pr_TenantID = (case cr_tenant_id c of None \<Rightarrow> [] | Some t \<Rightarrow> t),
          pr_Scopes = cr_scopes c, pr_IsAdmin = cr_is_admin c, pr_Legacy = False\<rparr>"
  using assms
  by (auto simp: Authenticate_def legacy_principal_def active_at_def split: if_splits sum.splits option.splits prod.splits)

text \<open>
  C11. Authentication is sound, whatever faults the database has: a principal other than the
  configured legacy administrator comes from a row of the credential table that is active now,
  whose verifier is the hash of the secret in the key, and it has that row's identifier, tenant,
  scopes and administrator flag, none added. It may then do what a request needs in a tenant
  only when the row is an administrator's or belongs to that tenant and holds every scope needed.
\<close>

theorem authenticate_sound:
  assumes auth: "authenticate_request X f ctx legacyKey now apiKey db = Inr p" and nl: "\<not> pr_Legacy p"
  shows "\<exists>i secret c. apiKey = FormatAPIKey i secret \<and> c \<in> set (credentials db) \<and> pg_uuid X i = Some (cr_id c) \<and>
    active_at now c \<and> cr_verifier c = HashAPIKey X secret \<and> pr_CredentialID p = cr_id c \<and>
    (\<forall>tenantID scopes. PrincipalAuthorized p tenantID scopes \<longleftrightarrow>
       cr_is_admin c \<or> tenantID \<noteq> [] \<and> cr_tenant_id c = Some tenantID \<and> set scopes \<subseteq> set (cr_scopes c))"
proof -
  from auth nl obtain i secret c where a: "ParseAPIKey apiKey = Inr (i, secret)"
      "LookupCredential X f ctx now i db = Inr (Some c)" "active_at now c" "cr_verifier c = HashAPIKey X secret"
    and p: "p = \<lparr>pr_CredentialID = cr_id c, pr_TenantID = (case cr_tenant_id c of None \<Rightarrow> [] | Some t \<Rightarrow> t),
          pr_Scopes = cr_scopes c, pr_IsAdmin = cr_is_admin c, pr_Legacy = False\<rparr>"
    unfolding authenticate_request_def by (rule Authenticate_Inr)
  let ?ctx = "WithAccess ctx (no_access\<lparr>acc_AuthenticationID := i\<rparr>)"
  from a(2) have "query f ?ctx SGetCredential (select_credential_stmt X (AccessFromContext ?ctx) now i) db = Inr c"
    by (auto simp: LookupCredential_def GetActiveCredential_def split: sum.splits if_splits)
  then have "select_credential_stmt X (AccessFromContext ?ctx) now i db = Inr c" by (rule query_Inr)
  then have "c \<in> set (credentials db)" "pg_uuid X i = Some (cr_id c)"
    by (auto simp: select_credential_stmt_def split: option.splits dest: find_Some_in)
  moreover have "PrincipalAuthorized p tenantID scopes \<longleftrightarrow>
       cr_is_admin c \<or> tenantID \<noteq> [] \<and> cr_tenant_id c = Some tenantID \<and> set scopes \<subseteq> set (cr_scopes c)" for tenantID scopes
    unfolding p by (auto simp: PrincipalAuthorized_def HasScope_def list_all_iff list_ex_iff split: option.splits)
  ultimately show ?thesis using a p by (auto simp: parse_format)
qed

theorem authenticate_sound_witness:
  "\<exists>c \<in> set (credentials (snd sample_issue)). cr_id c = ''k-1'' \<and> cr_verifier c = HashAPIKey sample_ext ''AQL6Bw''"
proof -
  let ?p = "\<lparr>pr_CredentialID = ''k-1'', pr_TenantID = ''t1'', pr_Scopes = [''counter:read''], pr_IsAdmin = False, pr_Legacy = False\<rparr>"
  have "authenticate_request sample_ext no_faults context_Background ''legacy'' 5000 ''ck_k-1.AQL6Bw'' (snd sample_issue) = Inr ?p"
    by code_simp
  from authenticate_sound [OF this] obtain i secret c where
    h: "''ck_k-1.AQL6Bw'' = FormatAPIKey i secret" "c \<in> set (credentials (snd sample_issue))"
      "pg_uuid sample_ext i = Some (cr_id c)" "cr_verifier c = HashAPIKey sample_ext secret" "cr_id c = ''k-1''" by auto
  have "cr_verifier r = HashAPIKey sample_ext ''AQL6Bw''" if "r \<in> set (credentials (snd sample_issue))" for r
  proof -
    have "\<forall>r \<in> set (credentials (snd sample_issue)). cr_verifier r = HashAPIKey sample_ext ''AQL6Bw''" by code_simp
    with that show ?thesis by blast
  qed
  with h show ?thesis by blast
qed

text \<open>
  C40. A key of the right form whose identifier is not a UUID is not refused as invalid: PostgreSQL
  rejects the cast, and the answer is that the credential store is unavailable.
\<close>

theorem malformed_key_id_unavailable:
  assumes "i \<noteq> []" "secret \<noteq> []" "CHR ''.'' \<notin> set i" "pg_uuid X i = None"
    and "\<not> (legacyKey \<noteq> [] \<and> secureKeyEqual X (FormatAPIKey i secret) legacyKey)"
  shows "authenticate_request X no_faults ctx legacyKey now (FormatAPIKey i secret) db = Inl (Sentinel ErrCredentialUnavailable)"
proof -
  have "ParseAPIKey (FormatAPIKey i secret) = Inr (i, secret)" using assms by (simp add: parse_format)
  moreover have "FormatAPIKey i secret \<noteq> []" by (simp add: FormatAPIKey_def)
  ultimately show ?thesis using assms(4,5)
    by (simp add: authenticate_request_def Authenticate_def LookupCredential_def GetActiveCredential_def
        select_credential_stmt_def)
qed

theorem malformed_key_id_unavailable_witness:
  "authenticate_request (sample_ext\<lparr>pg_uuid := \<lambda>s. if s = ''foo'' then None else Some s\<rparr>) no_faults
     context_Background ''legacy'' 5000 ''ck_foo.bar'' sample_tenant_db = Inl (Sentinel ErrCredentialUnavailable)"
proof -
  let ?X = "sample_ext\<lparr>pg_uuid := \<lambda>s. if s = ''foo'' then None else Some s\<rparr>"
  have k: "FormatAPIKey ''foo'' ''bar'' = ''ck_foo.bar''" by code_simp
  have l: "\<not> (''legacy'' \<noteq> [] \<and> secureKeyEqual ?X (FormatAPIKey ''foo'' ''bar'') ''legacy'')" by code_simp
  have "authenticate_request ?X no_faults context_Background ''legacy'' 5000 (FormatAPIKey ''foo'' ''bar'') sample_tenant_db
      = Inl (Sentinel ErrCredentialUnavailable)"
    by (rule malformed_key_id_unavailable [OF _ _ _ _ l]) simp_all
  then show ?thesis unfolding k .
qed

end
