(* ===== verification/Json.thy ===== *)
theory Json
  imports Runes
begin

text \<open>
  The part of \<open>encoding/json\<close> the program uses: the scanner behind \<open>json.Valid\<close> and the decoder, the
  text \<open>json.Marshal\<close> writes and \<open>json.Compact\<close>. Numbers keep their literal text (\<open>UseNumber\<close>), and
  an object keeps its members in the order of the text, repeated names included.
\<close>

section \<open>Strings\<close>

definition hex_value :: "char \<Rightarrow> nat option" where
  "hex_value c =
     (if is_digit c then Some (byte c - 48)
      else if 97 \<le> byte c \<and> byte c \<le> 102 then Some (byte c - 87)
      else if 65 \<le> byte c \<and> byte c \<le> 70 then Some (byte c - 55)
      else None)"

text \<open>\<open>getu4\<close>: the value of an escape \<open>\uXXXX\<close> at the front.\<close>

fun getu4 :: "string \<Rightarrow> nat option" where
  "getu4 (s # u # a # b # c # d # rest) =
     (if s = CHR 0x5C \<and> u = CHR ''u'' then
        (case (hex_value a, hex_value b, hex_value c, hex_value d) of
           (Some a', Some b', Some c', Some d') \<Rightarrow> Some (((a' * 16 + b') * 16 + c') * 16 + d')
         | _ \<Rightarrow> None)
      else None)"
| "getu4 _ = None"

definition is_surrogate :: "rune \<Rightarrow> bool" where
  "is_surrogate r \<longleftrightarrow> 55296 \<le> r \<and> r < 57344"

definition utf16_DecodeRune :: "rune \<Rightarrow> rune \<Rightarrow> rune option" where
  "utf16_DecodeRune r1 r2 =
     (if 55296 \<le> r1 \<and> r1 < 56320 \<and> 56320 \<le> r2 \<and> r2 < 57344
      then Some ((r1 - 55296) * 1024 + (r2 - 56320) + 65536) else None)"

definition rune_bytes :: "rune \<Rightarrow> string" where
  "rune_bytes r = map char_of (EncodeRune r)"

definition unescape :: "char \<Rightarrow> char option" where
  "unescape e =
     (if e = CHR 0x22 \<or> e = CHR 0x5C \<or> e = CHR ''/'' then Some e
      else if e = CHR ''b'' then Some (CHR 0x08) else if e = CHR ''f'' then Some (CHR 0x0C)
      else if e = CHR ''n'' then Some (CHR 0x0A) else if e = CHR ''r'' then Some (CHR 0x0D)
      else if e = CHR ''t'' then Some (CHR 0x09) else None)"

text \<open>
  The value of the text between two quotation marks; \<open>None\<close> where the scanner stops with an error. An
  unpaired surrogate and an invalid byte become the error rune.
\<close>

function unquote :: "string \<Rightarrow> string option" where
  "unquote [] = Some []"
| "unquote (c # cs) =
     (if c = CHR 0x5C then
        (case cs of
           [] \<Rightarrow> None
         | e # r \<Rightarrow>
           if e = CHR ''u'' then
             (case getu4 (c # cs) of
                None \<Rightarrow> None
              | Some rr \<Rightarrow>
                if is_surrogate rr then
                  (case Option.bind (getu4 (drop 5 cs)) (utf16_DecodeRune rr) of
                     Some dec \<Rightarrow> map_option ((@) (rune_bytes dec)) (unquote (drop 11 cs))
                   | None \<Rightarrow> map_option ((@) (rune_bytes RuneError)) (unquote (drop 5 cs)))
                else map_option ((@) (rune_bytes rr)) (unquote (drop 5 cs)))
           else
             (case unescape e of
                None \<Rightarrow> None
              | Some b \<Rightarrow> map_option ((#) b) (unquote r)))
      else if byte c < 32 then None
      else
        (let (r, w) = DecodeRune (map byte (c # cs))
         in map_option ((@) (rune_bytes r)) (unquote (drop w (c # cs)))))"
  by pat_completeness auto
termination
proof (relation "measure length")
  fix c cs p r w
  assume "p = DecodeRune (map byte (c # cs))" "(r, w) = p"
  then have "0 < w" using DecodeRune_width [of "byte c" "map byte cs"] by (metis list.simps(9) snd_conv)
  then show "(drop w (c # cs), c # cs) \<in> measure length" by (cases w) auto
qed auto

declare unquote.simps(2) [simp del]

text \<open>The text \<open>json.Marshal\<close> writes for a string, with the characters of HTML escaped.\<close>

definition html_safe :: "char \<Rightarrow> bool" where
  "html_safe c \<longleftrightarrow> 32 \<le> byte c \<and> byte c < 128 \<and> c \<notin> {CHR 0x22, CHR 0x5C, CHR ''<'', CHR ''>'', CHR ''&''}"

definition escape_byte :: "char \<Rightarrow> string" where
  "escape_byte c =
     (if c = CHR 0x22 \<or> c = CHR 0x5C then [CHR 0x5C, c]
      else if c = CHR 0x08 then [CHR 0x5C, CHR ''b''] else if c = CHR 0x0C then [CHR 0x5C, CHR ''f'']
      else if c = CHR 0x0A then [CHR 0x5C, CHR ''n''] else if c = CHR 0x0D then [CHR 0x5C, CHR ''r'']
      else if c = CHR 0x09 then [CHR 0x5C, CHR ''t'']
      else [CHR 0x5C, CHR ''u'', CHR ''0'', CHR ''0'', hex_digit (byte c div 16), hex_digit (byte c mod 16)])"

function escape_string :: "string \<Rightarrow> string" where
  "escape_string [] = []"
| "escape_string (c # cs) =
     (if byte c < 128 then (if html_safe c then [c] else escape_byte c) @ escape_string cs
      else
        (let (r, w) = DecodeRune (map byte (c # cs))
         in (if r = RuneError \<and> w = 1 then CHR 0x5C # ''ufffd''
             else if r = 8232 then CHR 0x5C # ''u2028''
             else if r = 8233 then CHR 0x5C # ''u2029''
             else take w (c # cs)) @ escape_string (drop w (c # cs))))"
  by pat_completeness auto
termination
proof (relation "measure length")
  fix c cs p r w
  assume "p = DecodeRune (map byte (c # cs))" "(r, w) = p"
  then have "0 < w" using DecodeRune_width [of "byte c" "map byte cs"] by (metis list.simps(9) snd_conv)
  then show "(drop w (c # cs), c # cs) \<in> measure length" by (cases w) auto
qed auto

declare escape_string.simps(2) [simp del]

section \<open>Tokens\<close>

datatype token = TPunct char | TString string | TNumber string | TTrue | TFalse | TNull

definition json_space :: "char \<Rightarrow> bool" where
  "json_space c \<longleftrightarrow> c = CHR '' '' \<or> c = CHR 0x09 \<or> c = CHR 0x0D \<or> c = CHR 0x0A"

definition json_exponent :: "string \<Rightarrow> bool" where
  "json_exponent s =
     (case s of
        [] \<Rightarrow> True
      | e # r \<Rightarrow>
        (e = CHR ''e'' \<or> e = CHR ''E'') \<and>
        (let ds = (case r of [] \<Rightarrow> [] | c # r' \<Rightarrow> if c = CHR ''+'' \<or> c = CHR ''-'' then r' else r)
         in ds \<noteq> [] \<and> list_all is_digit ds))"

definition json_fraction :: "string \<Rightarrow> bool" where
  "json_fraction s =
     (case s of
        [] \<Rightarrow> True
      | p # r \<Rightarrow>
        if p = CHR ''.'' then r \<noteq> [] \<and> is_digit (hd r) \<and> json_exponent (dropWhile is_digit r)
        else json_exponent s)"

definition json_number :: "string \<Rightarrow> bool" where
  "json_number s =
     (case (if s \<noteq> [] \<and> hd s = CHR ''-'' then tl s else s) of
        [] \<Rightarrow> False
      | d # r \<Rightarrow>
        if d = CHR ''0'' then json_fraction r
        else is_digit d \<and> json_fraction (dropWhile is_digit r))"

definition number_char :: "char \<Rightarrow> bool" where
  "number_char c \<longleftrightarrow> is_digit c \<or> c = CHR ''-'' \<or> c = CHR ''+'' \<or> c = CHR ''.'' \<or> c = CHR ''e'' \<or> c = CHR ''E''"

definition word_char :: "char \<Rightarrow> bool" where
  "word_char c \<longleftrightarrow> 97 \<le> byte c \<and> byte c \<le> 122"

definition word_token :: "string \<Rightarrow> token option" where
  "word_token s = (if s = ''true'' then Some TTrue else if s = ''false'' then Some TFalse
     else if s = ''null'' then Some TNull else None)"

definition punct_char :: "char \<Rightarrow> bool" where
  "punct_char c \<longleftrightarrow> c \<in> {CHR ''{'', CHR ''}'', CHR ''['', CHR '']'', CHR '':'', CHR '',''}"

text \<open>The scanner, one byte at a time; the modes hold what has been read of a token, reversed.\<close>

datatype lex_mode = Between | InString string bool | InNumber string | InWord string

function lex :: "lex_mode \<Rightarrow> string \<Rightarrow> token list option" where
  "lex Between [] = Some []"
| "lex Between (c # cs) =
     (if json_space c then lex Between cs
      else if punct_char c then map_option ((#) (TPunct c)) (lex Between cs)
      else if c = CHR 0x22 then lex (InString [] False) cs
      else if is_digit c \<or> c = CHR ''-'' then lex (InNumber [c]) cs
      else if word_char c then lex (InWord [c]) cs
      else None)"
| "lex (InString acc esc) [] = None"
| "lex (InString acc esc) (c # cs) =
     (if esc then lex (InString (c # acc) False) cs
      else if c = CHR 0x22 then
        (case unquote (rev acc) of
           None \<Rightarrow> None
         | Some s \<Rightarrow> map_option ((#) (TString s)) (lex Between cs))
      else lex (InString (c # acc) (c = CHR 0x5C)) cs)"
| "lex (InNumber acc) [] = (if json_number (rev acc) then Some [TNumber (rev acc)] else None)"
| "lex (InNumber acc) (c # cs) =
     (if number_char c then lex (InNumber (c # acc)) cs
      else if json_number (rev acc) then map_option ((#) (TNumber (rev acc))) (lex Between (c # cs))
      else None)"
| "lex (InWord acc) [] = map_option (\<lambda>t. [t]) (word_token (rev acc))"
| "lex (InWord acc) (c # cs) =
     (if word_char c then lex (InWord (c # acc)) cs
      else
        (case word_token (rev acc) of
           None \<Rightarrow> None
         | Some t \<Rightarrow> map_option ((#) t) (lex Between (c # cs))))"
  by pat_completeness auto
termination
  by (relation "measures [\<lambda>(m, s). length s, \<lambda>(m, s). if m = Between then 0 else 1]") auto

section \<open>Values\<close>

text \<open>
  The scanner's stack of open containers, with what has been read of them, and its expectation. More
  than 10000 open containers are an error.
\<close>

datatype frame = FArray "json list" | FObject "(string \<times> json) list" string

datatype parse_mode = PValue | PFirst | PKeyFirst | PKey | PColon | PAfter json

abbreviation maxNestingDepth :: nat where "maxNestingDepth \<equiv> 10000"

definition begin_value :: "frame list \<Rightarrow> token \<Rightarrow> (frame list \<times> parse_mode) option" where
  "begin_value st t =
     (case t of
        TString s \<Rightarrow> Some (st, PAfter (JString s))
      | TNumber n \<Rightarrow> Some (st, PAfter (JNumber n))
      | TTrue \<Rightarrow> Some (st, PAfter (JBool True))
      | TFalse \<Rightarrow> Some (st, PAfter (JBool False))
      | TNull \<Rightarrow> Some (st, PAfter JNull)
      | TPunct c \<Rightarrow>
        if length st \<ge> maxNestingDepth then None
        else if c = CHR ''['' then Some (FArray [] # st, PFirst)
        else if c = CHR ''{'' then Some (FObject [] [] # st, PKeyFirst)
        else None)"

definition parse_key :: "frame list \<Rightarrow> token \<Rightarrow> (frame list \<times> parse_mode) option" where
  "parse_key st t =
     (case (st, t) of
        (FObject ms _ # st', TString k) \<Rightarrow> Some (FObject ms k # st', PColon)
      | _ \<Rightarrow> None)"

definition parse_after :: "frame list \<Rightarrow> json \<Rightarrow> token \<Rightarrow> (frame list \<times> parse_mode) option" where
  "parse_after st v t =
     (case st of
        FArray vs # st' \<Rightarrow>
          if t = TPunct (CHR '','') then Some (FArray (v # vs) # st', PValue)
          else if t = TPunct (CHR '']'') then Some (st', PAfter (JArray (rev (v # vs))))
          else None
      | FObject ms k # st' \<Rightarrow>
          if t = TPunct (CHR '','') then Some (FObject ((k, v) # ms) [] # st', PKey)
          else if t = TPunct (CHR ''}'') then Some (st', PAfter (JObject (rev ((k, v) # ms))))
          else None
      | [] \<Rightarrow> None)"

fun parse_step :: "frame list \<times> parse_mode \<Rightarrow> token \<Rightarrow> (frame list \<times> parse_mode) option" where
  "parse_step (st, PValue) t = begin_value st t"
| "parse_step (st, PFirst) t =
     (if t = TPunct (CHR '']'') then Some (tl st, PAfter (JArray [])) else begin_value st t)"
| "parse_step (st, PKeyFirst) t =
     (if t = TPunct (CHR ''}'') then Some (tl st, PAfter (JObject [])) else parse_key st t)"
| "parse_step (st, PKey) t = parse_key st t"
| "parse_step (st, PColon) t = (if t = TPunct (CHR '':'') then Some (st, PValue) else None)"
| "parse_step (st, PAfter v) t = parse_after st v t"

fun parse_run :: "frame list \<times> parse_mode \<Rightarrow> token list \<Rightarrow> (frame list \<times> parse_mode) option" where
  "parse_run s [] = Some s"
| "parse_run s (t # ts) = Option.bind (parse_step s t) (\<lambda>s'. parse_run s' ts)"

definition parse_tokens :: "token list \<Rightarrow> json option" where
  "parse_tokens ts = (case parse_run ([], PValue) ts of Some ([], PAfter v) \<Rightarrow> Some v | _ \<Rightarrow> None)"

definition json_parse :: "string \<Rightarrow> json option" where
  "json_parse s = Option.bind (lex Between s) parse_tokens"

definition json_Valid :: "string \<Rightarrow> bool" where
  "json_Valid s \<longleftrightarrow> json_parse s \<noteq> None"

section \<open>Printing\<close>

fun tokens :: "json \<Rightarrow> token list" and tokens_rest :: "json list \<Rightarrow> token list"
  and members_rest :: "(string \<times> json) list \<Rightarrow> token list" where
  "tokens JNull = [TNull]"
| "tokens (JBool b) = [if b then TTrue else TFalse]"
| "tokens (JNumber n) = [TNumber n]"
| "tokens (JString s) = [TString s]"
| "tokens (JArray []) = [TPunct (CHR ''[''), TPunct (CHR '']'')]"
| "tokens (JArray (v # vs)) = TPunct (CHR ''['') # tokens v @ tokens_rest vs"
| "tokens (JObject []) = [TPunct (CHR ''{''), TPunct (CHR ''}'')]"
| "tokens (JObject ((k, v) # ms)) = TPunct (CHR ''{'') # TString k # TPunct (CHR '':'') # tokens v @ members_rest ms"
| "tokens_rest [] = [TPunct (CHR '']'')]"
| "tokens_rest (v # vs) = TPunct (CHR '','') # tokens v @ tokens_rest vs"
| "members_rest [] = [TPunct (CHR ''}'')]"
| "members_rest ((k, v) # ms) =
     TPunct (CHR '','') # TString k # TPunct (CHR '':'') # tokens v @ members_rest ms"

fun token_text :: "token \<Rightarrow> string" where
  "token_text (TPunct c) = [c]"
| "token_text (TString s) = CHR 0x22 # escape_string s @ [CHR 0x22]"
| "token_text (TNumber n) = n"
| "token_text TTrue = ''true''"
| "token_text TFalse = ''false''"
| "token_text TNull = ''null''"

definition json_Marshal :: "json \<Rightarrow> string" where
  "json_Marshal j = concat (map token_text (tokens j))"

text \<open>\<open>json.Compact\<close> on valid text: the white space outside strings is dropped.\<close>

fun json_Compact :: "bool \<Rightarrow> bool \<Rightarrow> string \<Rightarrow> string" where
  "json_Compact inside esc [] = []"
| "json_Compact inside esc (c # cs) =
     (if inside then
        c # json_Compact (esc \<or> c \<noteq> CHR 0x22) (\<not> esc \<and> c = CHR 0x5C) cs
      else if json_space c then json_Compact False False cs
      else c # json_Compact (c = CHR 0x22) False cs)"

fun json_depth :: "json \<Rightarrow> nat" where
  "json_depth (JArray vs) = Suc (Max (insert 0 (set (map json_depth vs))))"
| "json_depth (JObject ms) = Suc (Max (insert 0 (set (map (\<lambda>(k, v). json_depth v) ms))))"
| "json_depth _ = 0"

section \<open>What is printed is read back\<close>

lemma json_depth_array: "json_depth (JArray vs) \<le> n \<longleftrightarrow> 0 < n \<and> (\<forall>v \<in> set vs. json_depth v < n)"
  by (cases n) (auto simp: less_Suc_eq_le)

lemma json_depth_object: "json_depth (JObject ms) \<le> n \<longleftrightarrow> 0 < n \<and> (\<forall>m \<in> set ms. json_depth (snd m) < n)"
  by (cases n) (auto simp: less_Suc_eq_le)

declare json_depth.simps(1,2) [simp del]

lemma tokens_hd: "tokens j \<noteq> [] \<and> hd (tokens j) \<noteq> TPunct (CHR '']'')"
  by (cases j rule: tokens.cases) auto

lemma parse_first:
  assumes "hd ts \<noteq> TPunct (CHR '']'')" "ts \<noteq> []"
  shows "parse_run (st, PFirst) ts = parse_run (st, PValue) ts"
  using assms by (cases ts) auto

lemma parse_run_tokens:
  "json_depth j + length st \<le> maxNestingDepth \<Longrightarrow>
     parse_run (st, PValue) (tokens j @ ts) = parse_run (st, PAfter j) ts"
  "(\<And>v'. v' \<in> set vs \<Longrightarrow> json_depth v' + Suc (length st) \<le> maxNestingDepth) \<Longrightarrow>
     parse_run (FArray acc # st, PAfter v) (tokens_rest vs @ ts) =
     parse_run (st, PAfter (JArray (rev acc @ v # vs))) ts"
  "(\<And>m. m \<in> set ms \<Longrightarrow> json_depth (snd m) + Suc (length st) \<le> maxNestingDepth) \<Longrightarrow>
     parse_run (FObject mems k # st, PAfter v) (members_rest ms @ ts) =
     parse_run (st, PAfter (JObject (rev mems @ (k, v) # ms))) ts"
proof (induction j and vs and ms arbitrary: st ts and st ts acc v and st ts mems k v
    rule: tokens_tokens_rest_members_rest.induct)
  case (6 v vs)
  then have d: "json_depth v + Suc (length st) \<le> maxNestingDepth"
    "\<And>v'. v' \<in> set vs \<Longrightarrow> json_depth v' + Suc (length st) \<le> maxNestingDepth"
    using json_depth_array [of "v # vs" "maxNestingDepth - length st"] by fastforce+
  have "length st < maxNestingDepth" using d(1) by simp
  then have "parse_run (st, PValue) (tokens (JArray (v # vs)) @ ts) =
      parse_run (FArray [] # st, PFirst) (tokens v @ tokens_rest vs @ ts)"
    by (simp add: begin_value_def)
  also have "\<dots> = parse_run (FArray [] # st, PValue) (tokens v @ tokens_rest vs @ ts)"
    using tokens_hd [of v] by (intro parse_first) auto
  also have "\<dots> = parse_run (FArray [] # st, PAfter v) (tokens_rest vs @ ts)"
    using 6(1) [of "FArray [] # st"] d(1) by simp
  also have "\<dots> = parse_run (st, PAfter (JArray (v # vs))) ts" using 6(2) [of st] d(2) by simp
  finally show ?case .
next
  case (8 k v ms)
  then have d: "json_depth v + Suc (length st) \<le> maxNestingDepth"
    "\<And>m. m \<in> set ms \<Longrightarrow> json_depth (snd m) + Suc (length st) \<le> maxNestingDepth"
    using json_depth_object [of "(k, v) # ms" "maxNestingDepth - length st"] by fastforce+
  have "length st < maxNestingDepth" using d(1) by simp
  then have "parse_run (st, PValue) (tokens (JObject ((k, v) # ms)) @ ts) =
      parse_run (FObject [] k # st, PValue) (tokens v @ members_rest ms @ ts)"
    by (simp add: begin_value_def parse_key_def)
  also have "\<dots> = parse_run (FObject [] k # st, PAfter v) (members_rest ms @ ts)"
    using 8(1) [of "FObject [] k # st"] d(1) by simp
  also have "\<dots> = parse_run (st, PAfter (JObject ((k, v) # ms))) ts" using 8(2) [of st] d(2) by simp
  finally show ?case .
next
  case (10 v' vs)
  have "parse_run (FArray acc # st, PAfter v) (tokens_rest (v' # vs) @ ts) =
      parse_run (FArray (v # acc) # st, PValue) (tokens v' @ tokens_rest vs @ ts)"
    by (simp add: parse_after_def)
  also have "\<dots> = parse_run (FArray (v # acc) # st, PAfter v') (tokens_rest vs @ ts)"
    using 10(1) [of "FArray (v # acc) # st"] 10(3) [of v'] by simp
  also have "\<dots> = parse_run (st, PAfter (JArray (rev acc @ v # v' # vs))) ts" using 10(2) [of st] 10(3) by simp
  finally show ?case .
next
  case (12 k' v' ms)
  have "parse_run (FObject mems k # st, PAfter v) (members_rest ((k', v') # ms) @ ts) =
      parse_run (FObject ((k, v) # mems) k' # st, PValue) (tokens v' @ members_rest ms @ ts)"
    by (simp add: parse_after_def parse_key_def)
  also have "\<dots> = parse_run (FObject ((k, v) # mems) k' # st, PAfter v') (members_rest ms @ ts)"
    using 12(1) [of "FObject ((k, v) # mems) k' # st"] 12(3) [of "(k', v')"] by simp
  also have "\<dots> = parse_run (st, PAfter (JObject (rev mems @ (k, v) # (k', v') # ms))) ts"
    using 12(2) [of st] 12(3) by simp
  finally show ?case .
qed (simp_all add: begin_value_def parse_after_def json_depth.simps)

lemma parse_tokens_tokens: "json_depth j \<le> maxNestingDepth \<Longrightarrow> parse_tokens (tokens j) = Some j"
  using parse_run_tokens(1) [of j "[]" "[]"] by (simp add: parse_tokens_def)

text \<open>A string comes back with its invalid bytes replaced by the error rune, so valid text unchanged.\<close>

definition to_valid :: "string \<Rightarrow> string" where
  "to_valid s = string_of_runes (runes s)"

lemma to_valid_Nil [simp]: "to_valid [] = []"
  by (simp add: to_valid_def runes_def string_of_runes_def)

lemma to_valid_Cons:
  assumes "DecodeRune (map byte (c # cs)) = (r, w)"
  shows "to_valid (c # cs) = rune_bytes r @ to_valid (drop w (c # cs))"
proof -
  have "drop w (byte c # map byte cs) = map byte (drop w (c # cs))" by (metis drop_map list.simps(9))
  then have "decode_bytes (map byte (c # cs)) = r # decode_bytes (map byte (drop w (c # cs)))"
    using assms decode_bytes.simps(2) [of "byte c" "map byte cs"] by (simp del: DecodeRune.simps)
  then show ?thesis
    unfolding to_valid_def runes_def string_of_runes_def rune_bytes_def by (simp del: DecodeRune.simps)
qed

lemma append_one [simp]: "(@) [c] = (#) c"
  by (simp add: fun_eq_iff)

lemma rune_bytes_ascii: "byte c < 128 \<Longrightarrow> rune_bytes (byte c) = [c]"
  by (simp add: rune_bytes_def EncodeRune_def)

lemma to_valid_ascii: "byte c < 128 \<Longrightarrow> to_valid (c # cs) = c # to_valid cs"
  using to_valid_Cons [of c cs "byte c" 1] by (simp add: rune_bytes_ascii)

lemma unquote_plain:
  "byte c < 128 \<Longrightarrow> 32 \<le> byte c \<Longrightarrow> c \<noteq> CHR 0x5C \<Longrightarrow> unquote (c # t) = map_option ((#) c) (unquote t)"
  by (simp add: unquote.simps(2) rune_bytes_ascii)

lemma unquote_escape:
  "unescape e = Some b \<Longrightarrow> e \<noteq> CHR ''u'' \<Longrightarrow> unquote (CHR 0x5C # e # t) = map_option ((#) b) (unquote t)"
  by (simp add: unquote.simps(2) [of "CHR 0x5C"])

lemma unquote_u:
  assumes "getu4 (CHR 0x5C # CHR ''u'' # a # b # c # d # t) = Some rr" "\<not> is_surrogate rr"
  shows "unquote (CHR 0x5C # CHR ''u'' # a # b # c # d # t) = map_option ((@) (rune_bytes rr)) (unquote t)"
  using assms by (simp add: unquote.simps(2) [of "CHR 0x5C"] del: getu4.simps)

lemma hex_value_hex_digit: "n < 16 \<Longrightarrow> hex_value (hex_digit n) = Some n"
  by (auto simp: hex_value_def hex_digit_def is_digit_def)

lemma unquote_escape_byte:
  assumes "byte c < 128"
  shows "unquote (escape_byte c @ t) = map_option ((#) c) (unquote t)"
proof (cases "c \<in> {CHR 0x22, CHR 0x5C, CHR 0x08, CHR 0x0C, CHR 0x0A, CHR 0x0D, CHR 0x09}")
  case True
  then show ?thesis by (auto simp: escape_byte_def unquote_escape unescape_def)
next
  case False
  have h: "hex_value (hex_digit (byte c div 16)) = Some (byte c div 16)"
    "hex_value (hex_digit (byte c mod 16)) = Some (byte c mod 16)" "hex_value (CHR ''0'') = Some 0"
    using assms by (simp_all add: hex_value_hex_digit) (simp add: hex_value_def is_digit_def)
  have "getu4 (CHR 0x5C # CHR ''u'' # CHR ''0'' # CHR ''0'' # hex_digit (byte c div 16) # hex_digit (byte c mod 16) # t)
      = Some (byte c)" using h by simp
  from unquote_u [OF this] have "unquote (CHR 0x5C # CHR ''u'' # CHR ''0'' # CHR ''0'' #
      hex_digit (byte c div 16) # hex_digit (byte c mod 16) # t) = map_option ((#) c) (unquote t)"
    using assms by (simp add: is_surrogate_def rune_bytes_ascii)
  with False show ?thesis by (simp add: escape_byte_def)
qed

lemma hex_values: "hex_value (CHR ''f'') = Some 15" "hex_value (CHR ''d'') = Some 13" "hex_value (CHR ''2'') = Some 2"
  "hex_value (CHR ''0'') = Some 0" "hex_value (CHR ''8'') = Some 8" "hex_value (CHR ''9'') = Some 9"
  by code_simp+

lemma unquote_copied:
  assumes "DecodeRune (map byte (c # cs)) = (r, w)" "1 < w"
  shows "unquote (take w (c # cs) @ t) = map_option ((@) (rune_bytes r)) (unquote t)"
proof -
  have c: "128 \<le> byte c" using assms by (cases "byte c < 128") auto
  then have nb: "c \<noteq> CHR 0x5C" by auto
  obtain w' where w: "w = Suc w'" using assms(2) by (cases w) auto
  have len: "w \<le> length (c # cs)" using DecodeRune_bound [of "map byte (c # cs)"] assms(1) by simp
  have "DecodeRune (map byte (c # take w' cs @ t)) = (r, w)"
    using DecodeRune_local [OF assms, of "map byte t"] by (simp add: w take_map)
  with c nb len show ?thesis by (simp add: w unquote.simps(2) del: DecodeRune.simps)
qed

lemma unquote_escape_string: "unquote (escape_string s) = Some (to_valid s)"
proof (induction s rule: escape_string.induct)
  case (2 c cs)
  show ?case
  proof (cases "byte c < 128")
    case True
    with 2(1) show ?thesis
      by (auto simp: escape_string.simps(2) unquote_escape_byte to_valid_ascii html_safe_def unquote_plain)
  next
    case False
    obtain r w where rw: "DecodeRune (map byte (c # cs)) = (r, w)" by (metis surj_pair)
    have IH: "unquote (escape_string (drop w (c # cs))) = Some (to_valid (drop w (c # cs)))"
      using 2(2) [OF False] rw by simp
    have val: "to_valid (c # cs) = rune_bytes r @ to_valid (drop w (c # cs))" using rw by (rule to_valid_Cons)
    have "0 < w" using DecodeRune_width [of "byte c" "map byte cs"] rw by simp
    moreover have "w \<noteq> 1 \<or> r = RuneError" using rw False by (auto split: if_splits list.splits)
    ultimately consider (err) "r = RuneError" "w = 1" | (sep) "r = 8232" | (par) "r = 8233"
      | (copy) "1 < w" "\<not> (r = RuneError \<and> w = 1)" "r \<noteq> 8232" "r \<noteq> 8233" by linarith
    then show ?thesis
    proof cases
      case err
      then have "escape_string (c # cs) = CHR 0x5C # ''ufffd'' @ escape_string (drop w (c # cs))"
        using rw False by (simp add: escape_string.simps(2))
      moreover have "unquote (CHR 0x5C # ''ufffd'' @ t) = map_option ((@) (rune_bytes RuneError)) (unquote t)" for t
        using unquote_u [of "CHR ''f''" "CHR ''f''" "CHR ''f''" "CHR ''d''" t] by (simp add: hex_values is_surrogate_def)
      ultimately show ?thesis using IH val err by simp
    next
      case sep
      then have "escape_string (c # cs) = CHR 0x5C # ''u2028'' @ escape_string (drop w (c # cs))"
        using rw False by (simp add: escape_string.simps(2))
      moreover have "unquote (CHR 0x5C # ''u2028'' @ t) = map_option ((@) (rune_bytes 8232)) (unquote t)" for t
        using unquote_u [of "CHR ''2''" "CHR ''0''" "CHR ''2''" "CHR ''8''" t] by (simp add: hex_values is_surrogate_def)
      ultimately show ?thesis using IH val sep by simp
    next
      case par
      then have "escape_string (c # cs) = CHR 0x5C # ''u2029'' @ escape_string (drop w (c # cs))"
        using rw False by (simp add: escape_string.simps(2))
      moreover have "unquote (CHR 0x5C # ''u2029'' @ t) = map_option ((@) (rune_bytes 8233)) (unquote t)" for t
        using unquote_u [of "CHR ''2''" "CHR ''0''" "CHR ''2''" "CHR ''9''" t] by (simp add: hex_values is_surrogate_def)
      ultimately show ?thesis using IH val par by simp
    next
      case copy
      then have "escape_string (c # cs) = take w (c # cs) @ escape_string (drop w (c # cs))"
        using rw False by (simp add: escape_string.simps(2))
      with unquote_copied [OF rw copy(1)] IH val show ?thesis by simp
    qed
  qed
qed simp

text \<open>A piece of a string in which no quotation mark stands unescaped.\<close>

fun closed_text :: "bool \<Rightarrow> string \<Rightarrow> bool" where
  "closed_text esc [] = (\<not> esc)"
| "closed_text esc (c # cs) = (if esc then closed_text False cs else c \<noteq> CHR 0x22 \<and> closed_text (c = CHR 0x5C) cs)"

lemma closed_text_append: "closed_text esc a \<Longrightarrow> closed_text False b \<Longrightarrow> closed_text esc (a @ b)"
  by (induction esc a rule: closed_text.induct) auto

lemma lex_closed_text: "closed_text esc p \<Longrightarrow> lex (InString acc esc) (p @ t) = lex (InString (rev p @ acc) False) t"
  by (induction esc p arbitrary: acc rule: closed_text.induct) auto

lemma closed_text_high: "(\<And>c. c \<in> set p \<Longrightarrow> 128 \<le> byte c) \<Longrightarrow> closed_text False p"
proof (induction p)
  case (Cons c p)
  then have "c \<noteq> CHR 0x22" "c \<noteq> CHR 0x5C" by fastforce+
  with Cons show ?case by auto
qed simp

lemma hex_digit_plain:
  assumes "n < 16"
  shows "hex_digit n \<noteq> CHR 0x22" "hex_digit n \<noteq> CHR 0x5C"
proof -
  have b: "byte (hex_digit n) = (if n < 10 then 48 + n else 87 + n)" using assms by (simp add: hex_digit_def)
  show "hex_digit n \<noteq> CHR 0x22"
  proof
    assume h: "hex_digit n = CHR 0x22"
    from b show False unfolding h by (simp split: if_splits)
  qed
  show "hex_digit n \<noteq> CHR 0x5C"
  proof
    assume h: "hex_digit n = CHR 0x5C"
    from b assms show False unfolding h by (simp split: if_splits)
  qed
qed

lemma closed_escape_byte: "closed_text False (escape_byte c)"
proof -
  have "byte c < 256" by (rule nat_of_char_less_256)
  then have "byte c div 16 < 16" by linarith
  then show ?thesis by (simp add: escape_byte_def hex_digit_plain)
qed

lemma EncodeRune_high: "128 \<le> r \<Longrightarrow> b \<in> set (EncodeRune r) \<Longrightarrow> 128 \<le> b"
  by (auto simp: EncodeRune_def split: if_splits)

lemma DecodeRune_high: "128 \<le> a \<Longrightarrow> 128 \<le> fst (DecodeRune (a # rest))"
proof -
  assume h: "128 \<le> a"
  consider "194 \<le> a" "a \<le> 223" | "224 \<le> a" "a \<le> 239" | "240 \<le> a" "a \<le> 244"
    | "\<not> (194 \<le> a \<and> a \<le> 223)" "\<not> (224 \<le> a \<and> a \<le> 239)" "\<not> (240 \<le> a \<and> a \<le> 244)" by linarith
  then show ?thesis
  proof cases
    case 4
    with h show ?thesis by auto
  qed (use DecodeRune_two DecodeRune_three DecodeRune_four in blast)+
qed

lemma closed_escape_string: "closed_text False (escape_string s)"
proof (induction s rule: escape_string.induct)
  case (2 c cs)
  show ?case
  proof (cases "byte c < 128")
    case True
    with 2(1) show ?thesis
      by (auto simp: escape_string.simps(2) html_safe_def closed_escape_byte intro: closed_text_append)
  next
    case False
    obtain r w where rw: "DecodeRune (map byte (c # cs)) = (r, w)" by (metis surj_pair)
    have IH: "closed_text False (escape_string (drop w (c # cs)))" using 2(2) [OF False] rw by simp
    have "closed_text False (take w (c # cs))" if "\<not> (r = RuneError \<and> w = 1)"
    proof -
      have "0 < w" using DecodeRune_width [of "byte c" "map byte cs"] rw by simp
      moreover have "w \<noteq> 1 \<or> r = RuneError" using rw False by (auto split: if_splits list.splits)
      ultimately have w: "1 < w" using that by linarith
      have "128 \<le> r" using DecodeRune_high [of "byte c" "map byte cs"] rw False by simp
      moreover have "take w (map byte (c # cs)) = EncodeRune r" using EncodeRune_DecodeRune [OF rw w] by simp
      ultimately have "\<forall>b \<in> set (map byte (take w (c # cs))). 128 \<le> b" using EncodeRune_high by (metis take_map)
      then show ?thesis by (intro closed_text_high) auto
    qed
    with IH rw False show ?thesis
      by (auto simp: escape_string.simps(2) intro!: closed_text_append)
  qed
qed simp

lemma lex_string: "lex Between (token_text (TString s) @ t) = map_option ((#) (TString (to_valid s))) (lex Between t)"
  using lex_closed_text [OF closed_escape_string, of "[]" s "CHR 0x22 # t"] unquote_escape_string [of s]
  by (simp add: json_space_def punct_char_def)

text \<open>A number and a word end where another kind of character follows.\<close>

lemma lex_number_go:
  "list_all number_char n \<Longrightarrow> t = [] \<or> \<not> number_char (hd t) \<Longrightarrow> json_number (rev acc @ n) \<Longrightarrow>
     lex (InNumber acc) (n @ t) = map_option ((#) (TNumber (rev acc @ n))) (lex Between t)"
  by (induction n arbitrary: acc) (cases t; auto)+

lemma json_exponent_chars: "json_exponent s \<Longrightarrow> list_all number_char s"
  by (auto simp: json_exponent_def number_char_def list_all_iff Let_def split: list.splits if_splits)

lemma dropWhile_chars: "list_all number_char (dropWhile is_digit s) \<Longrightarrow> list_all number_char s"
  by (induction s) (auto simp: number_char_def split: if_splits)

lemma json_fraction_chars: "json_fraction s \<Longrightarrow> list_all number_char s"
  by (cases s) (auto simp: json_fraction_def number_char_def [of "CHR ''.''"] split: if_splits
      dest: json_exponent_chars dropWhile_chars)

lemma number_char_digit: "is_digit c \<Longrightarrow> number_char c"
  by (simp add: number_char_def)

lemma is_digit_0: "is_digit (CHR ''0'')"
  by code_simp

lemma json_number_chars: "json_number s \<Longrightarrow> list_all number_char s \<and> s \<noteq> [] \<and> (is_digit (hd s) \<or> hd s = CHR ''-'')"
  by (cases s) (auto simp: json_number_def number_char_def [of "CHR ''-''"] number_char_digit is_digit_0
      split: list.splits if_splits dest: json_fraction_chars dropWhile_chars)

lemma digit_kinds:
  assumes "is_digit c \<or> c = CHR ''-''"
  shows "\<not> json_space c" "\<not> punct_char c" "c \<noteq> CHR 0x22"
  using assms by (auto simp: json_space_def punct_char_def is_digit_def)

lemma lex_number:
  assumes "json_number n" "t = [] \<or> \<not> number_char (hd t)"
  shows "lex Between (token_text (TNumber n) @ t) = map_option ((#) (TNumber n)) (lex Between t)"
proof -
  from json_number_chars [OF assms(1)] obtain c m where n: "n = c # m" "list_all number_char m"
      "is_digit c \<or> c = CHR ''-''" by (cases n) auto
  then have "lex Between (n @ t) = lex (InNumber [c]) (m @ t)" using digit_kinds [OF n(3)] by auto
  with lex_number_go [OF n(2) assms(2), of "[c]"] assms(1) n(1) show ?thesis by simp
qed

lemma lex_word_go:
  "list_all word_char n \<Longrightarrow> t = [] \<or> \<not> word_char (hd t) \<Longrightarrow> word_token (rev acc @ n) = Some w \<Longrightarrow>
     lex (InWord acc) (n @ t) = map_option ((#) w) (lex Between t)"
  by (induction n arbitrary: acc) (cases t; auto)+

lemma lex_word:
  assumes "w \<in> {TTrue, TFalse, TNull}" "t = [] \<or> \<not> word_char (hd t)"
  shows "lex Between (token_text w @ t) = map_option ((#) w) (lex Between t)"
proof -
  have k: "list_all word_char ''rue''" "list_all word_char ''alse''" "list_all word_char ''ull''"
    "word_char (CHR ''t'')" "word_char (CHR ''f'')" "word_char (CHR ''n'')" by code_simp+
  have d: "\<not> is_digit (CHR ''t'')" "\<not> is_digit (CHR ''f'')" "\<not> is_digit (CHR ''n'')" by code_simp+
  consider "w = TTrue" | "w = TFalse" | "w = TNull" using assms(1) by blast
  then show ?thesis
  proof cases
    case 1
    with lex_word_go [OF k(1) assms(2), of "''t''" TTrue] k(4) d(1) show ?thesis
      by (simp add: json_space_def punct_char_def word_token_def)
  next
    case 2
    with lex_word_go [OF k(2) assms(2), of "''f''" TFalse] k(5) d(2) show ?thesis
      by (simp add: json_space_def punct_char_def word_token_def)
  next
    case 3
    with lex_word_go [OF k(3) assms(2), of "''n''" TNull] k(6) d(3) show ?thesis
      by (simp add: json_space_def punct_char_def word_token_def)
  qed
qed

lemma lex_punct: "punct_char c \<Longrightarrow> lex Between (token_text (TPunct c) @ t) = map_option ((#) (TPunct c)) (lex Between t)"
  by (auto simp: punct_char_def json_space_def)

text \<open>
  Tokens the scanner gives back: the marks of the grammar, valid text, numbers of the grammar, and
  after a number or a word a mark or the end.
\<close>

fun token_ok :: "token \<Rightarrow> bool" where
  "token_ok (TPunct c) = punct_char c"
| "token_ok (TString s) = (to_valid s = s)"
| "token_ok (TNumber n) = json_number n"
| "token_ok _ = True"

fun is_punct :: "token \<Rightarrow> bool" where
  "is_punct (TPunct c) = True"
| "is_punct _ = False"

fun is_bare :: "token \<Rightarrow> bool" where
  "is_bare (TNumber n) = True" | "is_bare TTrue = True" | "is_bare TFalse = True" | "is_bare TNull = True"
| "is_bare _ = False"

fun separated :: "token list \<Rightarrow> bool" where
  "separated (t # u # ts) = ((is_bare t \<longrightarrow> is_punct u) \<and> separated (u # ts))"
| "separated _ = True"

lemma punct_ends: "punct_char c \<Longrightarrow> \<not> number_char c \<and> \<not> word_char c"
  by (auto simp: punct_char_def number_char_def word_char_def is_digit_def)

lemma lex_tokens:
  "list_all token_ok ts \<Longrightarrow> separated ts \<Longrightarrow> lex Between (concat (map token_text ts)) = Some ts"
proof (induction ts)
  case (Cons t ts)
  let ?r = "concat (map token_text ts)"
  have sep: "separated ts" using Cons.prems(2) by (cases ts) auto
  have IH: "lex Between ?r = Some ts" using Cons sep by simp
  have follow: "?r = [] \<or> \<not> number_char (hd ?r) \<and> \<not> word_char (hd ?r)" if bare: "is_bare t"
  proof (cases ts)
    case (Cons u us)
    then have "is_punct u" using Cons.prems(2) bare by simp
    then obtain c where c: "u = TPunct c" by (cases u) auto
    with Cons.prems(1) Cons have "punct_char c" by simp
    with c Cons punct_ends show ?thesis by simp
  qed simp
  have "lex Between (token_text t @ ?r) = map_option ((#) t) (lex Between ?r)"
  proof (cases t)
    case (TPunct c)
    with Cons.prems(1) lex_punct show ?thesis by simp
  next
    case (TString s)
    with Cons.prems(1) lex_string [of s ?r] show ?thesis by (simp del: token_text.simps)
  next
    case (TNumber n)
    with Cons.prems(1) lex_number [of n ?r] follow show ?thesis by (auto simp del: token_text.simps)
  qed (use lex_word [of t ?r] follow in \<open>auto simp del: token_text.simps\<close>)
  with IH show ?case by simp
qed simp

text \<open>Values whose strings are valid text and whose numbers are numbers of the grammar.\<close>

fun json_ok :: "json \<Rightarrow> bool" where
  "json_ok (JNumber n) = json_number n"
| "json_ok (JString s) = (to_valid s = s)"
| "json_ok (JArray vs) = list_all json_ok vs"
| "json_ok (JObject ms) = list_all (\<lambda>(k, v). to_valid k = k \<and> json_ok v) ms"
| "json_ok _ = True"

lemma punct_chars [simp]: "punct_char (CHR ''['')" "punct_char (CHR '']'')" "punct_char (CHR ''{'')"
  "punct_char (CHR ''}'')" "punct_char (CHR '':'')" "punct_char (CHR '','')"
  by (simp_all add: punct_char_def)

lemma tokens_ok:
  "json_ok j \<Longrightarrow> list_all token_ok (tokens j)"
  "list_all json_ok vs \<Longrightarrow> list_all token_ok (tokens_rest vs)"
  "list_all (\<lambda>(k, v). to_valid k = k \<and> json_ok v) ms \<Longrightarrow> list_all token_ok (members_rest ms)"
  by (induction j and vs and ms rule: tokens_tokens_rest_members_rest.induct) auto

lemma separated_append:
  "separated a \<Longrightarrow> separated b \<Longrightarrow> (a \<noteq> [] \<Longrightarrow> b \<noteq> [] \<Longrightarrow> is_bare (last a) \<Longrightarrow> is_punct (hd b)) \<Longrightarrow> separated (a @ b)"
proof (induction a)
  case (Cons t a)
  show ?case
  proof (cases a)
    case Nil
    then show ?thesis using Cons.prems by (cases b) auto
  next
    case (Cons u a')
    then show ?thesis using Cons.IH Cons.prems by auto
  qed
qed simp

lemma tokens_separated:
  "separated (tokens j)"
  "separated (tokens_rest vs) \<and> tokens_rest vs \<noteq> [] \<and> is_punct (hd (tokens_rest vs))"
  "separated (members_rest ms) \<and> members_rest ms \<noteq> [] \<and> is_punct (hd (members_rest ms))"
proof (induction j and vs and ms rule: tokens_tokens_rest_members_rest.induct)
  case (6 v vs)
  then have "separated (tokens v @ tokens_rest vs)" by (intro separated_append) auto
  then show ?case using separated_append [of "[TPunct (CHR ''['')]"] by simp
next
  case (8 k v ms)
  then have "separated (tokens v @ members_rest ms)" by (intro separated_append) auto
  then show ?case using separated_append [of "[TPunct (CHR ''{''), TString k, TPunct (CHR '':'')]"] by simp
next
  case (10 v vs)
  then have "separated (tokens v @ tokens_rest vs)" by (intro separated_append) auto
  then show ?case using separated_append [of "[TPunct (CHR '','')]"] by simp
next
  case (12 k v ms)
  then have "separated (tokens v @ members_rest ms)" by (intro separated_append) auto
  then show ?case using separated_append [of "[TPunct (CHR '',''), TString k, TPunct (CHR '':'')]"] by simp
qed auto

lemma json_parse_Marshal:
  assumes "json_ok j" "json_depth j \<le> maxNestingDepth"
  shows "json_parse (json_Marshal j) = Some j"
  using lex_tokens [OF tokens_ok(1) [OF assms(1)] tokens_separated(1)] parse_tokens_tokens [OF assms(2)]
  by (simp add: json_parse_def json_Marshal_def)

section \<open>What is read is what was written\<close>

text \<open>The tokens a state of the parser has consumed.\<close>

definition array_text :: "json list \<Rightarrow> token list" where
  "array_text vs = TPunct (CHR ''['') # concat (map (\<lambda>v. tokens v @ [TPunct (CHR '','')]) (rev vs))"

definition object_text :: "(string \<times> json) list \<Rightarrow> token list" where
  "object_text ms = TPunct (CHR ''{'') #
     concat (map (\<lambda>(k, v). TString k # TPunct (CHR '':'') # tokens v @ [TPunct (CHR '','')]) (rev ms))"

fun frame_text :: "frame \<Rightarrow> token list" where
  "frame_text (FArray vs) = array_text vs"
| "frame_text (FObject ms k) = object_text ms @ [TString k, TPunct (CHR '':'')]"

definition stack_text :: "frame list \<Rightarrow> token list" where
  "stack_text st = concat (map frame_text (rev st))"

fun consumed :: "frame list \<times> parse_mode \<Rightarrow> token list option" where
  "consumed (st, PValue) = Some (stack_text st)"
| "consumed (st, PAfter v) = Some (stack_text st @ tokens v)"
| "consumed (FArray [] # st, PFirst) = Some (stack_text st @ [TPunct (CHR ''['')])"
| "consumed (FObject [] k # st, PKeyFirst) = Some (stack_text st @ [TPunct (CHR ''{'')])"
| "consumed (FObject ms k # st, PKey) = Some (stack_text st @ object_text ms)"
| "consumed (FObject ms k # st, PColon) = Some (stack_text st @ object_text ms @ [TString k])"
| "consumed _ = None"

lemma stack_text_Cons [simp]: "stack_text (f # st) = stack_text st @ frame_text f"
  by (simp add: stack_text_def)

lemma stack_text_Nil [simp]: "stack_text [] = []"
  by (simp add: stack_text_def)

lemma array_closed: "array_text vs @ tokens v @ [TPunct (CHR '']'')] = tokens (JArray (rev (v # vs)))"
proof -
  have "concat (map (\<lambda>v. tokens v @ [TPunct (CHR '','')]) xs) @ tokens v @ [TPunct (CHR '']'')] =
      tokens (hd (xs @ [v])) @ tokens_rest (tl (xs @ [v]))" for xs
  proof (induction xs)
    case (Cons x xs)
    then show ?case by (cases xs) auto
  qed simp
  from this [of "rev vs"] show ?thesis by (cases "rev (v # vs)") (auto simp: array_text_def)
qed

lemma object_closed:
  "object_text ms @ TString k # TPunct (CHR '':'') # tokens v @ [TPunct (CHR ''}'')] = tokens (JObject (rev ((k, v) # ms)))"
proof -
  have "concat (map (\<lambda>(k, v). TString k # TPunct (CHR '':'') # tokens v @ [TPunct (CHR '','')]) xs) @
        TString k # TPunct (CHR '':'') # tokens v @ [TPunct (CHR ''}'')] =
      TString (fst (hd (xs @ [(k, v)]))) # TPunct (CHR '':'') # tokens (snd (hd (xs @ [(k, v)]))) @
        members_rest (tl (xs @ [(k, v)]))" for xs
  proof (induction xs)
    case (Cons x xs)
    then show ?case by (cases xs; cases x) auto
  qed simp
  from this [of "rev ms"] show ?thesis
    by (cases "rev ((k, v) # ms)") (auto simp: object_text_def)
qed

lemma begin_value_consumed:
  assumes "begin_value st t = Some s'"
  shows "consumed s' = Some (stack_text st @ [t])"
  using assms by (auto simp: begin_value_def split: token.splits if_splits)

lemma parse_key_consumed:
  assumes "parse_key (FObject ms k # st) t = Some s'"
  shows "consumed s' = Some (stack_text st @ object_text ms @ [t])"
  using assms by (auto simp: parse_key_def split: token.splits)

lemma parse_after_consumed:
  assumes "parse_after st v t = Some s'"
  shows "consumed s' = Some (stack_text st @ tokens v @ [t])"
proof (cases st)
  case (Cons f st')
  show ?thesis
  proof (cases f)
    case (FArray vs)
    with Cons assms array_closed [of vs v] show ?thesis
      by (auto simp: parse_after_def array_text_def split: if_splits)
  next
    case (FObject ms k)
    with Cons assms object_closed [of ms k v] show ?thesis
      by (auto simp: parse_after_def object_text_def split: if_splits)
  qed
qed (use assms in \<open>simp add: parse_after_def\<close>)

lemma parse_step_consumed:
  assumes "parse_step s t = Some s'" "consumed s = Some ts"
  shows "consumed s' = Some (ts @ [t])"
proof (cases s rule: consumed.cases)
  case (1 st)
  with assms begin_value_consumed show ?thesis by auto
next
  case (2 st v)
  with assms parse_after_consumed show ?thesis by fastforce
next
  case (3 st)
  with assms begin_value_consumed [of "FArray [] # st" t s'] show ?thesis
    by (auto simp: array_text_def split: if_splits)
next
  case (4 k st)
  with assms parse_key_consumed [of "[]" k st t s'] show ?thesis
    by (auto simp: object_text_def split: if_splits)
next
  case (5 ms k st)
  with assms parse_key_consumed [of ms k st t s'] show ?thesis by auto
qed (use assms in \<open>auto split: if_splits\<close>)

lemma parse_run_consumed:
  "parse_run s us = Some s' \<Longrightarrow> consumed s = Some ts \<Longrightarrow> consumed s' = Some (ts @ us)"
proof (induction us arbitrary: s ts)
  case (Cons u us)
  then obtain s1 where s1: "parse_step s u = Some s1" "parse_run s1 us = Some s'"
    by (auto simp: Option.bind_eq_Some_conv)
  with Cons.IH [OF s1(2) parse_step_consumed [OF s1(1) Cons.prems(2)]] show ?case by simp
qed simp

lemma parse_tokens_unique: "parse_tokens ts = Some j \<Longrightarrow> ts = tokens j"
  using parse_run_consumed [of "([], PValue)" ts "([], PAfter j)" "[]"]
  by (auto simp: parse_tokens_def split: option.splits prod.splits list.splits parse_mode.splits)

end
