(* ===== verification/Metadata.thy ===== *)
theory Metadata
  imports Counter_Store Json
begin

text \<open>
  Counter metadata: one JSON document per counter with an opaque revision
  (\<open>internal/store/metadata.go\<close>, \<open>internal/service/metadata.go\<close>). A revision is a random UUID that the
  server draws (\<open>gen_random_uuid()\<close>), an argument here, as is its clock.
\<close>

section \<open>The statements\<close>

definition counter_exists_stmt ::
  "externals \<Rightarrow> access \<Rightarrow> string \<Rightarrow> string \<Rightarrow> database \<Rightarrow> go_error + bool" where
  "counter_exists_stmt X a tenantID counterID db =
     (case (pg_uuid X tenantID, pg_uuid X counterID) of
        (Some t, Some c) \<Rightarrow>
          Inr (list_ex (\<lambda>r. ctr_tenant_id r = t \<and> ctr_id r = c \<and>
                 counter_tenant_visible X a (Some (ctr_tenant_id r))) (counters db))
      | _ \<Rightarrow> Inl (Pq ''22P02''))"

abbreviation metadata_of :: "string \<Rightarrow> string \<Rightarrow> metadata_row \<Rightarrow> bool" where
  "metadata_of t c r \<equiv> md_tenant_id r = t \<and> md_counter_id r = c"

definition select_metadata_stmt ::
  "externals \<Rightarrow> access \<Rightarrow> string \<Rightarrow> string \<Rightarrow> database \<Rightarrow> go_error + metadata_row" where
  "select_metadata_stmt X a tenantID counterID db =
     (case (pg_uuid X tenantID, pg_uuid X counterID) of
        (Some t, Some c) \<Rightarrow>
          (case find (\<lambda>r. metadata_of t c r \<and> counter_tenant_visible X a (Some (md_tenant_id r))) (metadata_rows db) of
             None \<Rightarrow> Inl (Sentinel ErrNoRows)
           | Some r \<Rightarrow> Inr r)
      | _ \<Rightarrow> Inl (Pq ''22P02''))"

text \<open>No row comes back from the insertion when there is a document already.\<close>

definition insert_metadata_stmt ::
  "externals \<Rightarrow> access \<Rightarrow> string \<Rightarrow> string \<Rightarrow> string \<Rightarrow> string \<Rightarrow> time \<Rightarrow> database \<Rightarrow>
   go_error + (metadata_row \<times> database)" where
  "insert_metadata_stmt X a tenantID counterID data fresh now db =
     (case (pg_uuid X tenantID, pg_uuid X counterID, pg_jsonb X data) of
        (Some t, Some c, Inr doc) \<Rightarrow>
          (if \<not> counter_tenant_visible X a (Some t) then Inl (Pq ''42501'')
           else if list_ex (metadata_of t c) (metadata_rows db) then Inl (Sentinel ErrNoRows)
           else if \<not> list_ex (\<lambda>r. ctr_tenant_id r = t \<and> ctr_id r = c) (counters db) then Inl (Pq ''23503'')
           else
             (let r = \<lparr>md_tenant_id = t, md_counter_id = c, md_data = doc, md_version = fresh,
                       md_created_at = pg_time X now, md_updated_at = pg_time X now\<rparr>
              in Inr (r, db\<lparr>metadata_rows := metadata_rows db @ [r]\<rparr>)))
      | (Some t, Some c, Inl code) \<Rightarrow> Inl (Pq code)
      | _ \<Rightarrow> Inl (Pq ''22P02''))"

definition update_metadata_stmt ::
  "externals \<Rightarrow> access \<Rightarrow> string \<Rightarrow> string \<Rightarrow> string \<Rightarrow> string \<Rightarrow> string \<Rightarrow> time \<Rightarrow> database \<Rightarrow>
   go_error + (metadata_row \<times> database)" where
  "update_metadata_stmt X a tenantID counterID data expected fresh now db =
     (case (pg_uuid X tenantID, pg_uuid X counterID, pg_uuid X expected, pg_jsonb X data) of
        (Some t, Some c, Some v, Inr doc) \<Rightarrow>
          (let hit = (\<lambda>r. metadata_of t c r \<and> md_version r = v \<and> counter_tenant_visible X a (Some (md_tenant_id r)));
               new = (\<lambda>r. r\<lparr>md_data := doc, md_version := fresh, md_updated_at := pg_time X now\<rparr>)
           in case find hit (metadata_rows db) of
                None \<Rightarrow> Inl (Sentinel ErrNoRows)
              | Some r \<Rightarrow> Inr (new r, db\<lparr>metadata_rows := update_where hit new (metadata_rows db)\<rparr>))
      | (Some t, Some c, Some v, Inl code) \<Rightarrow> Inl (Pq code)
      | _ \<Rightarrow> Inl (Pq ''22P02''))"

definition delete_metadata_stmt ::
  "externals \<Rightarrow> access \<Rightarrow> string \<Rightarrow> string \<Rightarrow> string \<Rightarrow> database \<Rightarrow> go_error + (nat \<times> database)" where
  "delete_metadata_stmt X a tenantID counterID expected db =
     (case (pg_uuid X tenantID, pg_uuid X counterID, pg_uuid X expected) of
        (Some t, Some c, Some v) \<Rightarrow>
          (let hit = (\<lambda>r. metadata_of t c r \<and> md_version r = v \<and> counter_tenant_visible X a (Some (md_tenant_id r)))
           in Inr (length (filter hit (metadata_rows db)),
                db\<lparr>metadata_rows := filter (\<lambda>r. \<not> hit r) (metadata_rows db)\<rparr>))
      | _ \<Rightarrow> Inl (Pq ''22P02''))"

section \<open>The store\<close>

definition CounterExists ::
  "externals \<Rightarrow> faults \<Rightarrow> go_context \<Rightarrow> string \<Rightarrow> string \<Rightarrow> database \<Rightarrow> go_error + bool" where
  "CounterExists X f ctx tenantID counterID db =
     query f ctx SCounterExists (counter_exists_stmt X (AccessFromContext ctx) tenantID counterID) db"

definition MetadataStore_Get ::
  "externals \<Rightarrow> faults \<Rightarrow> go_context \<Rightarrow> string \<Rightarrow> string \<Rightarrow> database \<Rightarrow> go_error + metadata_row" where
  "MetadataStore_Get X f ctx tenantID counterID db =
     (case query f ctx SGetMetadata (select_metadata_stmt X (AccessFromContext ctx) tenantID counterID) db of
        Inl e \<Rightarrow> if errors_Is e ErrNoRows then Inl (Sentinel ErrMetadataNotFound)
                 else Inl (Wrapf ''get counter metadata'' e)
      | Inr r \<Rightarrow> Inr r)"

definition metadata_write_error :: "go_error \<Rightarrow> go_error" where
  "metadata_write_error e =
     (if errors_Is e ErrNoRows then Sentinel ErrMetadataPrecondition
      else
        (case errors_As_pq e of
           Some code \<Rightarrow>
             if length code \<ge> 2 \<and> take 2 code = ''22'' then Sentinel ErrInvalidMetadata
             else if code = ''23503'' then Sentinel StoreErrCounterNotFound
             else Wrapf ''replace counter metadata'' e
         | None \<Rightarrow> Wrapf ''replace counter metadata'' e))"

definition MetadataStore_Put ::
  "externals \<Rightarrow> faults \<Rightarrow> go_context \<Rightarrow> string \<Rightarrow> time \<Rightarrow> string \<Rightarrow> string \<Rightarrow> string \<Rightarrow> string \<Rightarrow> bool \<Rightarrow>
   database \<Rightarrow> (go_error + metadata_row) \<times> database" where
  "MetadataStore_Put X f ctx fresh now tenantID counterID data expected create db =
     BeginWrite f ctx (\<lambda>e. e) (\<lambda>_ e. e)
       (\<lambda>d. case CounterExists X f (WithTransaction ctx) tenantID counterID d of
              Inl e \<Rightarrow> (Inl e, d)
            | Inr False \<Rightarrow> (Inl (Sentinel StoreErrCounterNotFound), d)
            | Inr True \<Rightarrow>
              (case (if create
                     then exec f SInsertMetadata
                       (insert_metadata_stmt X (AccessFromContext ctx) tenantID counterID data fresh now d)
                     else exec f SUpdateMetadata
                       (update_metadata_stmt X (AccessFromContext ctx) tenantID counterID data expected fresh now d)) of
                 Inl e \<Rightarrow> (Inl (metadata_write_error e), d)
               | Inr (r, d') \<Rightarrow> (Inr r, d'))) db"

definition MetadataStore_Delete ::
  "externals \<Rightarrow> faults \<Rightarrow> go_context \<Rightarrow> string \<Rightarrow> string \<Rightarrow> string \<Rightarrow> database \<Rightarrow> (go_error + unit) \<times> database" where
  "MetadataStore_Delete X f ctx tenantID counterID expected db =
     BeginWrite f ctx (\<lambda>e. e) (\<lambda>_ e. e)
       (\<lambda>d. case CounterExists X f (WithTransaction ctx) tenantID counterID d of
              Inl e \<Rightarrow> (Inl e, d)
            | Inr False \<Rightarrow> (Inl (Sentinel StoreErrCounterNotFound), d)
            | Inr True \<Rightarrow>
              (case exec f SDeleteMetadata (delete_metadata_stmt X (AccessFromContext ctx) tenantID counterID expected d) of
                 Inl e \<Rightarrow> (Inl (Wrapf ''delete counter metadata'' e), d)
               | Inr (affected, d') \<Rightarrow>
                 if affected = 0 then (Inl (Sentinel ErrMetadataPrecondition), d') else (Inr (), d'))) db"

section \<open>The service\<close>

abbreviation MaxMetadataBytes :: nat where "MaxMetadataBytes \<equiv> 64 * 1024"

abbreviation MaxMetadataDepth :: int where "MaxMetadataDepth \<equiv> 64"

text \<open>The loop over the decoder's tokens, which are the brackets and the scalars.\<close>

fun depth_loop :: "int \<Rightarrow> token list \<Rightarrow> bool" where
  "depth_loop depth [] = True"
| "depth_loop depth (TPunct c # ts) =
     (if c = CHR '','' \<or> c = CHR '':'' then depth_loop depth ts
      else
        (let depth' = (if c = CHR ''{'' \<or> c = CHR ''['' then depth + 1 else depth - 1)
         in if depth' > MaxMetadataDepth then False else depth_loop depth' ts))"
| "depth_loop depth (t # ts) = depth_loop depth ts"

definition ValidateMetadata :: "string \<Rightarrow> go_error option" where
  "ValidateMetadata data =
     (if length data > MaxMetadataBytes then Some (Sentinel ErrMetadataTooLarge)
      else if \<not> json_Valid data then Some (Sentinel ErrInvalidMetadata)
      else
        (case lex Between data of
           None \<Rightarrow> Some (Sentinel ErrInvalidMetadata)
         | Some ts \<Rightarrow> if depth_loop 0 ts then None else Some (Sentinel ErrInvalidMetadata)))"

definition MetadataService_Get ::
  "externals \<Rightarrow> faults \<Rightarrow> go_context \<Rightarrow> string \<Rightarrow> string \<Rightarrow> database \<Rightarrow> go_error + metadata_row" where
  "MetadataService_Get X f ctx tenantID counterID db =
     (case CounterExists X f ctx tenantID counterID db of
        Inl e \<Rightarrow> Inl e
      | Inr False \<Rightarrow> Inl (Sentinel ErrCounterNotFound)
      | Inr True \<Rightarrow> MetadataStore_Get X f ctx tenantID counterID db)"

definition service_counter_error :: "go_error \<Rightarrow> go_error" where
  "service_counter_error e = (if errors_Is e StoreErrCounterNotFound then Sentinel ErrCounterNotFound else e)"

definition MetadataService_Put ::
  "externals \<Rightarrow> faults \<Rightarrow> go_context \<Rightarrow> string \<Rightarrow> time \<Rightarrow> string \<Rightarrow> string \<Rightarrow> string \<Rightarrow> string \<Rightarrow> bool \<Rightarrow>
   database \<Rightarrow> (go_error + metadata_row) \<times> database" where
  "MetadataService_Put X f ctx fresh now tenantID counterID data expected create db =
     (case ValidateMetadata data of
        Some e \<Rightarrow> (Inl e, db)
      | None \<Rightarrow>
        (case MetadataStore_Put X f ctx fresh now tenantID counterID data expected create db of
           (Inl e, db') \<Rightarrow> (Inl (service_counter_error e), db')
         | (Inr r, db') \<Rightarrow> (Inr r, db')))"

definition MetadataService_Delete ::
  "externals \<Rightarrow> faults \<Rightarrow> go_context \<Rightarrow> string \<Rightarrow> string \<Rightarrow> string \<Rightarrow> database \<Rightarrow> (go_error + unit) \<times> database" where
  "MetadataService_Delete X f ctx tenantID counterID expected db =
     (case MetadataStore_Delete X f ctx tenantID counterID expected db of
        (Inl e, db') \<Rightarrow> (Inl (service_counter_error e), db')
      | (Inr u, db') \<Rightarrow> (Inr u, db'))"

section \<open>What a document may be\<close>

lemma depth_loop_tokens:
  "d \<le> 64 \<Longrightarrow> depth_loop d (tokens j @ ts) \<longleftrightarrow> d + int (json_depth j) \<le> 64 \<and> depth_loop d ts"
  "d < 64 \<Longrightarrow> depth_loop (d + 1) (tokens_rest vs @ ts) \<longleftrightarrow>
     (\<forall>v \<in> set vs. d + 1 + int (json_depth v) \<le> 64) \<and> depth_loop d ts"
  "d < 64 \<Longrightarrow> depth_loop (d + 1) (members_rest ms @ ts) \<longleftrightarrow>
     (\<forall>m \<in> set ms. d + 1 + int (json_depth (snd m)) \<le> 64) \<and> depth_loop d ts"
proof (induction j and vs and ms arbitrary: d ts and d ts and d ts rule: tokens_tokens_rest_members_rest.induct)
  case (6 v vs)
  show ?case
  proof (cases "d < 64")
    case True
    have "d + int (json_depth (JArray (v # vs))) \<le> 64 \<longleftrightarrow> (\<forall>x \<in> set (v # vs). d + 1 + int (json_depth x) \<le> 64)"
      using json_depth_array [of "v # vs" "nat (64 - d)"] True by fastforce
    with True 6(1) [of "d + 1"] 6(2) [of d] show ?thesis by auto
  next
    case False
    have "0 < json_depth (JArray (v # vs))" by (simp add: json_depth.simps)
    with False 6(3) show ?thesis by simp
  qed
next
  case (8 k v ms)
  show ?case
  proof (cases "d < 64")
    case True
    have "d + int (json_depth (JObject ((k, v) # ms))) \<le> 64 \<longleftrightarrow>
        (\<forall>m \<in> set ((k, v) # ms). d + 1 + int (json_depth (snd m)) \<le> 64)"
      using json_depth_object [of "(k, v) # ms" "nat (64 - d)"] True by fastforce
    with True 8(1) [of "d + 1"] 8(2) [of d] show ?thesis by auto
  next
    case False
    have "0 < json_depth (JObject ((k, v) # ms))" by (simp add: json_depth.simps)
    with False 8(3) show ?thesis by simp
  qed
qed (auto simp: json_depth.simps)

text \<open>
  C32. A document is accepted if and only if its text has at most 64 KiB, is JSON, and its value
  nests arrays and objects at most 64 deep.
\<close>

theorem ValidateMetadata_exact:
  "ValidateMetadata data = None \<longleftrightarrow>
     length data \<le> 65536 \<and> (case json_parse data of None \<Rightarrow> False | Some j \<Rightarrow> json_depth j \<le> 64)"
proof (cases "json_parse data")
  case None
  then show ?thesis by (simp add: ValidateMetadata_def json_Valid_def)
next
  case (Some j)
  then obtain ts where ts: "lex Between data = Some ts" "parse_tokens ts = Some j"
    by (auto simp: json_parse_def Option.bind_eq_Some_conv)
  have "depth_loop 0 ts \<longleftrightarrow> json_depth j \<le> 64"
    using depth_loop_tokens(1) [of 0 j "[]"] parse_tokens_unique [OF ts(2)] by simp
  with ts Some show ?thesis by (simp add: ValidateMetadata_def json_Valid_def)
qed

section \<open>Revisions\<close>

text \<open>At most one document per counter, and every document belongs to a counter.\<close>

definition metadata_key :: "metadata_row \<Rightarrow> string \<times> string" where
  "metadata_key r = (md_tenant_id r, md_counter_id r)"

definition metadata_ok :: "database \<Rightarrow> bool" where
  "metadata_ok db \<longleftrightarrow> distinct (map metadata_key (metadata_rows db)) \<and>
     list_all (\<lambda>r. list_ex (\<lambda>c. ctr_tenant_id c = md_tenant_id r \<and> ctr_id c = md_counter_id r) (counters db))
       (metadata_rows db)"

datatype metadata_call =
    MPut faults go_context string time string string string string bool
  | MDelete faults go_context string string string

fun metadata_exec :: "externals \<Rightarrow> metadata_call \<Rightarrow> database \<Rightarrow> database" where
  "metadata_exec X (MPut f ctx fresh now tenantID counterID data expected create) db =
     snd (MetadataStore_Put X f ctx fresh now tenantID counterID data expected create db)"
| "metadata_exec X (MDelete f ctx tenantID counterID expected) db =
     snd (MetadataStore_Delete X f ctx tenantID counterID expected db)"

fun drawn :: "metadata_call \<Rightarrow> string set" where
  "drawn (MPut f ctx fresh now tenantID counterID data expected create) = {fresh}"
| "drawn (MDelete f ctx tenantID counterID expected) = {}"

definition revisions :: "string \<Rightarrow> string \<Rightarrow> database \<Rightarrow> string set" where
  "revisions t c db = md_version ` {r \<in> set (metadata_rows db). metadata_of t c r}"

text \<open>What a put and a delete do to the table, in every outcome.\<close>

lemma Put_effect:
  assumes "MetadataStore_Put X f ctx fresh now tenantID counterID data expected create db = (res, db')"
  obtains "db' = db"
  | r where "res = Inr r \<or> (\<exists>e. res = Inl e)" "create"
      "insert_metadata_stmt X (AccessFromContext ctx) tenantID counterID data fresh now db = Inr (r, db')"
  | r where "res = Inr r \<or> (\<exists>e. res = Inl e)" "\<not> create"
      "update_metadata_stmt X (AccessFromContext ctx) tenantID counterID data expected fresh now db = Inr (r, db')"
  using assms
  by (auto simp: MetadataStore_Put_def BeginWrite_def exec_def
      split: if_splits option.splits prod.splits sum.splits bool.splits commit_outcome.splits)

lemma Delete_effect:
  assumes "MetadataStore_Delete X f ctx tenantID counterID expected db = (res, db')"
  obtains "db' = db"
  | n where "delete_metadata_stmt X (AccessFromContext ctx) tenantID counterID expected db = Inr (n, db')"
  using assms
  by (auto simp: MetadataStore_Delete_def BeginWrite_def exec_def
      split: if_splits option.splits prod.splits sum.splits bool.splits commit_outcome.splits)

lemma insert_metadata_Inr:
  assumes "insert_metadata_stmt X a tenantID counterID data fresh now db = Inr (r, db')"
  shows "db' = db\<lparr>metadata_rows := metadata_rows db @ [r]\<rparr>" "md_version r = fresh"
    "pg_uuid X tenantID = Some (md_tenant_id r)" "pg_uuid X counterID = Some (md_counter_id r)"
    "counter_tenant_visible X a (Some (md_tenant_id r))"
    "\<forall>r' \<in> set (metadata_rows db). metadata_key r' \<noteq> metadata_key r"
    "\<exists>c \<in> set (counters db). ctr_tenant_id c = md_tenant_id r \<and> ctr_id c = md_counter_id r"
  using assms
  by (auto simp: insert_metadata_stmt_def Let_def list_ex_iff metadata_key_def split: option.splits sum.splits if_splits)

lemma update_metadata_Inr:
  assumes "update_metadata_stmt X a tenantID counterID data expected fresh now db = Inr (r, db')"
  obtains t c v doc r0 where "pg_uuid X tenantID = Some t" "pg_uuid X counterID = Some c" "pg_uuid X expected = Some v"
    "r0 \<in> set (metadata_rows db)" "metadata_of t c r0" "md_version r0 = v" "counter_tenant_visible X a (Some t)"
    "r = r0\<lparr>md_data := doc, md_version := fresh, md_updated_at := pg_time X now\<rparr>"
    "db' = db\<lparr>metadata_rows := update_where (\<lambda>r. metadata_of t c r \<and> md_version r = v \<and>
        counter_tenant_visible X a (Some (md_tenant_id r)))
      (\<lambda>r. r\<lparr>md_data := doc, md_version := fresh, md_updated_at := pg_time X now\<rparr>) (metadata_rows db)\<rparr>"
  using assms
  by (auto simp: update_metadata_stmt_def Let_def split: option.splits sum.splits dest: find_Some_in)

lemma delete_metadata_Inr:
  assumes "delete_metadata_stmt X a tenantID counterID expected db = Inr (n, db')"
  obtains t c v where "pg_uuid X tenantID = Some t" "pg_uuid X counterID = Some c" "pg_uuid X expected = Some v"
    "n = length (filter (\<lambda>r. metadata_of t c r \<and> md_version r = v \<and>
        counter_tenant_visible X a (Some (md_tenant_id r))) (metadata_rows db))"
    "db' = db\<lparr>metadata_rows := filter (\<lambda>r. \<not> (metadata_of t c r \<and> md_version r = v \<and>
        counter_tenant_visible X a (Some (md_tenant_id r)))) (metadata_rows db)\<rparr>"
  using assms by (auto simp: delete_metadata_stmt_def Let_def split: option.splits)

lemma metadata_exec_revisions: "revisions t c (metadata_exec X call db) \<subseteq> revisions t c db \<union> drawn call"
proof (cases call)
  case (MPut f ctx fresh now tenantID counterID data expected create)
  obtain res db' where p: "MetadataStore_Put X f ctx fresh now tenantID counterID data expected create db = (res, db')"
    by (metis surj_pair)
  from p show ?thesis
  proof (cases rule: Put_effect)
    case (2 r)
    with p MPut insert_metadata_Inr [OF 2(3)] show ?thesis by (auto simp: revisions_def)
  next
    case (3 r)
    from 3(3) show ?thesis
      by (rule update_metadata_Inr) (use p MPut in \<open>auto simp: revisions_def set_update_where split: if_splits\<close>)
  qed (use p MPut in auto)
next
  case (MDelete f ctx tenantID counterID expected)
  obtain res db' where p: "MetadataStore_Delete X f ctx tenantID counterID expected db = (res, db')" by (metis surj_pair)
  from p show ?thesis
  proof (cases rule: Delete_effect)
    case (2 n)
    then show ?thesis by (rule delete_metadata_Inr) (use p MDelete in \<open>auto simp: revisions_def\<close>)
  qed (use p MDelete in auto)
qed

lemma metadata_exec_counters [frame]: "counters (metadata_exec X call db) = counters db"
proof (cases call)
  case (MPut f ctx fresh now tenantID counterID data expected create)
  obtain res db' where p: "MetadataStore_Put X f ctx fresh now tenantID counterID data expected create db = (res, db')"
    by (metis surj_pair)
  from p show ?thesis
  proof (cases rule: Put_effect)
    case (2 r)
    with p MPut insert_metadata_Inr(1) [OF 2(3)] show ?thesis by simp
  next
    case (3 r)
    from 3(3) show ?thesis by (rule update_metadata_Inr) (use p MPut in auto)
  qed (use p MPut in auto)
next
  case (MDelete f ctx tenantID counterID expected)
  obtain res db' where p: "MetadataStore_Delete X f ctx tenantID counterID expected db = (res, db')" by (metis surj_pair)
  from p show ?thesis
  proof (cases rule: Delete_effect)
    case (2 n)
    then show ?thesis by (rule delete_metadata_Inr) (use p MDelete in auto)
  qed (use p MDelete in auto)
qed

lemma metadata_history:
  "revisions t c (fold (metadata_exec X) calls db) \<subseteq> revisions t c db \<union> \<Union> (drawn ` set calls)"
  "counters (fold (metadata_exec X) calls db) = counters db"
proof (induction calls arbitrary: db)
  case (Cons call calls)
  { case 1 then show ?case using Cons(1) [of "metadata_exec X call db"] metadata_exec_revisions [of t c X call db] by auto }
  { case 2 then show ?case using Cons(2) [of "metadata_exec X call db"] by (simp add: frame) }
qed simp_all

lemma revision_replaced:
  assumes vis: "counter_tenant_visible X a (Some t)" and new: "v \<noteq> fresh"
  shows "v \<notin> revisions t c (db\<lparr>metadata_rows := update_where
      (\<lambda>r. metadata_of t c r \<and> md_version r = v \<and> counter_tenant_visible X a (Some (md_tenant_id r)))
      (\<lambda>r. r\<lparr>md_data := doc, md_version := fresh, md_updated_at := time\<rparr>) (metadata_rows db)\<rparr>)"
proof
  let ?hit = "\<lambda>r. metadata_of t c r \<and> md_version r = v \<and> counter_tenant_visible X a (Some (md_tenant_id r))"
  let ?new = "\<lambda>r. r\<lparr>md_data := doc, md_version := fresh, md_updated_at := time\<rparr>"
  assume "v \<in> revisions t c (db\<lparr>metadata_rows := update_where ?hit ?new (metadata_rows db)\<rparr>)"
  then obtain r1 where r1: "r1 \<in> set (update_where ?hit ?new (metadata_rows db))" "metadata_of t c r1" "md_version r1 = v"
    unfolding revisions_def by auto
  from in_update_where [OF r1(1)] obtain r where "r1 = (if ?hit r then ?new r else r)" by blast
  with r1(2,3) vis new show False by (cases "?hit r") auto
qed

text \<open>A write or a deletion that expects a revision the document does not have is refused.\<close>

lemma absent_revision_refused:
  assumes tc: "pg_uuid X tenantID = Some t" "pg_uuid X counterID = Some c" and v: "pg_uuid X expected = Some v"
    and gone: "v \<notin> revisions t c db" and exists: "CounterExists X no_faults ctx tenantID counterID db = Inr True"
    and doc: "pg_jsonb X data = Inr doc" and tx: "\<not> ctx_tx ctx"
  shows "MetadataStore_Put X no_faults ctx fresh now tenantID counterID data expected False db =
      (Inl (Sentinel ErrMetadataPrecondition), db) \<and>
    MetadataStore_Delete X no_faults ctx tenantID counterID expected db = (Inl (Sentinel ErrMetadataPrecondition), db)"
proof -
  have none: "\<not> (metadata_of t c r \<and> md_version r = v)" if "r \<in> set (metadata_rows db)" for r
    using that gone by (auto simp: revisions_def)
  have put: "update_metadata_stmt X (AccessFromContext ctx) tenantID counterID data expected fresh now db = Inl (Sentinel ErrNoRows)"
    using none tc v doc by (auto simp: update_metadata_stmt_def Let_def find_None_iff split: option.splits dest: find_Some_in)
  have "filter (\<lambda>r. metadata_of t c r \<and> md_version r = v \<and>
      counter_tenant_visible X (AccessFromContext ctx) (Some (md_tenant_id r))) (metadata_rows db) = []"
    using none by (auto simp: filter_empty_conv)
  then obtain d where del: "delete_metadata_stmt X (AccessFromContext ctx) tenantID counterID expected db = Inr (0, d)"
    using tc v by (simp add: delete_metadata_stmt_def)
  have ex: "CounterExists X no_faults (WithTransaction ctx) tenantID counterID db = Inr True"
    using exists by (simp add: CounterExists_def)
  show ?thesis
    using tx by (simp add: MetadataStore_Put_def MetadataStore_Delete_def put del ex metadata_write_error_def)
qed

text \<open>
  C16. No lost update. When a write with the revision \<open>v\<close> has been acknowledged, a later write with the
  same revision is refused as a failed precondition and changes nothing, whatever other writes of
  documents, with whatever failures, come in between, as long as the server does not draw \<open>v\<close> again.
\<close>

theorem metadata_no_lost_update:
  assumes ok: "metadata_ok db"
    and first: "MetadataStore_Put X f ctx fresh now tenantID counterID data expected False db = (Inr r, db1)"
    and v: "pg_uuid X expected = Some v" "v \<noteq> fresh" "\<forall>call \<in> set calls. v \<notin> drawn call"
    and later: "db2 = fold (metadata_exec X) calls db1"
    and exists: "CounterExists X no_faults ctx' tenantID counterID db2 = Inr True"
    and doc: "pg_jsonb X data' = Inr doc'" and tx: "\<not> ctx_tx ctx'"
  shows "MetadataStore_Put X no_faults ctx' fresh' now' tenantID counterID data' expected False db2 =
      (Inl (Sentinel ErrMetadataPrecondition), db2) \<and>
    MetadataStore_Delete X no_faults ctx' tenantID counterID expected db2 =
      (Inl (Sentinel ErrMetadataPrecondition), db2)"
proof -
  from first have "update_metadata_stmt X (AccessFromContext ctx) tenantID counterID data expected fresh now db = Inr (r, db1)"
    by (auto simp: MetadataStore_Put_def BeginWrite_def exec_def
      split: if_splits option.splits prod.splits sum.splits bool.splits commit_outcome.splits)
  then obtain t c doc r0 where tc: "pg_uuid X tenantID = Some t" "pg_uuid X counterID = Some c"
    and r0: "r0 \<in> set (metadata_rows db)" "metadata_of t c r0" "md_version r0 = v"
    and vis: "counter_tenant_visible X (AccessFromContext ctx) (Some t)"
    and db1: "db1 = db\<lparr>metadata_rows := update_where (\<lambda>r. metadata_of t c r \<and> md_version r = v \<and>
        counter_tenant_visible X (AccessFromContext ctx) (Some (md_tenant_id r)))
      (\<lambda>r. r\<lparr>md_data := doc, md_version := fresh, md_updated_at := pg_time X now\<rparr>) (metadata_rows db)\<rparr>"
    by (rule update_metadata_Inr) (use v(1) in auto)
  have "v \<notin> revisions t c db1" unfolding db1 by (rule revision_replaced [OF vis v(2)])
  with metadata_history(1) [of t c X calls db1] v(3) later have gone: "v \<notin> revisions t c db2" by blast
  then show ?thesis by (rule absent_revision_refused [OF tc v(1) _ exists doc tx])
qed

definition sample_document_db :: database where
  "sample_document_db = empty_database\<lparr>
     tenants := [\<lparr>tn_id = ''t1'', tn_label = ''acme'', tn_created_at = 0, tn_updated_at = 0\<rparr>],
     counters := [\<lparr>ctr_id = ''c1'', ctr_tenant_id = ''t1'', ctr_label = ''hits'', ctr_value = 10,
       ctr_max_delta = 50, ctr_created_at = 1000, ctr_updated_at = 1000\<rparr>],
     metadata_rows := [\<lparr>md_tenant_id = ''t1'', md_counter_id = ''c1'', md_data = ''{}'', md_version = ''v1'',
       md_created_at = 1000, md_updated_at = 1000\<rparr>]\<rparr>"

definition sample_writer :: go_context where
  "sample_writer = WithAccess context_Background
     \<lparr>acc_TenantID = ''t1'', acc_PrincipalID = ''p1'', acc_Admin = False, acc_AuthenticationID = []\<rparr>"

abbreviation "sample_put \<equiv> MetadataStore_Put sample_ext no_faults sample_writer ''v2'' 2000 ''t1'' ''c1'' ''[1]'' ''v1'' False sample_document_db"

abbreviation "sample_other \<equiv> MDelete no_faults sample_writer ''t1'' ''c1'' ''v2''"

theorem metadata_no_lost_update_witness:
  "fst sample_put = Inr \<lparr>md_tenant_id = ''t1'', md_counter_id = ''c1'', md_data = ''[1]'', md_version = ''v2'',
     md_created_at = 1000, md_updated_at = 2000\<rparr> \<and>
   fst (MetadataStore_Put sample_ext no_faults sample_writer ''v3'' 3000 ''t1'' ''c1'' ''[2]'' ''v1'' False
     (metadata_exec sample_ext sample_other (snd sample_put))) = Inl (Sentinel ErrMetadataPrecondition)"
proof
  let ?r = "\<lparr>md_tenant_id = ''t1'', md_counter_id = ''c1'', md_data = ''[1]'', md_version = ''v2'',
     md_created_at = 1000, md_updated_at = 2000\<rparr>"
  show p: "fst sample_put = Inr ?r" by code_simp
  then have put: "sample_put = (Inr ?r, snd sample_put)" by (metis prod.collapse)
  have ok: "metadata_ok sample_document_db" by code_simp
  have v: "pg_uuid sample_ext ''v1'' = Some ''v1''" by code_simp
  let ?db2 = "fold (metadata_exec sample_ext) [sample_other] (snd sample_put)"
  have ex: "CounterExists sample_ext no_faults sample_writer ''t1'' ''c1'' ?db2 = Inr True" by code_simp
  have doc: "pg_jsonb sample_ext ''[2]'' = Inr ''[2]''" by code_simp
  have tx: "\<not> ctx_tx sample_writer" by code_simp
  have "fst (MetadataStore_Put sample_ext no_faults sample_writer ''v3'' 3000 ''t1'' ''c1'' ''[2]'' ''v1'' False ?db2) =
      Inl (Sentinel ErrMetadataPrecondition)"
    using metadata_no_lost_update [OF ok put v _ _ refl ex doc tx] by simp
  then show "fst (MetadataStore_Put sample_ext no_faults sample_writer ''v3'' 3000 ''t1'' ''c1'' ''[2]'' ''v1'' False
     (metadata_exec sample_ext sample_other (snd sample_put))) = Inl (Sentinel ErrMetadataPrecondition)" by simp
qed

end
