(* ===== verification/Time_Text.thy ===== *)
theory Time_Text
  imports Text
begin

text \<open>
  Times as text: \<open>Format(time.RFC3339Nano)\<close> in UTC, \<open>time.Parse(time.RFC3339Nano, s)\<close> and the stricter
  reading of a time in a JSON document.
\<close>

section \<open>The calendar\<close>

text \<open>A day is counted from 1 January of year 1; a cycle of the calendar is 400 years.\<close>

definition leap_year :: "int \<Rightarrow> bool" where
  "leap_year y \<longleftrightarrow> y mod 4 = 0 \<and> (y mod 100 \<noteq> 0 \<or> y mod 400 = 0)"

definition days_before_year :: "int \<Rightarrow> int" where
  "days_before_year y = (let z = y - 1 in 365 * z + z div 4 - z div 100 + z div 400)"

definition days_before_month :: "bool \<Rightarrow> nat \<Rightarrow> nat" where
  "days_before_month leap m =
     [0, 31, 59, 90, 120, 151, 181, 212, 243, 273, 304, 334, 365] ! (m - 1) + (if leap \<and> 2 < m then 1 else 0)"

definition days_in_month :: "bool \<Rightarrow> nat \<Rightarrow> nat" where
  "days_in_month leap m = days_before_month leap (Suc m) - days_before_month leap m"

text \<open>Year and day of the year of a day.\<close>

definition year_day :: "int \<Rightarrow> int \<times> int" where
  "year_day d =
     (let n400 = d div 146097; r = d mod 146097;
          n100 = min 3 (r div 36524); r2 = r - n100 * 36524;
          n4 = r2 div 1461; r3 = r2 mod 1461;
          n1 = min 3 (r3 div 365)
      in (400 * n400 + 100 * n100 + 4 * n4 + n1 + 1, r3 - 365 * n1))"

definition month_of :: "bool \<Rightarrow> nat \<Rightarrow> nat" where
  "month_of leap yd =
     (case find (\<lambda>m. yd < days_before_month leap (Suc m)) [1..<12] of
        Some m \<Rightarrow> m | None \<Rightarrow> 12)"

section \<open>Printing\<close>

abbreviation day_ns :: int where "day_ns \<equiv> 86400000000000"

abbreviation epoch_days :: int where "epoch_days \<equiv> 719162"

fun padded :: "nat \<Rightarrow> nat \<Rightarrow> string" where
  "padded 0 n = []"
| "padded (Suc k) n = padded k (n div 10) @ [digit (n mod 10)]"

definition trim_zeros :: "string \<Rightarrow> string" where
  "trim_zeros s = rev (dropWhile (\<lambda>c. c = CHR ''0'') (rev s))"

definition time_year :: "time \<Rightarrow> int" where
  "time_year t = fst (year_day (t div day_ns + epoch_days))"

definition RFC3339Nano :: "time \<Rightarrow> string" where
  "RFC3339Nano t =
     (let (y, yd) = year_day (t div day_ns + epoch_days);
          leap = leap_year y; m = month_of leap (nat yd); d = nat yd - days_before_month leap m + 1;
          ns = nat (t mod day_ns); s = ns div 1000000000; frac = ns mod 1000000000
      in padded 4 (nat y) @ ''-'' @ padded 2 m @ ''-'' @ padded 2 d @ ''T'' @
         padded 2 (s div 3600) @ '':'' @ padded 2 (s div 60 mod 60) @ '':'' @ padded 2 (s mod 60) @
         (if frac = 0 then [] else CHR ''.'' # trim_zeros (padded 9 frac)) @ ''Z'')"

section \<open>Reading\<close>

text \<open>Exactly \<open>k\<close> digits at the front.\<close>

definition read_digits :: "nat \<Rightarrow> string \<Rightarrow> (nat \<times> string) option" where
  "read_digits k s =
     (if length s < k then None
      else map_option (\<lambda>n. (n, drop k s)) (parse_digits 0 (take k s)))"

definition read_char :: "char \<Rightarrow> string \<Rightarrow> string option" where
  "read_char c s = (case s of [] \<Rightarrow> None | x # xs \<Rightarrow> if x = c then Some xs else None)"

text \<open>The general parser takes an hour of one digit; the strict one does not.\<close>

definition read_hour :: "bool \<Rightarrow> string \<Rightarrow> (nat \<times> string) option" where
  "read_hour strict s =
     (case read_digits 2 s of
        Some r \<Rightarrow> Some r
      | None \<Rightarrow> if strict then None else read_digits 1 s)"

definition read_fraction :: "bool \<Rightarrow> string \<Rightarrow> nat \<times> string" where
  "read_fraction strict s =
     (case s of
        p # rest \<Rightarrow>
          if (p = CHR ''.'' \<or> \<not> strict \<and> p = CHR '','') \<and> takeWhile is_digit rest \<noteq> []
          then (the (parse_digits 0 (take 9 (takeWhile is_digit rest @ replicate 9 (CHR ''0'')))), dropWhile is_digit rest)
          else (0, s)
      | [] \<Rightarrow> (0, s))"

text \<open>The offset from UTC in minutes.\<close>

definition read_zone :: "bool \<Rightarrow> string \<Rightarrow> int option" where
  "read_zone strict s =
     (case s of
        [] \<Rightarrow> None
      | c # rest \<Rightarrow>
        if c = CHR ''Z'' then (if rest = [] then Some 0 else None)
        else if c = CHR ''+'' \<or> c = CHR ''-'' then
          (case read_digits 2 rest of
             None \<Rightarrow> None
           | Some (h, r1) \<Rightarrow>
             (case Option.bind (read_char (CHR '':'') r1) (read_digits 2) of
                Some (m, []) \<Rightarrow>
                  if (if strict then h \<le> 23 \<and> m \<le> 59 else h \<le> 24 \<and> m \<le> 60)
                  then Some ((if c = CHR ''-'' then - 1 else 1) * int (h * 60 + m)) else None
              | _ \<Rightarrow> None))
        else None)"

definition civil_time :: "nat \<Rightarrow> nat \<Rightarrow> nat \<Rightarrow> nat \<Rightarrow> nat \<Rightarrow> nat \<Rightarrow> nat \<Rightarrow> int \<Rightarrow> time" where
  "civil_time y mo d h mi s ns zone =
     (days_before_year (int y) + int (days_before_month (leap_year (int y)) mo) + int d - 1 - epoch_days) * day_ns +
     ((int h * 60 + int mi - zone) * 60 + int s) * 1000000000 + int ns"

definition parse_time :: "bool \<Rightarrow> string \<Rightarrow> time option" where
  "parse_time strict str =
     Option.bind (read_digits 4 str) (\<lambda>(y, s1).
     Option.bind (read_char (CHR ''-'') s1) (\<lambda>s2.
     Option.bind (read_digits 2 s2) (\<lambda>(mo, s3).
     Option.bind (read_char (CHR ''-'') s3) (\<lambda>s4.
     Option.bind (read_digits 2 s4) (\<lambda>(d, s5).
     Option.bind (read_char (CHR ''T'') s5) (\<lambda>s6.
     Option.bind (read_hour strict s6) (\<lambda>(h, s7).
     Option.bind (read_char (CHR '':'') s7) (\<lambda>s8.
     Option.bind (read_digits 2 s8) (\<lambda>(mi, s9).
     Option.bind (read_char (CHR '':'') s9) (\<lambda>s10.
     Option.bind (read_digits 2 s10) (\<lambda>(s, s11).
     (let (ns, s12) = read_fraction strict s11 in
      Option.bind (read_zone strict s12) (\<lambda>zone.
        if 1 \<le> mo \<and> mo \<le> 12 \<and> 1 \<le> d \<and> d \<le> days_in_month (leap_year (int y)) mo \<and> h \<le> 23 \<and> mi \<le> 59 \<and> s \<le> 59
        then Some (civil_time y mo d h mi s ns zone) else None)))))))))))))"

abbreviation time_Parse :: "string \<Rightarrow> time option" where "time_Parse \<equiv> parse_time False"

section \<open>The round trip\<close>

lemma year_day_inverse:
  assumes "year_day d = (y, yd)"
  shows "days_before_year y + yd = d" "0 \<le> yd" "yd \<le> (if leap_year y then 365 else 364)"
proof -
  define a r where ar: "a = d div 146097" "r = d mod 146097"
  define b where b: "b = min 3 (r div 36524)"
  define r2 where r2: "r2 = r - b * 36524"
  define c r3 where cr: "c = r2 div 1461" "r3 = r2 mod 1461"
  define e where e: "e = min 3 (r3 div 365)"
  from assms have "400 * a + 100 * b + 4 * c + e + 1 = y \<and> r3 - 365 * e = yd"
    by (simp only: year_day_def Let_def prod.inject ar b r2 cr e)
  then have y: "y = 400 * a + 100 * b + 4 * c + e + 1" and yd: "yd = r3 - 365 * e" by simp_all
  have d: "d = 146097 * a + r" and r: "0 \<le> r" "r < 146097" by (simp_all add: ar)
  have bb: "0 \<le> b" "b \<le> 3" and r2b: "0 \<le> r2" "r2 \<le> 36524" "b < 3 \<longrightarrow> r2 < 36524" using r by (auto simp: b r2 min_def)
  have r2d: "r2 = 1461 * c + r3" and r3b: "0 \<le> r3" "r3 < 1461" by (simp_all add: cr)
  have cb: "0 \<le> c" "c \<le> 24" using r2b r2d r3b by linarith+
  have eb: "0 \<le> e" "e \<le> 3" and ydb: "0 \<le> yd" "yd \<le> 365" "e < 3 \<longrightarrow> yd < 365" using r3b by (auto simp: e yd min_def)
  have z: "(y - 1) div 400 = a" "(y - 1) div 100 = 4 * a + b" "(y - 1) div 4 = 100 * a + 25 * b + c"
    using bb cb eb by (simp_all add: y)
  have "days_before_year y = 365 * (y - 1) + (100 * a + 25 * b + c) - (4 * a + b) + a"
    unfolding days_before_year_def Let_def z ..
  then show "days_before_year y + yd = d" using d r2 r2d yd y by simp
  show "0 \<le> yd" by (rule ydb)
  show "yd \<le> (if leap_year y then 365 else 364)"
  proof (cases "yd = 365")
    case True
    then have e3: "e = 3" and "r3 = 1460" using ydb yd eb by auto
    then have y4: "y = 400 * a + 100 * b + 4 * (c + 1)" and "b < 3 \<longrightarrow> c < 24" using y r2b r2d by auto
    then have "y mod 4 = 0" by simp
    moreover have "y mod 100 \<noteq> 0 \<or> y mod 400 = 0"
    proof (cases "c < 24")
      case True
      have "y = 4 * (c + 1) + 100 * (4 * a + b)" using y4 by simp
      then have "y mod 100 = 4 * (c + 1) mod 100" by (simp only: mod_mult_self2)
      then have "y mod 100 = 4 * (c + 1)" using True cb by simp
      with cb True show ?thesis by simp
    next
      case False
      with \<open>b < 3 \<longrightarrow> c < 24\<close> bb cb have "b = 3" "c = 24" by auto
      with y4 show ?thesis by simp
    qed
    ultimately show ?thesis using True by (simp add: leap_year_def)
  next
    case False
    with ydb show ?thesis by auto
  qed
qed

lemma days_in_month_31: "1 \<le> m \<Longrightarrow> m \<le> 12 \<Longrightarrow> days_in_month leap m \<le> 31"
proof -
  have "list_all (\<lambda>m. days_in_month True m \<le> 31 \<and> days_in_month False m \<le> 31) [1..<13]" by code_simp
  then show "1 \<le> m \<Longrightarrow> m \<le> 12 \<Longrightarrow> days_in_month leap m \<le> 31" by (cases leap) (auto simp: list_all_iff)
qed

lemma month_of_day:
  assumes "yd \<le> (if leap then 365 else 364)"
  shows "1 \<le> month_of leap yd \<and> month_of leap yd \<le> 12 \<and> days_before_month leap (month_of leap yd) \<le> yd \<and>
    yd < days_before_month leap (Suc (month_of leap yd))"
proof (cases "find (\<lambda>m. yd < days_before_month leap (Suc m)) [1..<12]")
  case None
  have "(11::nat) \<in> set [1..<12]" by simp
  with None have "days_before_month leap (Suc 11) \<le> yd" unfolding find_None_iff by (meson not_le)
  moreover have "yd < days_before_month leap 13" using assms by (auto simp: days_before_month_def split: if_splits)
  ultimately show ?thesis using None by (simp add: month_of_def)
next
  case (Some m)
  then obtain i where i: "i < 11" "yd < days_before_month leap (Suc m)" "m = Suc i"
    "\<forall>j < i. \<not> yd < days_before_month leap (Suc ([1..<12] ! j))"
    unfolding find_Some_iff by auto
  have "days_before_month leap m \<le> yd"
  proof (cases i)
    case 0
    with i show ?thesis by (simp add: days_before_month_def)
  next
    case (Suc k)
    with i(1,3,4) show ?thesis by (auto dest: spec [of _ k])
  qed
  with i Some show ?thesis by (simp add: month_of_def)
qed

lemma length_padded [simp]: "length (padded k n) = k"
  by (induction k arbitrary: n) simp_all

lemma padded_digits: "c \<in> set (padded k n) \<Longrightarrow> is_digit c"
  by (induction k arbitrary: n) (auto simp: is_digit_digit)

lemma parse_digits_padded: "n < 10 ^ k \<Longrightarrow> parse_digits 0 (padded k n) = Some n"
proof (induction k arbitrary: n)
  case (Suc k)
  then have "n div 10 < 10 ^ k" by (simp add: less_mult_imp_div_less mult.commute)
  with Suc.IH [of "n div 10"] show ?case by (simp add: parse_digits_append is_digit_digit of_char_digit)
qed simp

lemma read_digits_padded: "n < 10 ^ k \<Longrightarrow> read_digits k (padded k n @ s) = Some (n, s)"
  by (simp add: read_digits_def parse_digits_padded)

lemma read_char_Cons [simp]: "read_char c (c # s) = Some s"
  by (simp add: read_char_def)

lemma trim_zeros_pad: "length s = n \<Longrightarrow> take n (trim_zeros s @ replicate n (CHR ''0'')) = s"
proof -
  assume n: "length s = n"
  let ?z = "takeWhile (\<lambda>c. c = CHR ''0'') (rev s)"
  have "rev s = ?z @ dropWhile (\<lambda>c. c = CHR ''0'') (rev s)" by simp
  then have s: "s = trim_zeros s @ rev ?z" unfolding trim_zeros_def by (metis rev_append rev_rev_ident)
  have "rev ?z = replicate (length ?z) (CHR ''0'')"
    by (intro replicate_eqI) (auto dest: set_takeWhileD)
  moreover have "length ?z = n - length (trim_zeros s)" using s n by (metis add_diff_cancel_left' length_append length_rev)
  ultimately have "s = trim_zeros s @ replicate (n - length (trim_zeros s)) (CHR ''0'')" using s by simp
  moreover have "length (trim_zeros s) \<le> n" using n length_dropWhile_le by (metis length_rev trim_zeros_def)
  ultimately show ?thesis by (simp add: min_def)
qed

lemma trim_zeros_digits: "c \<in> set (trim_zeros (padded k n)) \<Longrightarrow> is_digit c"
  using padded_digits [of c k n] by (auto simp: trim_zeros_def dest: set_dropWhileD)

lemma trim_zeros_not_Nil:
  assumes "0 < n" "n < 10 ^ k"
  shows "trim_zeros (padded k n) \<noteq> []"
proof
  assume "trim_zeros (padded k n) = []"
  then have "padded k n = replicate k (CHR ''0'')" using trim_zeros_pad [of "padded k n" k] by simp
  moreover have "parse_digits 0 (replicate k (CHR ''0'')) = Some 0" by (induction k) (simp_all add: is_digit_def)
  ultimately show False using parse_digits_padded [OF assms(2)] assms(1) by simp
qed

lemma read_fraction_printed:
  assumes "frac < 1000000000"
  shows "read_fraction strict ((if frac = 0 then [] else CHR ''.'' # trim_zeros (padded 9 frac)) @ ''Z'') = (frac, ''Z'')"
proof (cases "frac = 0")
  case True
  then show ?thesis by (simp add: read_fraction_def)
next
  case False
  let ?t = "trim_zeros (padded 9 frac)"
  have z: "\<not> is_digit (CHR ''Z'')" by code_simp
  have t: "takeWhile is_digit (?t @ ''Z'') = ?t" "dropWhile is_digit (?t @ ''Z'') = ''Z''"
    using trim_zeros_digits z by (auto simp: takeWhile_append dropWhile_append)
  have ne: "?t \<noteq> []" using False assms by (intro trim_zeros_not_Nil) simp_all
  have "take 9 (?t @ replicate 9 (CHR ''0'')) = padded 9 frac" by (rule trim_zeros_pad) simp
  then have "parse_digits 0 (take 9 (?t @ replicate 9 (CHR ''0''))) = Some frac"
    using parse_digits_padded [of frac 9] assms by simp
  with False ne t show ?thesis by (simp add: read_fraction_def)
qed

lemma parse_time_RFC3339Nano:
  assumes "0 \<le> time_year t" "time_year t \<le> 9999"
  shows "parse_time strict (RFC3339Nano t) = Some t"
proof -
  let ?d = "t div day_ns + epoch_days"
  obtain y yd where yyd: "year_day ?d = (y, yd)" by (metis surj_pair)
  note inv = year_day_inverse [OF yyd]
  have y: "0 \<le> y" "y \<le> 9999" using assms yyd by (simp_all add: time_year_def)
  define leap where leap: "leap = leap_year y"
  define m where m: "m = month_of leap (nat yd)"
  define d where d: "d = nat yd - days_before_month leap m + 1"
  define ns where ns: "ns = nat (t mod day_ns)"
  define s where s: "s = ns div 1000000000"
  define frac where frac: "frac = ns mod 1000000000"
  have ydl: "nat yd \<le> (if leap then 365 else 364)" using inv(2,3) by (auto simp: leap split: if_splits)
  have mo: "1 \<le> m" "m \<le> 12" "days_before_month leap m \<le> nat yd" "nat yd < days_before_month leap (Suc m)"
    using month_of_day [OF ydl] by (simp_all add: m)
  have dm: "d \<le> days_in_month leap m" using mo(3,4) by (simp add: d days_in_month_def)
  have d31: "d \<le> 31" using dm days_in_month_31 [OF mo(1,2), of leap] by simp
  have nsb: "ns < 86400000000000" using ns by (simp add: nat_less_iff)
  have sb: "s < 86400" using nsb by (simp add: s less_mult_imp_div_less)
  have bounds: "nat y < 10 ^ 4" "m < 10 ^ 2" "d < 10 ^ 2" "s div 3600 < 10 ^ 2" "s div 60 mod 60 < 10 ^ 2" "s mod 60 < 10 ^ 2"
    using y mo d31 sb by (auto simp: less_mult_imp_div_less)
  have fb: "frac < 1000000000" by (simp add: frac)
  have printed: "RFC3339Nano t = padded 4 (nat y) @ CHR ''-'' # padded 2 m @ CHR ''-'' # padded 2 d @ CHR ''T'' #
      padded 2 (s div 3600) @ CHR '':'' # padded 2 (s div 60 mod 60) @ CHR '':'' # padded 2 (s mod 60) @
      (if frac = 0 then [] else CHR ''.'' # trim_zeros (padded 9 frac)) @ ''Z''"
    unfolding RFC3339Nano_def Let_def yyd by (simp add: leap m d ns s frac)
  have in_range: "1 \<le> m \<and> m \<le> 12 \<and> 1 \<le> d \<and> d \<le> days_in_month (leap_year (int (nat y))) m \<and>
      s div 3600 \<le> 23 \<and> s div 60 mod 60 \<le> 59 \<and> s mod 60 \<le> 59"
    using mo dm y sb by (auto simp: leap d)
  have "int (days_before_month leap m) + int d - 1 = yd" using mo(3) inv(2) by (simp add: d)
  then have day: "days_before_year (int (nat y)) + int (days_before_month (leap_year (int (nat y))) m) + int d - 1 - epoch_days
      = t div day_ns" using inv(1) y leap by simp
  have "s div 3600 = s div 60 div 60" by (simp add: div_mult2_eq [symmetric])
  then have "(s div 3600 * 60 + s div 60 mod 60) * 60 + s mod 60 = s" by simp
  then have sec: "(int (s div 3600) * 60 + int (s div 60 mod 60)) * 60 + int (s mod 60) = int s"
    by (metis of_nat_add of_nat_mult of_nat_numeral)
  have nsec: "int s * 1000000000 + int frac = t mod day_ns" proof -
    have "int (s * 1000000000 + frac) = int ns" unfolding s frac by simp
    then show ?thesis using ns by simp
  qed
  have "civil_time (nat y) m d (s div 3600) (s div 60 mod 60) (s mod 60) frac 0 = t div day_ns * day_ns + (int s * 1000000000 + int frac)"
    unfolding civil_time_def day using sec by simp
  then have "civil_time (nat y) m d (s div 3600) (s div 60 mod 60) (s mod 60) frac 0 = t div day_ns * day_ns + t mod day_ns"
    unfolding nsec .
  then have civil: "civil_time (nat y) m d (s div 3600) (s div 60 mod 60) (s mod 60) frac 0 = t" by simp
  show ?thesis
    unfolding parse_time_def printed using in_range
    by (simp add: read_digits_padded [OF bounds(1)] read_digits_padded [OF bounds(2)] read_digits_padded [OF bounds(3)]
        read_digits_padded [OF bounds(4)] read_digits_padded [OF bounds(5)] read_digits_padded [OF bounds(6)]
        read_hour_def read_fraction_printed [OF fb, simplified] read_zone_def civil)
qed

end
