(* ===== verification/Observability.thy ===== *)
theory Observability
  imports Runes "HOL-Library.AList"
begin

text \<open>
  \<open>internal/observability\<close>: the registry of request and event counts and the life cycle behind the
  health checks.
\<close>

section \<open>Metrics\<close>

text \<open>A count is an unsigned 64-bit integer; the durations are summed in nanoseconds.\<close>

record metrics =
  mt_requests :: "((string \<times> string \<times> int) \<times> (nat \<times> int)) list"
  mt_events :: "(string \<times> nat) list"

definition NewMetrics :: metrics where
  "NewMetrics = \<lparr>mt_requests = [], mt_events = []\<rparr>"

abbreviation uint64_max :: nat where "uint64_max \<equiv> 18446744073709551616"

definition RecordRequest :: "string \<Rightarrow> string \<Rightarrow> int \<Rightarrow> duration \<Rightarrow> metrics \<Rightarrow> metrics" where
  "RecordRequest meth route status duration m =
     (let key = (meth, route, status);
          (count, total) = (case map_of (mt_requests m) key of None \<Rightarrow> (0, 0) | Some v \<Rightarrow> v)
      in m\<lparr>mt_requests := AList.update key (Suc count mod uint64_max, total + duration) (mt_requests m)\<rparr>)"

definition safeEventName :: "string \<Rightarrow> bool" where
  "safeEventName name \<longleftrightarrow>
     name \<noteq> [] \<and> list_all (\<lambda>r. \<not> ((r < 97 \<or> r > 122) \<and> r \<noteq> 95)) (runes name)"

definition RecordEvent :: "string \<Rightarrow> metrics \<Rightarrow> metrics" where
  "RecordEvent name m =
     (if \<not> safeEventName name then m
      else
        (let count = (case map_of (mt_events m) name of None \<Rightarrow> 0 | Some n \<Rightarrow> n)
         in m\<lparr>mt_events := AList.update name (Suc count mod uint64_max) (mt_events m)\<rparr>))"

definition escapeLabel :: "string \<Rightarrow> string" where
  "escapeLabel s = concat (map (\<lambda>c.
     if c = CHR 0x5C then [c, c] else if c = CHR 0x22 then [CHR 0x5C, c]
     else if c = CHR 0x0A then [CHR 0x5C, CHR ''n''] else [c]) s)"

section \<open>Health\<close>

record health_state =
  hs_supportedSchemaVersion :: int64
  hs_started :: bool
  hs_draining :: bool
  hs_alive :: bool
  hs_schemaVersion :: int64

definition NewHealthState :: "int64 \<Rightarrow> health_state" where
  "NewHealthState v = \<lparr>hs_supportedSchemaVersion = v, hs_started = False, hs_draining = False,
     hs_alive = True, hs_schemaVersion = 0\<rparr>"

definition MarkStarted :: "int64 \<Rightarrow> health_state \<Rightarrow> health_state" where
  "MarkStarted v s = s\<lparr>hs_schemaVersion := v, hs_started := True, hs_alive := True, hs_draining := False\<rparr>"

definition MarkDraining :: "health_state \<Rightarrow> health_state" where
  "MarkDraining s = s\<lparr>hs_draining := True\<rparr>"

definition MarkStopped :: "health_state \<Rightarrow> health_state" where
  "MarkStopped s = s\<lparr>hs_started := False, hs_alive := False\<rparr>"

definition Live :: "health_state \<Rightarrow> bool" where
  "Live s = hs_alive s"

text \<open>The answer of the ping is an argument; \<open>None\<close> is a handler without a database.\<close>

definition CheckReady :: "(go_error + unit) option \<Rightarrow> health_state \<Rightarrow> go_error option" where
  "CheckReady ping s =
     (if \<not> hs_started s then Some (Sentinel ErrNotStarted)
      else if hs_draining s then Some (Sentinel ErrDraining)
      else if hs_schemaVersion s \<noteq> hs_supportedSchemaVersion s then Some (Sentinel ErrSchemaMismatch)
      else
        (case ping of
           None \<Rightarrow> Some (Msg ''readiness dependency is not configured'')
         | Some (Inl e) \<Rightarrow> Some e
         | Some (Inr _) \<Rightarrow> None))"

text \<open>The calls that move the state, in any order.\<close>

inductive health_step :: "health_state \<Rightarrow> health_state \<Rightarrow> bool" where
  start: "health_step s (MarkStarted v s)"
| drain: "health_step s (MarkDraining s)"
| stop: "health_step s (MarkStopped s)"

inductive_cases health_stepE: "health_step s s'"

lemma health_supported:
  "health_step\<^sup>*\<^sup>* (NewHealthState v) s \<Longrightarrow> hs_supportedSchemaVersion s = v \<and> (hs_started s \<longrightarrow> hs_alive s)"
  by (induction rule: rtranclp_induct)
    (auto simp: NewHealthState_def MarkStarted_def MarkDraining_def MarkStopped_def elim: health_stepE)

text \<open>
  C33. A process that answers ready is alive, has announced its start with the schema version it supports
  since the last stop, has not begun to drain, and has just reached its database, whatever the
  order in which it was started, drained and stopped.
\<close>

theorem ready_sound:
  assumes reach: "health_step\<^sup>*\<^sup>* (NewHealthState v) s" and ready: "CheckReady ping s = None"
  shows "Live s \<and> hs_schemaVersion s = v \<and> \<not> hs_draining s \<and> ping = Some (Inr ())"
  using health_supported [OF reach] ready
  by (auto simp: CheckReady_def Live_def split: if_splits option.splits sum.splits)

theorem ready_sound_witness: "Live (MarkStarted 10 (MarkStopped (NewHealthState 10)))"
proof -
  let ?s = "MarkStarted 10 (MarkStopped (NewHealthState 10))"
  have "health_step\<^sup>*\<^sup>* (NewHealthState 10) (MarkStopped (NewHealthState 10))"
    by (rule r_into_rtranclp) (rule health_step.stop)
  then have "health_step\<^sup>*\<^sup>* (NewHealthState 10) ?s"
    by (rule rtranclp.rtrancl_into_rtrancl) (rule health_step.start)
  moreover have "CheckReady (Some (Inr ())) ?s = None" by code_simp
  ultimately show ?thesis using ready_sound by blast
qed

end
