(* ===== verification/Scrub.thy ===== *)
theory Scrub
  imports Prelude Runes Text "HOL-Library.AList"
begin

text \<open>
  The events of \<open>internal/middleware/sentry.go\<close> and the scrubber that every event passes before it
  leaves the process. A map of the source is an association list in the order of its iteration.
\<close>

section \<open>Lower case\<close>

definition lower_rune :: "externals \<Rightarrow> rune \<Rightarrow> rune" where
  "lower_rune X r = (if r < 128 then (if 65 \<le> r \<and> r \<le> 90 then r + 32 else r) else unicode_lower X r)"

definition strings_ToLower :: "externals \<Rightarrow> string \<Rightarrow> string" where
  "strings_ToLower X s = string_of_runes (map (lower_rune X) (runes s))"

section \<open>Events\<close>

record sentry_request =
  sr_URL :: string
  sr_Method :: string
  sr_Data :: string
  sr_QueryString :: string
  sr_Cookies :: string
  sr_Headers :: "(string \<times> string) list"
  sr_Env :: "(string \<times> string) list"

text \<open>The values of a context, by their dynamic type.\<close>

datatype any_value = AnyString string | AnyInt int | AnyMap "(string \<times> string) list"

record sentry_event =
  se_Message :: string
  se_Level :: string
  se_Tags :: "(string \<times> string) list"
  se_User :: "string option"
  se_Contexts :: "(string \<times> (string \<times> any_value) list) list option"
  se_Request :: "sentry_request option"

section \<open>The scrubber\<close>

definition scrub_allowed :: "(string \<times> string) list" where
  "scrub_allowed = [(''host'', ''Host''), (''x-request-id'', ''X-Request-ID''), (''user-agent'', ''User-Agent''),
     (''cf-ray'', ''CF-Ray''), (''content-type'', ''Content-Type'')]"

text \<open>Keeping the headers that a table names, each under its name in the table, with at most 256 bytes.\<close>

definition keep_header ::
  "externals \<Rightarrow> (string \<times> string) list \<Rightarrow> string \<times> string \<Rightarrow> (string \<times> string) list \<Rightarrow> (string \<times> string) list" where
  "keep_header X allowed h kept =
     (case map_of allowed (strings_ToLower X (fst h)) of
        None \<Rightarrow> kept
      | Some name \<Rightarrow> AList.update name (take 256 (snd h)) kept)"

definition scrubSentryHeaders :: "externals \<Rightarrow> (string \<times> string) list \<Rightarrow> (string \<times> string) list" where
  "scrubSentryHeaders X headers = fold (keep_header X scrub_allowed) headers []"

definition scrub_request :: "externals \<Rightarrow> sentry_request \<Rightarrow> sentry_request" where
  "scrub_request X r =
     r\<lparr>sr_Data := [], sr_QueryString := [], sr_Cookies := [], sr_Env := [],
       sr_Headers := scrubSentryHeaders X (sr_Headers r), sr_URL := takeWhile (\<lambda>c. c \<noteq> CHR ''?'') (sr_URL r)\<rparr>"

fun safe_method :: "any_value option \<Rightarrow> (string \<times> any_value) list" where
  "safe_method (Some (AnyString m)) = [(''method'', AnyString m)]"
| "safe_method _ = []"

definition scrub_contexts ::
  "(string \<times> (string \<times> any_value) list) list \<Rightarrow> (string \<times> (string \<times> any_value) list) list" where
  "scrub_contexts cs =
     (case map_of cs ''fasthttp'' of
        None \<Rightarrow> cs
      | Some context \<Rightarrow> AList.update ''fasthttp'' (safe_method (map_of context ''method'')) cs)"

definition ScrubSentryEvent :: "externals \<Rightarrow> sentry_event option \<Rightarrow> sentry_event option" where
  "ScrubSentryEvent X event =
     map_option (\<lambda>ev. ev\<lparr>se_Request := map_option (scrub_request X) (se_Request ev),
                         se_Contexts := map_option scrub_contexts (se_Contexts ev)\<rparr>) event"

section \<open>What is left of an event\<close>

lemma update_subset: "set (AList.update k v al) \<subseteq> insert (k, v) (set al)"
  by (induction al) auto

lemma kept_headers_sound:
  assumes "(n, v) \<in> set (fold (keep_header X allowed) hs acc)"
  shows "(n, v) \<in> set acc \<or> (\<exists>k w. (k, w) \<in> set hs \<and> map_of allowed (strings_ToLower X k) = Some n \<and> v = take 256 w)"
  using assms
proof (induction hs arbitrary: acc)
  case (Cons h hs)
  from Cons.prems have "(n, v) \<in> set (fold (keep_header X allowed) hs (keep_header X allowed h acc))" by simp
  from Cons.IH [OF this] show ?case
  proof
    assume a: "(n, v) \<in> set (keep_header X allowed h acc)"
    show ?thesis
    proof (cases "map_of allowed (strings_ToLower X (fst h))")
      case (Some name)
      with a have "(n, v) \<in> set acc \<or> n = name \<and> v = take 256 (snd h)"
        by (auto simp: keep_header_def dest!: update_subset [THEN subsetD])
      with Some show ?thesis by (cases h) auto
    qed (use a in \<open>simp add: keep_header_def\<close>)
  qed auto
qed simp

lemma kept_headers_distinct:
  "distinct (map fst acc) \<Longrightarrow> distinct (map fst (fold (keep_header X allowed) hs acc))"
  by (induction hs arbitrary: acc) (auto simp: keep_header_def distinct_update split: option.split)

text \<open>
  Nothing but the allow-listed names, each at most once, with bounded values: no key, cookie or
  authorization header survives, and neither does the body, the query or the environment.
\<close>

definition safe_header_names :: "string set" where
  "safe_header_names = {''Host'', ''X-Request-ID'', ''User-Agent'', ''CF-Ray'', ''Content-Type''}"

definition safe_request :: "sentry_request \<Rightarrow> bool" where
  "safe_request r \<longleftrightarrow>
     sr_Data r = [] \<and> sr_QueryString r = [] \<and> sr_Cookies r = [] \<and> sr_Env r = [] \<and> CHR ''?'' \<notin> set (sr_URL r) \<and>
     distinct (map fst (sr_Headers r)) \<and>
     list_all (\<lambda>(n, v). n \<in> safe_header_names \<and> length v \<le> 256) (sr_Headers r)"

definition safe_event :: "sentry_event \<Rightarrow> bool" where
  "safe_event ev \<longleftrightarrow>
     (case se_Request ev of None \<Rightarrow> True | Some r \<Rightarrow> safe_request r) \<and>
     (case se_Contexts ev of None \<Rightarrow> True | Some cs \<Rightarrow>
        (case map_of cs ''fasthttp'' of None \<Rightarrow> True | Some c \<Rightarrow> set (map fst c) \<subseteq> {''method''}))"

lemma scrub_allowed_names: "map_of scrub_allowed k = Some n \<Longrightarrow> n \<in> safe_header_names"
  by (auto simp: scrub_allowed_def safe_header_names_def split: if_splits)

lemma scrub_request_safe: "safe_request (scrub_request X r)"
proof -
  have "n \<in> safe_header_names \<and> length v \<le> 256" if "(n, v) \<in> set (scrubSentryHeaders X (sr_Headers r))" for n v
    using kept_headers_sound [OF that [unfolded scrubSentryHeaders_def]] scrub_allowed_names by auto
  moreover have "distinct (map fst (scrubSentryHeaders X (sr_Headers r)))"
    unfolding scrubSentryHeaders_def by (rule kept_headers_distinct) simp
  ultimately show ?thesis by (auto simp: safe_request_def scrub_request_def list_all_iff dest: set_takeWhileD)
qed

lemma safe_method_names: "set (map fst (safe_method m)) \<subseteq> {''method''}"
  by (cases m rule: safe_method.cases) auto

lemma scrub_contexts_safe:
  "map_of (scrub_contexts cs) ''fasthttp'' = Some c \<Longrightarrow> set (map fst c) \<subseteq> {''method''}"
  using safe_method_names [of "map_of (the (map_of cs ''fasthttp'')) ''method''"]
  by (auto simp: scrub_contexts_def update_conv' split: option.splits)

lemma ScrubSentryEvent_safe: "ScrubSentryEvent X (Some ev) = Some ev' \<Longrightarrow> safe_event ev'"
  using scrub_contexts_safe scrub_request_safe
  by (fastforce simp: ScrubSentryEvent_def safe_event_def split: option.splits)

text \<open>A second pass changes nothing: the scrubber is a projection onto safe events.\<close>

lemma lower_names:
  "strings_ToLower X ''Host'' = ''host''" "strings_ToLower X ''X-Request-ID'' = ''x-request-id''"
  "strings_ToLower X ''User-Agent'' = ''user-agent''" "strings_ToLower X ''CF-Ray'' = ''cf-ray''"
  "strings_ToLower X ''Content-Type'' = ''content-type''"
  by code_simp+

lemma kept_name: "n \<in> safe_header_names \<Longrightarrow> map_of scrub_allowed (strings_ToLower X n) = Some n"
  by (auto simp: safe_header_names_def lower_names scrub_allowed_def)

lemma update_fresh: "k \<notin> fst ` set al \<Longrightarrow> AList.update k v al = al @ [(k, v)]"
  by (induction al) auto

lemma scrub_kept:
  assumes "distinct (map fst (acc @ hs))" "list_all (\<lambda>(n, v). n \<in> safe_header_names \<and> length v \<le> 256) hs"
  shows "fold (keep_header X scrub_allowed) hs acc = acc @ hs"
  using assms
proof (induction hs arbitrary: acc)
  case (Cons h hs)
  obtain n v where h: "h = (n, v)" by (cases h)
  have "keep_header X scrub_allowed h acc = acc @ [h]"
    using Cons.prems by (auto simp: h keep_header_def kept_name update_fresh)
  with Cons show ?case by simp
qed simp

lemma scrub_request_again:
  assumes "safe_request r" shows "scrub_request X r = r"
proof -
  have "takeWhile (\<lambda>c. c \<noteq> CHR ''?'') (sr_URL r) = sr_URL r"
    using assms by (auto simp: safe_request_def takeWhile_eq_all_conv)
  moreover have "scrubSentryHeaders X (sr_Headers r) = sr_Headers r"
    using scrub_kept [of "[]" "sr_Headers r" X] assms by (simp add: scrubSentryHeaders_def safe_request_def)
  ultimately show ?thesis using assms by (simp add: scrub_request_def safe_request_def)
qed

lemma safe_method_again: "safe_method (map_of (safe_method m) ''method'') = safe_method m"
  by (cases m rule: safe_method.cases) auto

lemma scrub_contexts_again: "scrub_contexts (scrub_contexts cs) = scrub_contexts cs"
  by (cases "map_of cs ''fasthttp''") (simp_all add: scrub_contexts_def update_conv' safe_method_again)


definition sample_event :: sentry_event where
  "sample_event = \<lparr>se_Message = ''HTTP 500'', se_Level = ''error'', se_Tags = [], se_User = None, se_Contexts = None,
     se_Request = Some \<lparr>sr_URL = ''http://h/v2?token=s'', sr_Method = ''GET'', sr_Data = ''body'', sr_QueryString = ''token=s'',
       sr_Cookies = ''id=1'', sr_Headers = [(''X-API-Key'', ''ck_k-1.s''), (''HOST'', ''h'')], sr_Env = []\<rparr>\<rparr>"


end
