(* ===== verification/Http.thy ===== *)
theory Http
  imports Counter_Service Credential Metadata History Tenant Validation Observability Time_Text
    Rate_Limit Scrub
begin

text \<open>
  What the handlers of \<open>internal/handlers\<close> share: the request context of fasthttp with the values
  the middleware leaves in it, the answers (\<open>errors.go\<close>, \<open>respondWithJSON\<close> and \<open>respondWithError\<close> of
  \<open>tenant.go\<close>), the decoding of a request body into a Go structure and the printing of the response
  structures of \<open>internal/models\<close>.
\<close>

section \<open>Requests and responses\<close>

text \<open>
  The method, the path, the query (as text and as the list of arguments that fasthttp reads from
  it), the headers and the body.
\<close>

record request =
  req_Method :: string
  req_Path :: string
  req_RequestURI :: string
  req_QueryString :: string
  req_Args :: "(string \<times> string) list"
  req_Headers :: "(string \<times> string) list"
  req_Body :: string

record response =
  rs_Status :: int
  rs_ContentType :: string
  rs_Headers :: "(string \<times> string) list"
  rs_Body :: string

text \<open>The response fasthttp starts from.\<close>

definition new_response :: response where
  "new_response = \<lparr>rs_Status = 200, rs_ContentType = ''text/plain; charset=utf-8'', rs_Headers = [], rs_Body = []\<rparr>"

text \<open>
  A \<open>fasthttp.RequestCtx\<close>: the request, the user values, the response under construction, and what
  the handlers reach through their closures: the tables, the read cache, the rate limiter, the
  registry of counts, the lines of the log and the events captured for the error tracker. An address is the list of its bytes.
  \<open>cx_database\<close> is the database context of \<open>DatabaseContextFromRequest\<close>; \<open>cx_transaction\<close> is the value
  under \<open>transactionContextKey\<close>. The two deadlines are those of the contexts of \<open>requestContextState\<close>;
  what a deadline that has passed does to a statement is a failure of that statement.
\<close>

record request_ctx =
  cx_request :: request
  cx_tenant_id :: "string option"
  cx_counter_id :: "string option"
  cx_credential_id :: "string option"
  cx_principal :: "principal option"
  cx_database :: go_context
  cx_transaction :: "go_context option"
  cx_request_id :: string
  cx_remote_ip :: "nat list option"
  cx_client_ip :: "string option"
  cx_response :: response
  cx_db :: database
  cx_cache :: cache_impl
  cx_limiter :: rate_limiter
  cx_metrics :: "metrics option"
  cx_log :: "string list"
  cx_deadline :: "time option"
  cx_database_deadline :: "time option"
  cx_captured :: "sentry_event list"

text \<open>
  What a request meets: the failures, the clocks of the process and of the server, the identifiers
  and random bytes drawn for it, the state of the cache's backend, the answer of the shared rate
  limiter (\<open>None\<close> without one), the time the request takes and the number of requests in progress.
\<close>

record env =
  en_faults :: faults
  en_now :: time
  en_newID :: string
  en_auditID :: string
  en_rand :: "go_error + nat list"
  en_cache :: cache_env
  en_fresh :: string
  en_server_now :: time
  en_requestID :: string
  en_shared_limit :: "(go_error + bool \<times> int64) option"
  en_elapsed :: duration
  en_inflight :: nat

type_synonym handler = "externals \<Rightarrow> env \<Rightarrow> request_ctx \<Rightarrow> request_ctx"

definition issue_env_of :: "env \<Rightarrow> issue_env" where
  "issue_env_of e = \<lparr>ie_now = en_now e, ie_newID = en_newID e, ie_auditID = en_auditID e, ie_rand = en_rand e\<rparr>"

definition QueryArgs_Peek :: "string \<Rightarrow> request_ctx \<Rightarrow> string" where
  "QueryArgs_Peek name cx = (case map_of (req_Args (cx_request cx)) name of None \<Rightarrow> [] | Some v \<Rightarrow> v)"

text \<open>Header names are compared without regard to case.\<close>

definition Header_Peek :: "string \<Rightarrow> request_ctx \<Rightarrow> string" where
  "Header_Peek name cx =
     (case find (\<lambda>h. to_lower (fst h) = to_lower name) (req_Headers (cx_request cx)) of
        None \<Rightarrow> [] | Some h \<Rightarrow> snd h)"

definition SetStatusCode :: "int \<Rightarrow> request_ctx \<Rightarrow> request_ctx" where
  "SetStatusCode status cx = cx\<lparr>cx_response := (cx_response cx)\<lparr>rs_Status := status\<rparr>\<rparr>"

definition SetContentType :: "string \<Rightarrow> request_ctx \<Rightarrow> request_ctx" where
  "SetContentType t cx = cx\<lparr>cx_response := (cx_response cx)\<lparr>rs_ContentType := t\<rparr>\<rparr>"

definition SetBody :: "string \<Rightarrow> request_ctx \<Rightarrow> request_ctx" where
  "SetBody body cx = cx\<lparr>cx_response := (cx_response cx)\<lparr>rs_Body := body\<rparr>\<rparr>"

definition Header_Set :: "string \<Rightarrow> string \<Rightarrow> request_ctx \<Rightarrow> request_ctx" where
  "Header_Set name v cx =
     cx\<lparr>cx_response := (cx_response cx)\<lparr>rs_Headers := AList.update name v (rs_Headers (cx_response cx))\<rparr>\<rparr>"

definition Header_Del :: "string \<Rightarrow> request_ctx \<Rightarrow> request_ctx" where
  "Header_Del name cx =
     cx\<lparr>cx_response := (cx_response cx)\<lparr>rs_Headers := AList.delete name (rs_Headers (cx_response cx))\<rparr>\<rparr>"

definition Response_Peek :: "string \<Rightarrow> request_ctx \<Rightarrow> string" where
  "Response_Peek name cx = (case map_of (rs_Headers (cx_response cx)) name of None \<Rightarrow> [] | Some v \<Rightarrow> v)"

definition RecordEvent_ctx :: "string \<Rightarrow> request_ctx \<Rightarrow> request_ctx" where
  "RecordEvent_ctx name cx = cx\<lparr>cx_metrics := map_option (RecordEvent name) (cx_metrics cx)\<rparr>"

section \<open>Answers\<close>

definition NewErrorResponse :: "string \<Rightarrow> string \<Rightarrow> json" where
  "NewErrorResponse code message =
     JObject [(''errors'', JArray [JObject [(''code'', JString code), (''message'', JString message)]])]"

text \<open>The argument is the printed value, or \<open>None\<close> when \<open>json.Marshal\<close> fails.\<close>

definition respondWithJSON :: "int \<Rightarrow> string option \<Rightarrow> request_ctx \<Rightarrow> request_ctx" where
  "respondWithJSON status data cx =
     (let cx' = SetContentType ''application/json'' (SetStatusCode status cx)
      in case data of None \<Rightarrow> SetStatusCode 500 cx' | Some body \<Rightarrow> SetBody body cx')"

definition respondWithError :: "int \<Rightarrow> string \<Rightarrow> string \<Rightarrow> request_ctx \<Rightarrow> request_ctx" where
  "respondWithError status code message cx =
     SetBody (json_Marshal (NewErrorResponse code message))
       (SetContentType ''application/json'' (SetStatusCode status cx))"

definition isUnavailable :: "go_error \<Rightarrow> bool" where
  "isUnavailable err \<longleftrightarrow>
     errors_Is err ErrDeadlineExceeded \<or> errors_Is err ErrCanceled \<or> errors_Is err ErrConnDone \<or>
     (case errors_As_pq err of
        None \<Rightarrow> False
      | Some code \<Rightarrow> code = ''53300'' \<or> code = ''55P03'' \<or> code = ''57014'' \<or> code = ''57P01'')"

definition respondWithServiceError :: "go_error \<Rightarrow> int \<Rightarrow> string \<Rightarrow> string \<Rightarrow> request_ctx \<Rightarrow> request_ctx" where
  "respondWithServiceError err fallbackStatus fallbackCode fallbackMessage cx =
     (let cx1 = RecordEvent_ctx ''service_error'' cx
      in if isUnavailable err
         then respondWithError 503 ''SERVICE_UNAVAILABLE'' ''Service is temporarily unavailable''
                (Header_Set ''Retry-After'' ''1'' (RecordEvent_ctx ''transaction_error'' cx1))
         else respondWithError fallbackStatus fallbackCode fallbackMessage cx1)"

definition requestDatabaseContext :: "request_ctx \<Rightarrow> go_context" where
  "requestDatabaseContext cx =
     (case cx_transaction cx of
        Some ctx \<Rightarrow> ctx
      | None \<Rightarrow> WithRequestID (cx_database cx) (cx_request_id cx))"

definition principalID :: "request_ctx \<Rightarrow> string" where
  "principalID cx = (case cx_principal cx of Some p \<Rightarrow> pr_CredentialID p | None \<Rightarrow> ''anonymous'')"

text \<open>A user value of type string; a missing one reads as the empty text.\<close>

abbreviation user_value :: "string option \<Rightarrow> string" where
  "user_value v \<equiv> (case v of None \<Rightarrow> [] | Some s \<Rightarrow> s)"

text \<open>Writing the response and counting events leave the rest of the context alone.\<close>

lemma response_frame [simp]:
  "cx_request (SetStatusCode s cx) = cx_request cx"
  "cx_tenant_id (SetStatusCode s cx) = cx_tenant_id cx"
  "cx_counter_id (SetStatusCode s cx) = cx_counter_id cx"
  "cx_credential_id (SetStatusCode s cx) = cx_credential_id cx"
  "cx_principal (SetStatusCode s cx) = cx_principal cx"
  "cx_database (SetStatusCode s cx) = cx_database cx"
  "cx_transaction (SetStatusCode s cx) = cx_transaction cx"
  "cx_request_id (SetStatusCode s cx) = cx_request_id cx"
  "cx_db (SetStatusCode s cx) = cx_db cx"
  "cx_cache (SetStatusCode s cx) = cx_cache cx"
  "cx_limiter (SetStatusCode s cx) = cx_limiter cx"
  "cx_request (SetContentType t cx) = cx_request cx"
  "cx_tenant_id (SetContentType t cx) = cx_tenant_id cx"
  "cx_counter_id (SetContentType t cx) = cx_counter_id cx"
  "cx_credential_id (SetContentType t cx) = cx_credential_id cx"
  "cx_principal (SetContentType t cx) = cx_principal cx"
  "cx_database (SetContentType t cx) = cx_database cx"
  "cx_transaction (SetContentType t cx) = cx_transaction cx"
  "cx_request_id (SetContentType t cx) = cx_request_id cx"
  "cx_db (SetContentType t cx) = cx_db cx"
  "cx_cache (SetContentType t cx) = cx_cache cx"
  "cx_limiter (SetContentType t cx) = cx_limiter cx"
  "cx_request (SetBody b cx) = cx_request cx"
  "cx_tenant_id (SetBody b cx) = cx_tenant_id cx"
  "cx_counter_id (SetBody b cx) = cx_counter_id cx"
  "cx_credential_id (SetBody b cx) = cx_credential_id cx"
  "cx_principal (SetBody b cx) = cx_principal cx"
  "cx_database (SetBody b cx) = cx_database cx"
  "cx_transaction (SetBody b cx) = cx_transaction cx"
  "cx_request_id (SetBody b cx) = cx_request_id cx"
  "cx_db (SetBody b cx) = cx_db cx"
  "cx_cache (SetBody b cx) = cx_cache cx"
  "cx_limiter (SetBody b cx) = cx_limiter cx"
  "cx_request (Header_Set n v cx) = cx_request cx"
  "cx_tenant_id (Header_Set n v cx) = cx_tenant_id cx"
  "cx_counter_id (Header_Set n v cx) = cx_counter_id cx"
  "cx_credential_id (Header_Set n v cx) = cx_credential_id cx"
  "cx_principal (Header_Set n v cx) = cx_principal cx"
  "cx_database (Header_Set n v cx) = cx_database cx"
  "cx_transaction (Header_Set n v cx) = cx_transaction cx"
  "cx_request_id (Header_Set n v cx) = cx_request_id cx"
  "cx_db (Header_Set n v cx) = cx_db cx"
  "cx_cache (Header_Set n v cx) = cx_cache cx"
  "cx_limiter (Header_Set n v cx) = cx_limiter cx"
  "cx_request (Header_Del n cx) = cx_request cx"
  "cx_tenant_id (Header_Del n cx) = cx_tenant_id cx"
  "cx_counter_id (Header_Del n cx) = cx_counter_id cx"
  "cx_credential_id (Header_Del n cx) = cx_credential_id cx"
  "cx_principal (Header_Del n cx) = cx_principal cx"
  "cx_database (Header_Del n cx) = cx_database cx"
  "cx_transaction (Header_Del n cx) = cx_transaction cx"
  "cx_request_id (Header_Del n cx) = cx_request_id cx"
  "cx_db (Header_Del n cx) = cx_db cx"
  "cx_cache (Header_Del n cx) = cx_cache cx"
  "cx_limiter (Header_Del n cx) = cx_limiter cx"
  "cx_request (RecordEvent_ctx n cx) = cx_request cx"
  "cx_tenant_id (RecordEvent_ctx n cx) = cx_tenant_id cx"
  "cx_counter_id (RecordEvent_ctx n cx) = cx_counter_id cx"
  "cx_credential_id (RecordEvent_ctx n cx) = cx_credential_id cx"
  "cx_principal (RecordEvent_ctx n cx) = cx_principal cx"
  "cx_database (RecordEvent_ctx n cx) = cx_database cx"
  "cx_transaction (RecordEvent_ctx n cx) = cx_transaction cx"
  "cx_request_id (RecordEvent_ctx n cx) = cx_request_id cx"
  "cx_db (RecordEvent_ctx n cx) = cx_db cx"
  "cx_cache (RecordEvent_ctx n cx) = cx_cache cx"
  "cx_limiter (RecordEvent_ctx n cx) = cx_limiter cx"
  by (simp_all add: SetStatusCode_def SetContentType_def SetBody_def Header_Set_def Header_Del_def RecordEvent_ctx_def)

lemma answer_frame [simp]:
  "cx_request (respondWithJSON s d cx) = cx_request cx"
  "cx_tenant_id (respondWithJSON s d cx) = cx_tenant_id cx"
  "cx_counter_id (respondWithJSON s d cx) = cx_counter_id cx"
  "cx_credential_id (respondWithJSON s d cx) = cx_credential_id cx"
  "cx_principal (respondWithJSON s d cx) = cx_principal cx"
  "cx_database (respondWithJSON s d cx) = cx_database cx"
  "cx_transaction (respondWithJSON s d cx) = cx_transaction cx"
  "cx_request_id (respondWithJSON s d cx) = cx_request_id cx"
  "cx_db (respondWithJSON s d cx) = cx_db cx"
  "cx_cache (respondWithJSON s d cx) = cx_cache cx"
  "cx_limiter (respondWithJSON s d cx) = cx_limiter cx"
  "cx_request (respondWithError s c m cx) = cx_request cx"
  "cx_tenant_id (respondWithError s c m cx) = cx_tenant_id cx"
  "cx_counter_id (respondWithError s c m cx) = cx_counter_id cx"
  "cx_credential_id (respondWithError s c m cx) = cx_credential_id cx"
  "cx_principal (respondWithError s c m cx) = cx_principal cx"
  "cx_database (respondWithError s c m cx) = cx_database cx"
  "cx_transaction (respondWithError s c m cx) = cx_transaction cx"
  "cx_request_id (respondWithError s c m cx) = cx_request_id cx"
  "cx_db (respondWithError s c m cx) = cx_db cx"
  "cx_cache (respondWithError s c m cx) = cx_cache cx"
  "cx_limiter (respondWithError s c m cx) = cx_limiter cx"
  "cx_request (respondWithServiceError err s c m cx) = cx_request cx"
  "cx_tenant_id (respondWithServiceError err s c m cx) = cx_tenant_id cx"
  "cx_counter_id (respondWithServiceError err s c m cx) = cx_counter_id cx"
  "cx_credential_id (respondWithServiceError err s c m cx) = cx_credential_id cx"
  "cx_principal (respondWithServiceError err s c m cx) = cx_principal cx"
  "cx_database (respondWithServiceError err s c m cx) = cx_database cx"
  "cx_transaction (respondWithServiceError err s c m cx) = cx_transaction cx"
  "cx_request_id (respondWithServiceError err s c m cx) = cx_request_id cx"
  "cx_db (respondWithServiceError err s c m cx) = cx_db cx"
  "cx_cache (respondWithServiceError err s c m cx) = cx_cache cx"
  "cx_limiter (respondWithServiceError err s c m cx) = cx_limiter cx"
  by (simp_all add: respondWithJSON_def respondWithError_def respondWithServiceError_def Let_def split: option.splits)

lemma Response_Peek_frame [simp]:
  "Response_Peek h (SetStatusCode s cx) = Response_Peek h cx"
  "Response_Peek h (SetContentType t cx) = Response_Peek h cx"
  "Response_Peek h (SetBody b cx) = Response_Peek h cx"
  "Response_Peek h (RecordEvent_ctx n cx) = Response_Peek h cx"
  "Response_Peek h (respondWithJSON s d cx) = Response_Peek h cx"
  "Response_Peek h (respondWithError s c m cx) = Response_Peek h cx"
  "Response_Peek h (Header_Set n v cx) = (if h = n then v else Response_Peek h cx)"
  "h \<noteq> n \<Longrightarrow> Response_Peek h (Header_Del n cx) = Response_Peek h cx"
  "h \<noteq> ''Retry-After'' \<Longrightarrow> Response_Peek h (respondWithServiceError err s c m cx) = Response_Peek h cx"
  by (simp_all add: Response_Peek_def respondWithJSON_def respondWithError_def respondWithServiceError_def
      SetStatusCode_def SetContentType_def SetBody_def Header_Set_def Header_Del_def RecordEvent_ctx_def Let_def
      update_conv delete_conv split: option.splits)

lemma Response_Peek_update [simp]:
  "Response_Peek h (cx\<lparr>cx_db := d\<rparr>) = Response_Peek h cx"
  "Response_Peek h (cx\<lparr>cx_cache := ch\<rparr>) = Response_Peek h cx"
  "Response_Peek h (cx\<lparr>cx_transaction := tx\<rparr>) = Response_Peek h cx"
  "Response_Peek h (cx\<lparr>cx_tenant_id := t\<rparr>) = Response_Peek h cx"
  by (simp_all add: Response_Peek_def)

lemma response_parts [simp]:
  "rs_Status (cx_response (respondWithError s c m cx)) = s"
  "rs_Status (cx_response (SetStatusCode s cx)) = s"
  "rs_Status (cx_response (SetContentType t cx)) = rs_Status (cx_response cx)"
  "rs_Status (cx_response (SetBody b cx)) = rs_Status (cx_response cx)"
  "rs_Status (cx_response (Header_Set n v cx)) = rs_Status (cx_response cx)"
  "rs_Status (cx_response (RecordEvent_ctx n cx)) = rs_Status (cx_response cx)"
  "rs_Status (cx_response (respondWithServiceError err st c m cx)) = (if isUnavailable err then 503 else st)"
  "rs_Status (cx_response (respondWithJSON st d cx)) = (if d = None then 500 else st)"
  "rs_Body (cx_response (SetBody b cx)) = b"
  "rs_Body (cx_response (Header_Set n v cx)) = rs_Body (cx_response cx)"
  "rs_Body (cx_response (RecordEvent_ctx n cx)) = rs_Body (cx_response cx)"
  "rs_ContentType (cx_response (SetContentType t cx)) = t"
  "rs_ContentType (cx_response (SetBody b cx)) = rs_ContentType (cx_response cx)"
  "rs_ContentType (cx_response (Header_Set n v cx)) = rs_ContentType (cx_response cx)"
  "rs_ContentType (cx_response (RecordEvent_ctx n cx)) = rs_ContentType (cx_response cx)"
  by (simp_all add: respondWithJSON_def respondWithError_def respondWithServiceError_def SetStatusCode_def
      SetContentType_def SetBody_def Header_Set_def RecordEvent_ctx_def Let_def split: option.splits)

section \<open>Decoding a body into a structure\<close>

text \<open>
  \<open>json.Unmarshal\<close> matches a member to a field by its exact name or by its folded name. Folding takes
  letters to upper case; outside ASCII only the long s and the Kelvin sign fold into ASCII.
\<close>

definition fold_rune :: "rune \<Rightarrow> rune" where
  "fold_rune r = (if 97 \<le> r \<and> r \<le> 122 then r - 32 else if r = 383 then 83 else if r = 8490 then 75 else r)"

definition foldName :: "string \<Rightarrow> rune list" where
  "foldName key = map fold_rune (runes key)"

definition names_field :: "string \<Rightarrow> string \<Rightarrow> bool" where
  "names_field field key \<longleftrightarrow> key = field \<or> foldName key = foldName field"

text \<open>
  The decoder of a field: its old value and the member to its new value, \<open>None\<close> for a type error.
  A \<open>null\<close> leaves a value of basic type alone.
\<close>

fun decode_string :: "string \<Rightarrow> json \<Rightarrow> string option" where
  "decode_string old JNull = Some old"
| "decode_string old (JString s) = Some s"
| "decode_string old _ = None"

fun decode_int64 :: "int64 \<Rightarrow> json \<Rightarrow> int64 option" where
  "decode_int64 old JNull = Some old"
| "decode_int64 old (JNumber n) = ParseInt64 n"
| "decode_int64 old _ = None"

fun decode_int64_pointer :: "int64 option \<Rightarrow> json \<Rightarrow> int64 option option" where
  "decode_int64_pointer old JNull = Some None"
| "decode_int64_pointer old (JNumber n) = map_option Some (ParseInt64 n)"
| "decode_int64_pointer old _ = None"

text \<open>
  A slice of strings is its backing array and its length: a \<open>null\<close> element keeps what the backing
  array holds at its place.
\<close>

fun decode_elements :: "string list \<Rightarrow> json list \<Rightarrow> string list option" where
  "decode_elements backing [] = Some backing"
| "decode_elements backing (v # vs) =
     (let (b, bs) = (case backing of [] \<Rightarrow> ([], []) | b # bs \<Rightarrow> (b, bs))
      in case (decode_string b v, decode_elements bs vs) of
           (Some s, Some rest) \<Rightarrow> Some (s # rest)
         | _ \<Rightarrow> None)"

fun decode_strings :: "string list \<times> nat \<Rightarrow> json \<Rightarrow> (string list \<times> nat) option" where
  "decode_strings old JNull = Some ([], 0)"
| "decode_strings old (JArray vs) =
     (if vs = [] then Some ([], 0)
      else map_option (\<lambda>b. (b, length vs)) (decode_elements (fst old) vs))"
| "decode_strings old _ = None"

text \<open>A time is read from the text between the quotes as it stands, escapes included.\<close>

fun decode_time_pointer :: "time option \<Rightarrow> json \<Rightarrow> time option option" where
  "decode_time_pointer old JNull = Some None"
| "decode_time_pointer old (JString raw) = map_option Some (parse_time True raw)"
| "decode_time_pointer old _ = None"

text \<open>The members in order; every one decodes, or the whole body is refused.\<close>

fun decode_members :: "('s \<Rightarrow> 'm \<Rightarrow> 's option) \<Rightarrow> 's \<Rightarrow> 'm list \<Rightarrow> 's option" where
  "decode_members field s [] = Some s"
| "decode_members field s (m # ms) = Option.bind (field s m) (\<lambda>s'. decode_members field s' ms)"

text \<open>Into a structure: \<open>null\<close> leaves it alone, and only an object fits.\<close>

fun decode_struct :: "('s \<Rightarrow> string \<times> json \<Rightarrow> 's option) \<Rightarrow> 's \<Rightarrow> json \<Rightarrow> 's option" where
  "decode_struct field s JNull = Some s"
| "decode_struct field s (JObject ms) = decode_members field s ms"
| "decode_struct field s _ = None"

definition json_Unmarshal :: "('s \<Rightarrow> string \<times> json \<Rightarrow> 's option) \<Rightarrow> 's \<Rightarrow> string \<Rightarrow> 's option" where
  "json_Unmarshal field s body = Option.bind (json_parse body) (decode_struct field s)"

definition decode_tenant_field :: "string \<Rightarrow> string \<times> json \<Rightarrow> string option" where
  "decode_tenant_field label m = (if names_field ''label'' (fst m) then decode_string label (snd m) else Some label)"

definition decode_CreateTenantRequest :: "string \<Rightarrow> string option" where
  "decode_CreateTenantRequest body = json_Unmarshal decode_tenant_field [] body"

definition decode_counter_field :: "create_request \<Rightarrow> string \<times> json \<Rightarrow> create_request option" where
  "decode_counter_field r m =
     (if names_field ''label'' (fst m)
      then map_option (\<lambda>v. r\<lparr>rq_Label := v\<rparr>) (decode_string (rq_Label r) (snd m))
      else if names_field ''initial_value'' (fst m)
      then map_option (\<lambda>v. r\<lparr>rq_InitialValue := v\<rparr>) (decode_int64 (rq_InitialValue r) (snd m))
      else if names_field ''max_delta'' (fst m)
      then map_option (\<lambda>v. r\<lparr>rq_MaxDelta := v\<rparr>) (decode_int64 (rq_MaxDelta r) (snd m))
      else Some r)"

definition decode_CreateCounterRequest :: "string \<Rightarrow> create_request option" where
  "decode_CreateCounterRequest body =
     json_Unmarshal decode_counter_field \<lparr>rq_Label = [], rq_InitialValue = 0, rq_MaxDelta = 0\<rparr> body"

definition decode_set_field :: "int64 option \<Rightarrow> string \<times> json \<Rightarrow> int64 option option" where
  "decode_set_field v m = (if names_field ''value'' (fst m) then decode_int64_pointer v (snd m) else Some v)"

definition decode_SetCounterValueRequest :: "string \<Rightarrow> int64 option option" where
  "decode_SetCounterValueRequest body = json_Unmarshal decode_set_field None body"

record credential_request =
  cq_Scopes :: "string list"
  cq_ExpiresAt :: "time option"

text \<open>
  The text of the document with every escape written twice, so that its strings read as they stand
  in the original. The document and this text have the same shape.
\<close>

fun raw_view :: "bool \<Rightarrow> string \<Rightarrow> string" where
  "raw_view inside [] = []"
| "raw_view inside (c # cs) =
     (if inside \<and> c = CHR 0x5C then
        (case cs of
           [] \<Rightarrow> [c]
         | d # ds \<Rightarrow>
           c # c # (if d = CHR 0x22 \<or> d = CHR 0x5C then [CHR 0x5C, d] else [d]) @ raw_view True ds)
      else c # raw_view (inside \<noteq> (c = CHR 0x22)) cs)"

fun object_members :: "json \<Rightarrow> (string \<times> json) list" where
  "object_members (JObject ms) = ms"
| "object_members _ = []"

text \<open>A member comes with the raw form of its value.\<close>

definition decode_credential_field ::
  "(string list \<times> nat) \<times> time option \<Rightarrow> (string \<times> json) \<times> json \<Rightarrow> ((string list \<times> nat) \<times> time option) option" where
  "decode_credential_field s m =
     (if names_field ''scopes'' (fst (fst m))
      then map_option (\<lambda>v. (v, snd s)) (decode_strings (fst s) (snd (fst m)))
      else if names_field ''expires_at'' (fst (fst m))
      then map_option (\<lambda>v. (fst s, v)) (decode_time_pointer (snd s) (snd m))
      else Some s)"

definition decode_CredentialRequest :: "string \<Rightarrow> credential_request option" where
  "decode_CredentialRequest body =
     (case (json_parse body, json_parse (raw_view False body)) of
        (Some JNull, _) \<Rightarrow> Some \<lparr>cq_Scopes = [], cq_ExpiresAt = None\<rparr>
      | (Some (JObject ms), Some raw) \<Rightarrow>
          map_option (\<lambda>((backing, n), t). \<lparr>cq_Scopes = take n backing, cq_ExpiresAt = t\<rparr>)
            (decode_members decode_credential_field (([], 0), None) (zip ms (map snd (object_members raw))))
      | _ \<Rightarrow> None)"

section \<open>Printing the responses\<close>

text \<open>
  A time prints in RFC 3339 form with nanoseconds, in UTC; \<open>MarshalJSON\<close> refuses a year outside 0
  to 9999, and with it the whole response.
\<close>

definition json_time :: "time \<Rightarrow> json option" where
  "json_time t = (if 0 \<le> time_year t \<and> time_year t \<le> 9999 then Some (JString (RFC3339Nano t)) else None)"

abbreviation json_int :: "int \<Rightarrow> json" where "json_int i \<equiv> JNumber (itoa i)"

text \<open>The members of an object, absent ones left out; \<open>None\<close> when one does not print.\<close>

fun json_members :: "(string \<times> json option) list \<Rightarrow> (string \<times> json) list option" where
  "json_members [] = Some []"
| "json_members ((k, v) # ms) =
     (case (v, json_members ms) of (Some j, Some r) \<Rightarrow> Some ((k, j) # r) | _ \<Rightarrow> None)"

definition json_object :: "(string \<times> json option) list \<Rightarrow> json option" where
  "json_object ms = map_option JObject (json_members ms)"

definition json_tenant :: "tenant \<Rightarrow> json option" where
  "json_tenant t = json_object
     [(''tenant_id'', Some (JString (tn_id t))), (''label'', Some (JString (tn_label t))),
      (''created_at'', json_time (tn_created_at t)), (''updated_at'', json_time (tn_updated_at t))]"

definition json_counter :: "counter \<Rightarrow> json option" where
  "json_counter c = json_object
     [(''counter_id'', Some (JString (ctr_id c))), (''tenant_id'', Some (JString (ctr_tenant_id c))),
      (''label'', Some (JString (ctr_label c))), (''value'', Some (json_int (ctr_value c))),
      (''max_delta'', Some (json_int (ctr_max_delta c))), (''created_at'', json_time (ctr_created_at c)),
      (''updated_at'', json_time (ctr_updated_at c))]"

text \<open>The two mutation responses have the same fields; an empty identifier and a zero delta are left out.\<close>

definition json_mutation :: "counter_mutation \<Rightarrow> json option" where
  "json_mutation r = json_object
     ((if cm_OperationID r = [] then [] else [(''operation_id'', Some (JString (cm_OperationID r)))]) @
      [(''counter_id'', Some (JString (cm_CounterID r)))] @
      (if cm_Delta r = 0 then [] else [(''delta'', Some (json_int (cm_Delta r)))]) @
      [(''value'', Some (json_int (cm_Value r))), (''replayed'', Some (JBool (cm_Replayed r))),
       (''updated_at'', json_time (cm_UpdatedAt r))])"

text \<open>A page of no rows is the nil slice that the query left, which prints as \<open>null\<close>.\<close>

definition json_list :: "('a \<Rightarrow> json option) \<Rightarrow> 'a list \<Rightarrow> json option" where
  "json_list f xs = map_option JArray (those (map f xs))"

definition json_cursor :: "string option \<Rightarrow> json" where
  "json_cursor c = (case c of None \<Rightarrow> JNull | Some s \<Rightarrow> JString s)"

definition json_counter_page :: "counter list \<Rightarrow> string option \<Rightarrow> json option" where
  "json_counter_page cs nextc = json_object
     [(''counters'', if cs = [] then Some JNull else json_list json_counter cs),
      (''next_cursor'', Some (json_cursor nextc))]"

fun kind_text :: "op_kind \<Rightarrow> string" where
  "kind_text InitialValue = ''initial_value''"
| "kind_text Increment = ''increment''"
| "kind_text SetAdjustment = ''set_adjustment''"

abbreviation omit_nil :: "string \<Rightarrow> ('a \<Rightarrow> json option) \<Rightarrow> 'a option \<Rightarrow> (string \<times> json option) list" where
  "omit_nil k f v \<equiv> (case v of None \<Rightarrow> [] | Some x \<Rightarrow> [(k, f x)])"

definition json_operation :: "counter_operation \<Rightarrow> json option" where
  "json_operation r = json_object
     ([(''operation_id'', Some (JString (co_OperationID r))), (''counter_id'', Some (JString (co_CounterID r))),
       (''kind'', Some (JString (kind_text (co_Kind r)))), (''delta'', Some (json_int (co_Delta r)))] @
      omit_nil ''value_before'' (\<lambda>v. Some (json_int v)) (co_ValueBefore r) @
      omit_nil ''value_after'' (\<lambda>v. Some (json_int v)) (co_ValueAfter r) @
      omit_nil ''actor_id'' (\<lambda>v. Some (JString v)) (co_ActorID r) @
      [(''metadata'', Some (co_Metadata r)), (''created_at'', json_time (co_CreatedAt r))] @
      omit_nil ''completed_at'' json_time (co_CompletedAt r))"

definition json_operation_page :: "counter_operation list \<Rightarrow> string option \<Rightarrow> json option" where
  "json_operation_page ops nextc = json_object
     [(''operations'', json_list json_operation ops), (''next_cursor'', Some (json_cursor nextc))]"

definition json_issue :: "issue_response \<Rightarrow> json option" where
  "json_issue r = json_object
     ([(''credential_id'', Some (JString (is_CredentialID r)))] @
      (if is_TenantID r = [] then [] else [(''tenant_id'', Some (JString (is_TenantID r)))]) @
      [(''api_key'', Some (JString (is_APIKey r))), (''scopes'', Some (JArray (map JString (is_Scopes r))))] @
      omit_nil ''expires_at'' json_time (is_ExpiresAt r))"

abbreviation marshal :: "json option \<Rightarrow> string option" where
  "marshal j \<equiv> map_option json_Marshal j"

text \<open>
  A stored document is copied into the response without its white space; the characters that
  matter in HTML and the two line separators of Unicode are escaped.
\<close>

fun escape_html :: "string \<Rightarrow> string" where
  "escape_html (a # b # c # cs) =
     (if byte a = 226 \<and> byte b = 128 \<and> (byte c = 168 \<or> byte c = 169)
      then CHR 0x5C # ''u202'' @ [hex_digit (byte c mod 16)] @ escape_html cs
      else (if a = CHR ''<'' \<or> a = CHR ''>'' \<or> a = CHR ''&''
            then [CHR 0x5C, CHR ''u'', CHR ''0'', CHR ''0'', hex_digit (byte a div 16), hex_digit (byte a mod 16)]
            else [a]) @ escape_html (b # c # cs))"
| "escape_html cs =
     concat (map (\<lambda>a. if a = CHR ''<'' \<or> a = CHR ''>'' \<or> a = CHR ''&''
       then [CHR 0x5C, CHR ''u'', CHR ''0'', CHR ''0'', hex_digit (byte a div 16), hex_digit (byte a mod 16)]
       else [a]) cs)"

definition raw_message :: "string \<Rightarrow> string" where
  "raw_message doc = escape_html (json_Compact False False doc)"

definition marshal_metadata :: "metadata_row \<Rightarrow> string option" where
  "marshal_metadata m =
     (case (json_time (md_created_at m), json_time (md_updated_at m)) of
        (Some created, Some updated) \<Rightarrow>
          Some (''{'' @ concat (map (\<lambda>(k, v). json_Marshal (JString k) @ '':'' @ v @ '','')
                 [(''tenant_id'', json_Marshal (JString (md_tenant_id m))),
                  (''counter_id'', json_Marshal (JString (md_counter_id m))),
                  (''data'', raw_message (md_data m)),
                  (''version'', json_Marshal (JString (md_version m))),
                  (''created_at'', json_Marshal created)]) @
                json_Marshal (JString ''updated_at'') @ '':'' @ json_Marshal updated @ ''}'')
      | _ \<Rightarrow> None)"

end
