(* ===== verification/Handlers.thy ===== *)
theory Handlers
  imports Http
begin

text \<open>
  The handlers of \<open>internal/handlers\<close>, each a function on the request context. A handler checks the
  identifiers of the route, decodes the query and the body, calls the service and answers; every early
  return of the source is a branch.
\<close>

section \<open>Route values\<close>

text \<open>The checks at the head of the handlers: the code and the message of the refusal, or the values.\<close>

definition tenant_value :: "externals \<Rightarrow> request_ctx \<Rightarrow> string \<times> string + string" where
  "tenant_value X cx =
     (let tenantID = user_value (cx_tenant_id cx)
      in if tenantID = [] then Inl (''INVALID_PARAMETER'', ''tenant_id is required'')
         else if ValidateUUID X tenantID \<noteq> None then Inl (''INVALID_UUID'', ''Invalid tenant ID format'')
         else Inr tenantID)"

definition counter_values :: "externals \<Rightarrow> request_ctx \<Rightarrow> string \<times> string + string \<times> string" where
  "counter_values X cx =
     (let tenantID = user_value (cx_tenant_id cx); counterID = user_value (cx_counter_id cx)
      in if tenantID = [] then Inl (''INVALID_PARAMETER'', ''tenant_id is required'')
         else if counterID = [] then Inl (''INVALID_PARAMETER'', ''counter_id is required'')
         else if ValidateUUID X tenantID \<noteq> None then Inl (''INVALID_UUID'', ''Invalid tenant ID format'')
         else if ValidateUUID X counterID \<noteq> None then Inl (''INVALID_UUID'', ''Invalid counter ID format'')
         else Inr (tenantID, counterID))"

text \<open>The key of a counter mutation: the refusal, or the key without surrounding space.\<close>

definition mutation_key :: "externals \<Rightarrow> request_ctx \<Rightarrow> string \<times> string + string" where
  "mutation_key X cx =
     (let key = TrimSpace (Header_Peek ''Idempotency-Key'' cx)
      in case ValidateIdempotencyKey X key True of
           None \<Rightarrow> Inr key
         | Some err \<Rightarrow>
           Inl (if errors_Is err ErrIdempotencyKeyRequired then ''IDEMPOTENCY_KEY_REQUIRED''
                else ''INVALID_IDEMPOTENCY_KEY'', error_text X err))"

section \<open>Tenants\<close>

definition CreateTenantServiceHandler :: handler where
  "CreateTenantServiceHandler X e cx =
     (case decode_CreateTenantRequest (req_Body (cx_request cx)) of
        None \<Rightarrow> respondWithError 400 ''INVALID_JSON'' ''Invalid JSON'' cx
      | Some req \<Rightarrow>
        (case CreateTenantRequest_Validate req of
           Inl err \<Rightarrow> respondWithError 400 ''INVALID_PARAMETER'' (error_text X err) cx
         | Inr label \<Rightarrow>
           (case TenantService_Create X (en_faults e) (requestDatabaseContext cx) (en_now e) (en_newID e) label (cx_db cx) of
              (Inl err, db') \<Rightarrow>
                (let cx' = cx\<lparr>cx_db := db'\<rparr>
                 in if errors_Is err ErrConflict
                    then respondWithError 409 ''TENANT_LABEL_EXISTS'' ''A tenant with this label already exists'' cx'
                    else respondWithServiceError err 500 ''DATABASE_ERROR'' ''Failed to create tenant'' cx')
            | (Inr tenant, db') \<Rightarrow> respondWithJSON 201 (marshal (json_tenant tenant)) (cx\<lparr>cx_db := db'\<rparr>))))"

definition GetTenantServiceHandler :: handler where
  "GetTenantServiceHandler X e cx =
     (case tenant_value X cx of
        Inl (code, message) \<Rightarrow> respondWithError 400 code message cx
      | Inr tenantID \<Rightarrow>
        (case TenantService_Get X (en_faults e) (requestDatabaseContext cx) tenantID (cx_db cx) of
           Inl err \<Rightarrow>
             if errors_Is err ErrNotFound then respondWithError 404 ''TENANT_NOT_FOUND'' ''Tenant not found'' cx
             else respondWithServiceError err 500 ''DATABASE_ERROR'' ''Database error'' cx
         | Inr tenant \<Rightarrow> respondWithJSON 200 (marshal (json_tenant tenant)) cx))"

section \<open>Counters\<close>

definition CreateCounterServiceHandler :: handler where
  "CreateCounterServiceHandler X e cx =
     (case tenant_value X cx of
        Inl (code, message) \<Rightarrow> respondWithError 400 code message cx
      | Inr tenantID \<Rightarrow>
        (case decode_CreateCounterRequest (req_Body (cx_request cx)) of
           None \<Rightarrow> respondWithError 400 ''INVALID_JSON'' ''Invalid JSON'' cx
         | Some decoded \<Rightarrow>
           (case CreateCounterRequest_Validate decoded of
              Inl err \<Rightarrow> respondWithError 400 ''INVALID_PARAMETER'' (error_text X err) cx
            | Inr req \<Rightarrow>
              (case Counter_Create X (en_faults e) (requestDatabaseContext cx) (en_now e) (en_newID e) tenantID req (cx_db cx) of
                 (Inl err, db') \<Rightarrow>
                   (let cx' = cx\<lparr>cx_db := db'\<rparr>
                    in if errors_Is err ErrTenantNotFound
                       then respondWithError 404 ''TENANT_NOT_FOUND'' ''Tenant not found'' cx'
                       else if errors_Is err ErrConflict
                       then respondWithError 409 ''COUNTER_LABEL_EXISTS''
                              ''A counter with this label already exists for this tenant'' cx'
                       else respondWithServiceError err 500 ''DATABASE_ERROR'' ''Failed to create counter'' cx')
               | (Inr c, db') \<Rightarrow> respondWithJSON 201 (marshal (json_counter c)) (cx\<lparr>cx_db := db'\<rparr>)))))"

text \<open>
  The service of the router implements the interface with an actor, so the handlers of the two
  mutations take their first branch.
\<close>

definition increment_refusal :: "go_error \<Rightarrow> request_ctx \<Rightarrow> request_ctx" where
  "increment_refusal err cx =
     (if errors_Is err ErrCounterNotFound then respondWithError 404 ''COUNTER_NOT_FOUND'' ''Counter not found'' cx
      else if errors_Is err ErrDeltaExceedsMaximum
      then respondWithError 400 ''DELTA_EXCEEDS_MAXIMUM'' ''Delta exceeds maximum allowed value'' cx
      else if errors_Is err ErrCounterOverflow
      then respondWithError 400 ''COUNTER_OVERFLOW'' ''Increment would exceed the counter value range'' cx
      else if errors_Is err ErrIdempotencyKeyReused
      then respondWithError 409 ''IDEMPOTENCY_KEY_REUSED'' ''Idempotency key was reused with different request data''
             (RecordEvent_ctx ''idempotency_conflict'' cx)
      else if errors_Is err ErrOperationInProgress
      then respondWithError 409 ''OPERATION_IN_PROGRESS'' ''The operation is already in progress''
             (RecordEvent_ctx ''idempotency_conflict'' cx)
      else respondWithServiceError err 503 ''SERVICE_UNAVAILABLE'' ''Counter service is temporarily unavailable'' cx)"

definition mutation_answer :: "string \<Rightarrow> counter_mutation \<Rightarrow> request_ctx \<Rightarrow> request_ctx" where
  "mutation_answer counterID result cx =
     respondWithJSON 200 (marshal (json_mutation (result\<lparr>cm_CounterID := counterID\<rparr>)))
       (if cm_Replayed result then RecordEvent_ctx ''idempotency_replay'' cx else cx)"

text \<open>The delta of the query, 1 when there is none.\<close>

definition delta_arg :: "request_ctx \<Rightarrow> int64 option" where
  "delta_arg cx =
     (let deltaStr = QueryArgs_Peek ''delta'' cx
      in if deltaStr = [] then Some 1
         else case ParseInt64 deltaStr of
                None \<Rightarrow> None
              | Some parsed \<Rightarrow> if parsed \<le> 0 then None else Some parsed)"

definition IncrementCounterServiceHandler :: handler where
  "IncrementCounterServiceHandler X e cx =
     (case counter_values X cx of
        Inl (code, message) \<Rightarrow> respondWithError 400 code message cx
      | Inr (tenantID, counterID) \<Rightarrow>
        (case delta_arg cx of
           None \<Rightarrow> respondWithError 400 ''INVALID_DELTA'' ''Delta must be a positive integer'' cx
         | Some delta \<Rightarrow>
           (case mutation_key X cx of
              Inl (code, message) \<Rightarrow> respondWithError 400 code message cx
            | Inr key \<Rightarrow>
              (case incrementWithActor X (en_faults e) (requestDatabaseContext cx) (en_cache e) (en_now e) (en_newID e)
                  tenantID counterID delta key (principalID cx) (cx_db cx) (cx_cache cx) of
                 (Inl err, db', cache') \<Rightarrow> increment_refusal err (cx\<lparr>cx_db := db', cx_cache := cache'\<rparr>)
               | (Inr result, db', cache') \<Rightarrow>
                   mutation_answer counterID result (cx\<lparr>cx_db := db', cx_cache := cache'\<rparr>)))))"

definition set_refusal :: "go_error \<Rightarrow> request_ctx \<Rightarrow> request_ctx" where
  "set_refusal err cx =
     (if errors_Is err ErrCounterNotFound then respondWithError 404 ''COUNTER_NOT_FOUND'' ''Counter not found'' cx
      else if errors_Is err ErrCounterOverflow
      then respondWithError 400 ''COUNTER_OVERFLOW'' ''Counter value change exceeds the supported range'' cx
      else if errors_Is err ErrIdempotencyKeyReused
      then respondWithError 409 ''IDEMPOTENCY_KEY_REUSED'' ''Idempotency key was reused with different request data''
             (RecordEvent_ctx ''idempotency_conflict'' cx)
      else if errors_Is err ErrOperationInProgress
      then respondWithError 409 ''OPERATION_IN_PROGRESS'' ''The operation is already in progress''
             (RecordEvent_ctx ''idempotency_conflict'' cx)
      else respondWithServiceError err 503 ''SERVICE_UNAVAILABLE'' ''Counter service is temporarily unavailable'' cx)"

text \<open>The second check of a missing value, after the validation that refuses it, never applies.\<close>

definition SetCounterServiceHandler :: handler where
  "SetCounterServiceHandler X e cx =
     (case counter_values X cx of
        Inl (code, message) \<Rightarrow> respondWithError 400 code message cx
      | Inr (tenantID, counterID) \<Rightarrow>
        (case decode_SetCounterValueRequest (req_Body (cx_request cx)) of
           None \<Rightarrow> respondWithError 400 ''INVALID_JSON'' ''Invalid JSON'' cx
         | Some req \<Rightarrow>
           (case SetCounterValueRequest_Validate req of
              Some err \<Rightarrow> respondWithError 400 ''INVALID_PARAMETER'' (error_text X err) cx
            | None \<Rightarrow>
              (case req of
                 None \<Rightarrow> respondWithError 400 ''INVALID_PARAMETER'' ''value is required'' cx
               | Some v \<Rightarrow>
                 (case mutation_key X cx of
                    Inl (code, message) \<Rightarrow> respondWithError 400 code message cx
                  | Inr key \<Rightarrow>
                    (case setWithActor X (en_faults e) (requestDatabaseContext cx) (en_cache e) (en_now e) (en_newID e)
                        tenantID counterID v key (principalID cx) (cx_db cx) (cx_cache cx) of
                       (Inl err, db', cache') \<Rightarrow> set_refusal err (cx\<lparr>cx_db := db', cx_cache := cache'\<rparr>)
                     | (Inr result, db', cache') \<Rightarrow>
                         mutation_answer counterID result (cx\<lparr>cx_db := db', cx_cache := cache'\<rparr>)))))))"

definition GetCounterServiceHandler :: handler where
  "GetCounterServiceHandler X e cx =
     (case counter_values X cx of
        Inl (code, message) \<Rightarrow> respondWithError 400 code message cx
      | Inr (tenantID, counterID) \<Rightarrow>
        (case Counter_Get X (en_faults e) (requestDatabaseContext cx) (en_cache e) tenantID counterID (cx_db cx) (cx_cache cx) of
           (Inl err, cache') \<Rightarrow>
             (let cx' = cx\<lparr>cx_cache := cache'\<rparr>
              in if errors_Is err ErrCounterNotFound
                 then respondWithError 404 ''COUNTER_NOT_FOUND'' ''Counter not found'' cx'
                 else respondWithServiceError err 500 ''DATABASE_ERROR'' ''Database error'' cx')
         | (Inr c, cache') \<Rightarrow> respondWithJSON 200 (marshal (json_counter c)) (cx\<lparr>cx_cache := cache'\<rparr>)))"

subsection \<open>Listing\<close>

record page_cursor =
  pc_CreatedAt :: string
  pc_ID :: string

definition encodePageCursor :: "page_cursor \<Rightarrow> string" where
  "encodePageCursor c =
     RawURLEncoding (map byte (json_Marshal (JObject [(''created_at'', JString (pc_CreatedAt c)), (''id'', JString (pc_ID c))])))"

definition decode_cursor_field :: "page_cursor \<Rightarrow> string \<times> json \<Rightarrow> page_cursor option" where
  "decode_cursor_field c m =
     (if names_field ''created_at'' (fst m)
      then map_option (\<lambda>v. c\<lparr>pc_CreatedAt := v\<rparr>) (decode_string (pc_CreatedAt c) (snd m))
      else if names_field ''id'' (fst m)
      then map_option (\<lambda>v. c\<lparr>pc_ID := v\<rparr>) (decode_string (pc_ID c) (snd m))
      else Some c)"

definition decodePageCursor :: "string \<Rightarrow> page_cursor option" where
  "decodePageCursor token =
     Option.bind (RawURLDecode token) (\<lambda>data.
       json_Unmarshal decode_cursor_field \<lparr>pc_CreatedAt = [], pc_ID = []\<rparr> (map char_of data))"

text \<open>The limit of a listing: its default when there is none, \<open>None\<close> outside 1 to 100.\<close>

definition limit_arg :: "nat \<Rightarrow> request_ctx \<Rightarrow> nat option" where
  "limit_arg fallback cx =
     (let limitStr = QueryArgs_Peek ''limit'' cx
      in if limitStr = [] then Some fallback
         else case ParseInt64 limitStr of
                None \<Rightarrow> None
              | Some parsed \<Rightarrow> if parsed < 1 \<or> parsed > 100 then None else Some (nat parsed))"

definition page_cursor_arg :: "string \<Rightarrow> string + counter_cursor option" where
  "page_cursor_arg cursorStr =
     (if cursorStr = [] then Inr None
      else
        (case decodePageCursor cursorStr of
           None \<Rightarrow> Inl ''Invalid cursor format''
         | Some decoded \<Rightarrow>
           (case time_Parse (pc_CreatedAt decoded) of
              None \<Rightarrow> Inl ''Invalid cursor timestamp''
            | Some t \<Rightarrow> Inr (Some \<lparr>cc_CreatedAt = t, cc_ID = pc_ID decoded\<rparr>))))"

definition next_page_cursor :: "counter_cursor \<Rightarrow> string" where
  "next_page_cursor c = encodePageCursor \<lparr>pc_CreatedAt = RFC3339Nano (cc_CreatedAt c), pc_ID = cc_ID c\<rparr>"

definition ListCountersServiceHandler :: handler where
  "ListCountersServiceHandler X e cx =
     (case tenant_value X cx of
        Inl (code, message) \<Rightarrow> respondWithError 400 code message cx
      | Inr tenantID \<Rightarrow>
        (case limit_arg 20 cx of
           None \<Rightarrow> respondWithError 400 ''INVALID_PARAMETER'' ''limit must be between 1 and 100'' cx
         | Some limit \<Rightarrow>
           (case page_cursor_arg (QueryArgs_Peek ''cursor'' cx) of
              Inl message \<Rightarrow> respondWithError 400 ''INVALID_CURSOR'' message cx
            | Inr cursor \<Rightarrow>
              (case Counter_List X (en_faults e) (requestDatabaseContext cx) tenantID cursor limit (cx_db cx) of
                 Inl err \<Rightarrow>
                   if errors_Is err ErrTenantNotFound then respondWithError 404 ''TENANT_NOT_FOUND'' ''Tenant not found'' cx
                   else respondWithServiceError err 500 ''DATABASE_ERROR'' ''Database error'' cx
               | Inr page \<Rightarrow>
                   respondWithJSON 200
                     (marshal (json_counter_page (cp_Counters page) (map_option next_page_cursor (cp_Next page)))) cx))))"

section \<open>History\<close>

abbreviation defaultOperationHistoryLimit :: nat where "defaultOperationHistoryLimit \<equiv> 50"

abbreviation maxOperationHistoryCursor :: nat where "maxOperationHistoryCursor \<equiv> 512"

record history_token =
  ht_CreatedAt :: string
  ht_OperationID :: string

definition decode_history_field :: "history_token \<Rightarrow> string \<times> json \<Rightarrow> history_token option" where
  "decode_history_field c m =
     (if names_field ''created_at'' (fst m)
      then map_option (\<lambda>v. c\<lparr>ht_CreatedAt := v\<rparr>) (decode_string (ht_CreatedAt c) (snd m))
      else if names_field ''operation_id'' (fst m)
      then map_option (\<lambda>v. c\<lparr>ht_OperationID := v\<rparr>) (decode_string (ht_OperationID c) (snd m))
      else Some c)"

definition parseOperationHistoryCursor :: "externals \<Rightarrow> string \<Rightarrow> string + operation_cursor option" where
  "parseOperationHistoryCursor X token =
     (if token = [] then Inr None
      else if length token > maxOperationHistoryCursor then Inl ''cursor is too large''
      else
        (case RawURLDecode token of
           None \<Rightarrow> Inl ''cursor is malformed''
         | Some data \<Rightarrow>
           (case json_Unmarshal decode_history_field \<lparr>ht_CreatedAt = [], ht_OperationID = []\<rparr> (map char_of data) of
              None \<Rightarrow> Inl ''cursor is malformed''
            | Some v \<Rightarrow>
              if ht_CreatedAt v = [] \<or> ht_OperationID v = [] then Inl ''cursor is malformed''
              else
                (case time_Parse (ht_CreatedAt v) of
                   None \<Rightarrow> Inl ''cursor timestamp is malformed''
                 | Some t \<Rightarrow>
                   if uuid_parse X (ht_OperationID v) = None then Inl ''cursor operation ID is malformed''
                   else Inr (Some \<lparr>oc_CreatedAt = t, oc_OperationID = ht_OperationID v\<rparr>)))))"

definition encodeOperationHistoryCursor :: "operation_cursor \<Rightarrow> string" where
  "encodeOperationHistoryCursor c =
     RawURLEncoding (map byte (json_Marshal (JObject [(''created_at'', JString (RFC3339Nano (oc_CreatedAt c))),
       (''operation_id'', JString (oc_OperationID c))])))"

definition validateHistoryUUIDs :: "externals \<Rightarrow> string \<Rightarrow> string \<Rightarrow> string option" where
  "validateHistoryUUIDs X tenantID counterID =
     (if uuid_parse X (TrimSpace tenantID) = None then Some ''Invalid tenant ID format''
      else if uuid_parse X (TrimSpace counterID) = None then Some ''Invalid counter ID format''
      else None)"

definition OperationHistoryServiceHandler :: handler where
  "OperationHistoryServiceHandler X e cx =
     (let tenantID = user_value (cx_tenant_id cx); counterID = user_value (cx_counter_id cx)
      in if tenantID = [] then respondWithError 400 ''INVALID_PARAMETER'' ''tenant_id is required'' cx
         else if counterID = [] then respondWithError 400 ''INVALID_PARAMETER'' ''counter_id is required'' cx
         else
           (case validateHistoryUUIDs X tenantID counterID of
              Some message \<Rightarrow> respondWithError 400 ''INVALID_UUID'' message cx
            | None \<Rightarrow>
              (case limit_arg defaultOperationHistoryLimit cx of
                 None \<Rightarrow> respondWithError 400 ''INVALID_PARAMETER'' ''limit must be between 1 and 100'' cx
               | Some limit \<Rightarrow>
                 (case parseOperationHistoryCursor X (QueryArgs_Peek ''cursor'' cx) of
                    Inl message \<Rightarrow> respondWithError 400 ''INVALID_CURSOR'' message cx
                  | Inr cursor \<Rightarrow>
                    (case History_List X (en_faults e) (requestDatabaseContext cx) tenantID counterID cursor limit (cx_db cx) of
                       Inl err \<Rightarrow>
                         if errors_Is err ErrCounterNotFound
                         then respondWithError 404 ''COUNTER_NOT_FOUND'' ''Counter not found'' cx
                         else respondWithServiceError err 503 ''SERVICE_UNAVAILABLE''
                                ''Counter service is temporarily unavailable'' cx
                     | Inr page \<Rightarrow>
                         respondWithJSON 200 (marshal (json_operation_page (pg_Operations page)
                           (map_option encodeOperationHistoryCursor (pg_Next page)))) cx)))))"

section \<open>Credentials\<close>

definition credential_values :: "externals \<Rightarrow> request_ctx \<Rightarrow> string \<times> string + string \<times> string" where
  "credential_values X cx =
     (let tenantID = user_value (cx_tenant_id cx); credentialID = user_value (cx_credential_id cx)
      in if tenantID = [] then Inl (''INVALID_PARAMETER'', ''tenant_id is required'')
         else if credentialID = [] then Inl (''INVALID_PARAMETER'', ''credential_id is required'')
         else if uuid_parse X tenantID = None then Inl (''INVALID_UUID'', ''Invalid tenant ID format'')
         else if uuid_parse X credentialID = None then Inl (''INVALID_UUID'', ''Invalid credential ID format'')
         else Inr (tenantID, credentialID))"

text \<open>An empty body is the empty request.\<close>

definition credential_body :: "request_ctx \<Rightarrow> credential_request option" where
  "credential_body cx =
     (if req_Body (cx_request cx) = [] then Some \<lparr>cq_Scopes = [], cq_ExpiresAt = None\<rparr>
      else decode_CredentialRequest (req_Body (cx_request cx)))"

definition CreateCredentialServiceHandler :: handler where
  "CreateCredentialServiceHandler X e cx =
     (let tenantID = user_value (cx_tenant_id cx)
      in if tenantID = [] then respondWithError 400 ''INVALID_PARAMETER'' ''tenant_id is required'' cx
         else if uuid_parse X tenantID = None then respondWithError 400 ''INVALID_UUID'' ''Invalid tenant ID format'' cx
         else
           (case credential_body cx of
              None \<Rightarrow> respondWithError 400 ''INVALID_JSON'' ''Invalid JSON'' cx
            | Some r \<Rightarrow>
              (case Credential_Create X (en_faults e) (requestDatabaseContext cx) (issue_env_of e) tenantID
                  (cq_Scopes r) (cq_ExpiresAt r) (principalID cx) (cx_db cx) of
                 (Inl err, db') \<Rightarrow>
                   (let cx' = cx\<lparr>cx_db := db'\<rparr>
                    in if errors_Is err ErrTenantNotFound
                       then respondWithError 404 ''TENANT_NOT_FOUND'' ''Tenant not found'' cx'
                       else respondWithServiceError err 400 ''INVALID_PARAMETER'' (error_text X err) cx')
               | (Inr c, db') \<Rightarrow> respondWithJSON 201 (marshal (json_issue c)) (cx\<lparr>cx_db := db'\<rparr>))))"

definition CreateAdminCredentialServiceHandler :: handler where
  "CreateAdminCredentialServiceHandler X e cx =
     (case credential_body cx of
        None \<Rightarrow> respondWithError 400 ''INVALID_JSON'' ''Invalid JSON'' cx
      | Some r \<Rightarrow>
        (case Credential_CreateAdmin X (en_faults e) (requestDatabaseContext cx) (issue_env_of e)
            (cq_Scopes r) (cq_ExpiresAt r) (principalID cx) (cx_db cx) of
           (Inl err, db') \<Rightarrow> respondWithServiceError err 400 ''INVALID_PARAMETER'' (error_text X err) (cx\<lparr>cx_db := db'\<rparr>)
         | (Inr c, db') \<Rightarrow> respondWithJSON 201 (marshal (json_issue c)) (cx\<lparr>cx_db := db'\<rparr>)))"

definition credential_refusal :: "go_error \<Rightarrow> request_ctx \<Rightarrow> request_ctx" where
  "credential_refusal err cx =
     (if errors_Is err ErrCredentialNotFound
      then respondWithError 404 ''CREDENTIAL_NOT_FOUND'' ''Credential not found'' cx
      else respondWithServiceError err 503 ''SERVICE_UNAVAILABLE'' ''Credential service is temporarily unavailable'' cx)"

definition RotateCredentialServiceHandler :: handler where
  "RotateCredentialServiceHandler X e cx =
     (case credential_values X cx of
        Inl (code, message) \<Rightarrow> respondWithError 400 code message cx
      | Inr (tenantID, credentialID) \<Rightarrow>
        (case Credential_Rotate X (en_faults e) (requestDatabaseContext cx) (issue_env_of e) tenantID credentialID
            (principalID cx) (cx_db cx) of
           (Inl err, db') \<Rightarrow> credential_refusal err (cx\<lparr>cx_db := db'\<rparr>)
         | (Inr c, db') \<Rightarrow> respondWithJSON 201 (marshal (json_issue c)) (cx\<lparr>cx_db := db'\<rparr>)))"

definition RevokeCredentialServiceHandler :: handler where
  "RevokeCredentialServiceHandler X e cx =
     (case credential_values X cx of
        Inl (code, message) \<Rightarrow> respondWithError 400 code message cx
      | Inr (tenantID, credentialID) \<Rightarrow>
        (case Credential_Revoke X (en_faults e) (requestDatabaseContext cx) (issue_env_of e) tenantID credentialID
            (principalID cx) (cx_db cx) of
           (Inl err, db') \<Rightarrow> credential_refusal err (cx\<lparr>cx_db := db'\<rparr>)
         | (Inr _, db') \<Rightarrow> SetStatusCode 204 (cx\<lparr>cx_db := db'\<rparr>)))"

section \<open>Metadata\<close>

definition metadataError :: "externals \<Rightarrow> go_error \<Rightarrow> request_ctx \<Rightarrow> request_ctx" where
  "metadataError X err cx =
     (if errors_Is err ErrCounterNotFound then respondWithError 404 ''COUNTER_NOT_FOUND'' ''Counter not found'' cx
      else if errors_Is err ErrMetadataNotFound then respondWithError 404 ''METADATA_NOT_FOUND'' ''Counter has no metadata'' cx
      else if errors_Is err ErrMetadataPrecondition
      then respondWithError 412 ''PRECONDITION_FAILED''
             ''Metadata changed or no longer exists; fetch its current ETag'' cx
      else if errors_Is err ErrMetadataTooLarge then respondWithError 413 ''METADATA_TOO_LARGE'' (error_text X err) cx
      else if errors_Is err ErrInvalidMetadata
      then respondWithError 400 ''INVALID_METADATA''
             ''Provide valid JSON representable as JSONB, with nesting at most 64 levels'' cx
      else respondWithServiceError err 503 ''SERVICE_UNAVAILABLE'' ''Metadata service is temporarily unavailable'' cx)"

abbreviation quoted :: "string \<Rightarrow> string" where "quoted s \<equiv> CHR 0x22 # s @ [CHR 0x22]"

text \<open>
  The precondition of a write: creation, or the revision that \<open>If-Match\<close> names, or the refusal.
\<close>

datatype precondition = Create_New | Expect string | Refuse int string string

definition metadata_precondition :: "externals \<Rightarrow> bool \<Rightarrow> string \<Rightarrow> string \<Rightarrow> precondition" where
  "metadata_precondition X isPut match none =
     (let tag = butlast (tl match)
      in if match = [] \<and> none = []
         then Refuse 428 ''PRECONDITION_REQUIRED''
                ''Use If-None-Match: * to create or If-Match with the current ETag to modify metadata''
         else if isPut \<and> none = ''*'' \<and> match = [] then Create_New
         else if none \<noteq> [] \<or> length match < 2 \<or> hd match \<noteq> CHR 0x22 \<or> last match \<noteq> CHR 0x22
         then Refuse 400 ''INVALID_PRECONDITION'' ''If-Match must contain one strong metadata ETag''
         else if uuid_parse X tag \<noteq> Some tag then Refuse 400 ''INVALID_PRECONDITION'' ''Invalid metadata ETag''
         else Expect tag)"

definition metadata_delete :: "externals \<Rightarrow> env \<Rightarrow> string \<Rightarrow> string \<Rightarrow> string \<Rightarrow> request_ctx \<Rightarrow> request_ctx" where
  "metadata_delete X e tenantID counterID expected cx =
     (case MetadataService_Delete X (en_faults e) (requestDatabaseContext cx) tenantID counterID expected (cx_db cx) of
        (Inl err, db') \<Rightarrow> metadataError X err (cx\<lparr>cx_db := db'\<rparr>)
      | (Inr _, db') \<Rightarrow> SetStatusCode 204 (cx\<lparr>cx_db := db'\<rparr>))"

definition metadata_put :: "externals \<Rightarrow> env \<Rightarrow> string \<Rightarrow> string \<Rightarrow> string \<Rightarrow> bool \<Rightarrow> request_ctx \<Rightarrow> request_ctx" where
  "metadata_put X e tenantID counterID expected create cx =
     (case MetadataService_Put X (en_faults e) (requestDatabaseContext cx) (en_fresh e) (en_server_now e) tenantID counterID
         (req_Body (cx_request cx)) expected create (cx_db cx) of
        (Inl err, db') \<Rightarrow> metadataError X err (cx\<lparr>cx_db := db'\<rparr>)
      | (Inr r, db') \<Rightarrow>
          respondWithJSON (if create then 201 else 200) (marshal_metadata r)
            (Header_Set ''ETag'' (quoted (md_version r)) (cx\<lparr>cx_db := db'\<rparr>)))"

definition MetadataHandler :: handler where
  "MetadataHandler X e cx0 =
     (let cx = Header_Set ''Cache-Control'' ''no-store'' cx0;
          tenantID = user_value (cx_tenant_id cx); counterID = user_value (cx_counter_id cx);
          meth = req_Method (cx_request cx)
      in if ValidateUUID X tenantID \<noteq> None \<or> ValidateUUID X counterID \<noteq> None
         then respondWithError 400 ''INVALID_UUID'' ''Valid tenant and counter IDs are required'' cx
         else if meth = ''GET'' then
           (case MetadataService_Get X (en_faults e) (requestDatabaseContext cx) tenantID counterID (cx_db cx) of
              Inl err \<Rightarrow> metadataError X err cx
            | Inr r \<Rightarrow> respondWithJSON 200 (marshal_metadata r) (Header_Set ''ETag'' (quoted (md_version r)) cx))
         else
           (case metadata_precondition X (meth = ''PUT'') (TrimSpace (Header_Peek ''If-Match'' cx))
               (TrimSpace (Header_Peek ''If-None-Match'' cx)) of
              Refuse status code message \<Rightarrow> respondWithError status code message cx
            | Create_New \<Rightarrow> metadata_put X e tenantID counterID [] True cx
            | Expect expected \<Rightarrow>
                if meth = ''DELETE'' then metadata_delete X e tenantID counterID expected cx
                else metadata_put X e tenantID counterID expected False cx))"

section \<open>Access\<close>

text \<open>
  \<open>TenantAccess\<close> leaves the canonical tenant ID in the route value, binds the access to the database
  context for the handler it wraps and takes it away again.
\<close>

definition TenantAccess :: "handler \<Rightarrow> handler" where
  "TenantAccess h X e cx =
     (case cx_principal cx of
        None \<Rightarrow> respondWithError 401 ''UNAUTHORIZED'' ''Authentication required'' cx
      | Some p \<Rightarrow>
        (let tenantID = user_value (cx_tenant_id cx)
         in if tenantID \<noteq> [] \<and> ValidateUUID X tenantID \<noteq> None
            then respondWithError 400 ''INVALID_UUID'' ''Invalid tenant ID format'' cx
            else
              (let canonical = (if tenantID = [] then [] else the (uuid_parse X tenantID));
                   cx1 = (if tenantID = [] then cx else cx\<lparr>cx_tenant_id := Some canonical\<rparr>)
               in if \<not> pr_IsAdmin p \<and> (canonical = [] \<or> canonical \<noteq> pr_TenantID p)
                  then respondWithError 403 ''FORBIDDEN'' ''Tenant access denied'' cx1
                  else
                    (let access = \<lparr>acc_TenantID = canonical, acc_PrincipalID = pr_CredentialID p,
                                   acc_Admin = pr_IsAdmin p, acc_AuthenticationID = []\<rparr>
                     in (h X e (cx1\<lparr>cx_transaction := Some (WithAccess (requestDatabaseContext cx1) access)\<rparr>))
                          \<lparr>cx_transaction := None\<rparr>))))"

section \<open>Health\<close>

definition status_ok :: "string option" where
  "status_ok = Some (json_Marshal (JObject [(''status'', JString ''ok'')]))"

definition LivenessHandler :: "health_state option \<Rightarrow> handler" where
  "LivenessHandler state X e cx =
     (if (case state of None \<Rightarrow> True | Some s \<Rightarrow> \<not> Live s)
      then respondWithError 503 ''NOT_LIVE'' ''Service is not live'' cx
      else respondWithJSON 200 status_ok cx)"

text \<open>The answer of the database to the ping is an argument.\<close>

definition ReadinessHandler :: "health_state \<Rightarrow> (go_error + unit) option \<Rightarrow> handler" where
  "ReadinessHandler state ping X e cx =
     (if CheckReady ping state \<noteq> None then respondWithError 503 ''NOT_READY'' ''Service is not ready'' cx
      else respondWithJSON 200 status_ok cx)"

end
