(* ===== verification/Cursors.thy ===== *)
theory Cursors
  imports Handlers
begin

text \<open>
  The cursors of the two listings: what a page hands out as \<open>next_cursor\<close> is read back by the next
  request as the position it was made from, so the walk over the pages of the service is the walk of
  a client that copies the tokens.
\<close>

lemma to_valid_id: "\<forall>c \<in> set s. byte c < 128 \<Longrightarrow> to_valid s = s"
  by (simp add: to_valid_def runes_ascii string_of_runes_ascii comp_def)

lemma RFC3339Nano_chars: "c \<in> set (RFC3339Nano t) \<Longrightarrow> is_digit c \<or> c \<in> {CHR ''-'', CHR ''T'', CHR '':'', CHR ''.'', CHR ''Z''}"
  by (auto simp: RFC3339Nano_def Let_def dest!: padded_digits trim_zeros_digits split: prod.splits if_splits)

lemma RFC3339Nano_safe: "c \<in> set (RFC3339Nano t) \<Longrightarrow> html_safe c"
proof -
  have "is_digit c \<Longrightarrow> html_safe c" by (auto simp: is_digit_def html_safe_def)
  then show "c \<in> set (RFC3339Nano t) \<Longrightarrow> html_safe c"
    using RFC3339Nano_chars [of c t] by (auto simp: html_safe_def)
qed

lemma safe_valid: "\<forall>c \<in> set s. html_safe c \<Longrightarrow> to_valid s = s"
  by (rule to_valid_id) (simp add: html_safe_def)

lemma escape_string_safe: "\<forall>c \<in> set s. html_safe c \<Longrightarrow> escape_string s = s"
  by (induction s) (simp_all add: escape_string.simps html_safe_def)

lemma field_names:
  "names_field ''created_at'' ''created_at''" "\<not> names_field ''created_at'' ''id''" "names_field ''id'' ''id''"
  "\<not> names_field ''created_at'' ''operation_id''" "names_field ''operation_id'' ''operation_id''"
  by code_simp+

lemma token_keys_valid:
  "to_valid ''created_at'' = ''created_at''" "to_valid ''id'' = ''id''" "to_valid ''operation_id'' = ''operation_id''"
  by code_simp+

lemma decode_token:
  assumes "json_ok j" "json_depth j \<le> maxNestingDepth"
  shows "RawURLDecode (RawURLEncoding (map byte (json_Marshal j))) = Some (map byte (json_Marshal j))"
    and "json_Unmarshal field s (map char_of (map byte (json_Marshal j))) = decode_struct field s j"
proof -
  show "RawURLDecode (RawURLEncoding (map byte (json_Marshal j))) = Some (map byte (json_Marshal j))"
    by (rule RawURLDecode_Encoding) simp
  have "map char_of (map byte (json_Marshal j)) = json_Marshal j" by (simp add: comp_def)
  then show "json_Unmarshal field s (map char_of (map byte (json_Marshal j))) = decode_struct field s j"
    using json_parse_Marshal [OF assms] by (simp add: json_Unmarshal_def)
qed

lemma RawURLEncoding_length: "length (RawURLEncoding bs) \<le> 2 * length bs"
  by (induction bs rule: RawURLEncoding.induct) auto

lemma RawURLEncoding_Nil: "RawURLEncoding bs = [] \<longleftrightarrow> bs = []"
  by (cases bs rule: RawURLEncoding.cases) auto

lemma json_Marshal_object: "json_Marshal (JObject ms) \<noteq> []"
  by (cases ms) (auto simp: json_Marshal_def)

lemma length_RFC3339Nano: "length (RFC3339Nano t) \<le> 30"
proof -
  have "length (trim_zeros (padded 9 n)) \<le> 9" for n
    using length_dropWhile_le [of _ "rev (padded 9 n)"] by (simp add: trim_zeros_def)
  then show ?thesis by (auto simp: RFC3339Nano_def Let_def split: prod.splits)
qed

text \<open>
  C28. The cursor of a counter page and the cursor of a history page survive the client: reading the
  token that the handler printed gives back the position it was printed from, for a time of the
  years 0 to 9999 (a response with any other time is not printed at all).
\<close>

theorem page_cursor_roundtrip:
  assumes "0 \<le> time_year (cc_CreatedAt c)" "time_year (cc_CreatedAt c) \<le> 9999" "to_valid (cc_ID c) = cc_ID c"
  shows "page_cursor_arg (next_page_cursor c) = Inr (Some c)"
proof -
  let ?j = "JObject [(''created_at'', JString (RFC3339Nano (cc_CreatedAt c))), (''id'', JString (cc_ID c))]"
  have ok: "json_ok ?j" "json_depth ?j \<le> maxNestingDepth"
    using assms(3) safe_valid [of "RFC3339Nano (cc_CreatedAt c)"] by (simp_all add: RFC3339Nano_safe token_keys_valid json_depth_object)
  have token: "next_page_cursor c = RawURLEncoding (map byte (json_Marshal ?j))"
    by (simp add: next_page_cursor_def encodePageCursor_def)
  have "decodePageCursor (next_page_cursor c) = Some \<lparr>pc_CreatedAt = RFC3339Nano (cc_CreatedAt c), pc_ID = cc_ID c\<rparr>"
    unfolding decodePageCursor_def token decode_token(1) [OF ok] Option.bind.bind_lunit decode_token(2) [OF ok]
    by (simp add: decode_cursor_field_def field_names)
  moreover have "next_page_cursor c \<noteq> []"
    unfolding token RawURLEncoding_Nil using json_Marshal_object by simp
  ultimately show ?thesis
    using parse_time_RFC3339Nano [OF assms(1,2), of False] by (simp add: page_cursor_arg_def)
qed

theorem page_cursor_roundtrip_witness:
  "page_cursor_arg (next_page_cursor \<lparr>cc_CreatedAt = 1500, cc_ID = ''c1''\<rparr>) =
     Inr (Some \<lparr>cc_CreatedAt = 1500, cc_ID = ''c1''\<rparr>)"
proof (rule page_cursor_roundtrip)
  show "0 \<le> time_year (cc_CreatedAt \<lparr>cc_CreatedAt = 1500, cc_ID = ''c1''\<rparr>)"
    "time_year (cc_CreatedAt \<lparr>cc_CreatedAt = 1500, cc_ID = ''c1''\<rparr>) \<le> 9999" by code_simp+
  show "to_valid (cc_ID \<lparr>cc_CreatedAt = 1500, cc_ID = ''c1''\<rparr>) = cc_ID \<lparr>cc_CreatedAt = 1500, cc_ID = ''c1''\<rparr>"
    by code_simp
qed

text \<open>
  C29. The same for the history, whose cursors are also checked for their size and for the form of the
  identifier: a cursor of a page is never refused.
\<close>

theorem history_cursor_roundtrip:
  assumes "0 \<le> time_year (oc_CreatedAt c)" "time_year (oc_CreatedAt c) \<le> 9999"
    and i: "length (oc_OperationID c) = 36" "list_all html_safe (oc_OperationID c)" "uuid_parse X (oc_OperationID c) \<noteq> None"
  shows "parseOperationHistoryCursor X (encodeOperationHistoryCursor c) = Inr (Some c)"
proof -
  let ?t = "RFC3339Nano (oc_CreatedAt c)"
  let ?j = "JObject [(''created_at'', JString ?t), (''operation_id'', JString (oc_OperationID c))]"
  have safe: "\<forall>c' \<in> set (oc_OperationID c). html_safe c'" "\<forall>c' \<in> set ?t. html_safe c'"
    using i(2) RFC3339Nano_safe by (auto simp: list_all_iff)
  have ok: "json_ok ?j" "json_depth ?j \<le> maxNestingDepth"
    using safe_valid [OF safe(1)] safe_valid [OF safe(2)] by (simp_all add: token_keys_valid json_depth_object)
  have token: "encodeOperationHistoryCursor c = RawURLEncoding (map byte (json_Marshal ?j))"
    by (simp add: encodeOperationHistoryCursor_def)
  have keys: "escape_string ''created_at'' = ''created_at''" "escape_string ''operation_id'' = ''operation_id''" by code_simp+
  have "length (json_Marshal ?j) \<le> 256"
    using length_RFC3339Nano [of "oc_CreatedAt c"] i(1)
    by (simp add: json_Marshal_def escape_string_safe [OF safe(1)] escape_string_safe [OF safe(2)] keys)
  then have len: "\<not> length (encodeOperationHistoryCursor c) > 512"
    unfolding token using RawURLEncoding_length [of "map byte (json_Marshal ?j)"] by simp
  have ne: "encodeOperationHistoryCursor c \<noteq> []" unfolding token RawURLEncoding_Nil using json_Marshal_object by simp
  have "?t \<noteq> []" by (auto simp: RFC3339Nano_def Let_def split: prod.splits)
  moreover have "oc_OperationID c \<noteq> []" using i(1) by auto
  ultimately show ?thesis
    using i(3) len ne parse_time_RFC3339Nano [OF assms(1,2), of False]
    unfolding parseOperationHistoryCursor_def token decode_token(1) [OF ok] option.case decode_token(2) [OF ok]
    by (simp add: decode_history_field_def field_names)
qed

abbreviation "sample_cursor \<equiv> \<lparr>oc_CreatedAt = 1500, oc_OperationID = ''123e4567-e89b-12d3-a456-426614174000''\<rparr>"

theorem history_cursor_roundtrip_witness:
  "parseOperationHistoryCursor sample_ext (encodeOperationHistoryCursor sample_cursor) = Inr (Some sample_cursor)"
proof (rule history_cursor_roundtrip)
  show "0 \<le> time_year (oc_CreatedAt sample_cursor)" "time_year (oc_CreatedAt sample_cursor) \<le> 9999"
    "length (oc_OperationID sample_cursor) = 36" "list_all html_safe (oc_OperationID sample_cursor)"
    "uuid_parse sample_ext (oc_OperationID sample_cursor) \<noteq> None" by code_simp+
qed

end
