(* ===== verification/Url.thy ===== *)
theory Url
  imports Text
begin

text \<open>\<open>url.ParseQuery\<close> and \<open>Values.Encode\<close> of the standard library.\<close>

fun hex_nibble :: "char \<Rightarrow> nat option" where
  "hex_nibble c =
     (let n = of_char c in
      if 48 \<le> n \<and> n \<le> 57 then Some (n - 48) else if 97 \<le> n \<and> n \<le> 102 then Some (n - 87)
      else if 65 \<le> n \<and> n \<le> 70 then Some (n - 55) else None)"

fun QueryUnescape :: "string \<Rightarrow> string option" where
  "QueryUnescape [] = Some []"
| "QueryUnescape (c # cs) =
     (if c = CHR ''%'' then
        (case cs of
           a # b # rest \<Rightarrow>
             (case (hex_nibble a, hex_nibble b) of
                (Some x, Some y) \<Rightarrow> map_option ((#) (char_of (x * 16 + y))) (QueryUnescape rest)
              | _ \<Rightarrow> None)
         | _ \<Rightarrow> None)
      else map_option ((#) (if c = CHR ''+'' then CHR '' '' else c)) (QueryUnescape cs))"

definition unreserved :: "char \<Rightarrow> bool" where
  "unreserved c \<longleftrightarrow>
     is_digit c \<or> 97 \<le> (of_char c :: nat) \<and> of_char c \<le> (122 :: nat) \<or>
     65 \<le> (of_char c :: nat) \<and> of_char c \<le> (90 :: nat) \<or> c = CHR ''-'' \<or> c = CHR ''_'' \<or> c = CHR ''.'' \<or> c = CHR ''~''"

definition upper_hex :: "nat \<Rightarrow> char" where
  "upper_hex n = (if n < 10 then char_of (48 + n) else char_of (55 + n))"

definition QueryEscape :: "string \<Rightarrow> string" where
  "QueryEscape s = concat (map (\<lambda>c.
     if unreserved c then [c] else if c = CHR '' '' then ''+''
     else [CHR ''%'', upper_hex (of_char c div 16), upper_hex (of_char c mod 16)]) s)"

text \<open>The values of a key, in the order they came; the keys in the order of their first value.\<close>

type_synonym url_values = "(string \<times> string list) list"

fun add_value :: "string \<Rightarrow> string \<Rightarrow> url_values \<Rightarrow> url_values" where
  "add_value k v [] = [(k, [v])]"
| "add_value k v ((k', vs) # m) = (if k = k' then (k', vs @ [v]) # m else (k', vs) # add_value k v m)"

text \<open>\<open>None\<close> is an error; a pair with a semicolon is one.\<close>

definition parse_pair :: "string \<Rightarrow> (string \<times> string) option" where
  "parse_pair p =
     (if CHR '';'' \<in> set p then None
      else
        (let (k, v) = (case cut (CHR ''='') p of Some kv \<Rightarrow> kv | None \<Rightarrow> (p, []))
         in case (QueryUnescape k, QueryUnescape v) of (Some k', Some v') \<Rightarrow> Some (k', v') | _ \<Rightarrow> None))"

definition ParseQuery :: "string \<Rightarrow> url_values option" where
  "ParseQuery query =
     map_option (\<lambda>kvs. fold (\<lambda>(k, v). add_value k v) kvs [])
       (those (map parse_pair (filter (\<lambda>p. p \<noteq> []) (split_on (CHR ''&'') query))))"

definition Values_Encode :: "url_values \<Rightarrow> string" where
  "Values_Encode m =
     (let pairs = concat (map (\<lambda>(k, vs). map (\<lambda>v. QueryEscape k @ ''='' @ QueryEscape v) vs)
            (sort_key fst m))
      in case pairs of [] \<Rightarrow> [] | p # ps \<Rightarrow> p @ concat (map (\<lambda>q. CHR ''&'' # q) ps))"

end
