(* ===== verification/Idempotency.thy ===== *)
theory Idempotency
  imports Handlers Url
begin

text \<open>
  \<open>internal/handlers/idempotency.go\<close>: the wrapper that records the response of a keyed mutation in
  the mutation's own transaction and plays it back to a retry.
\<close>

section \<open>The digest of a request\<close>

definition upper_rune :: "externals \<Rightarrow> rune \<Rightarrow> rune" where
  "upper_rune X r = (if r < 128 then (if 97 \<le> r \<and> r \<le> 122 then r - 32 else r) else unicode_upper X r)"

definition folded_key :: "externals \<Rightarrow> string \<Rightarrow> rune list" where
  "folded_key X key = map (lower_rune X) (map (upper_rune X) (runes key))"

text \<open>
  \<open>replayJSONValue\<close>: the value the tokens build, and whether some object has two keys of one folded
  form. An object prints with its keys in order.
\<close>

fun order_sensitive :: "externals \<Rightarrow> json \<Rightarrow> bool" where
  "order_sensitive X (JArray vs) = list_ex (order_sensitive X) vs"
| "order_sensitive X (JObject ms) =
     (\<not> distinct (map (\<lambda>m. folded_key X (fst m)) ms) \<or> list_ex (\<lambda>(k, v). order_sensitive X v) ms)"
| "order_sensitive X _ = False"

fun sorted_value :: "json \<Rightarrow> json" where
  "sorted_value (JArray vs) = JArray (map sorted_value vs)"
| "sorted_value (JObject ms) = JObject (sort_key fst (map (\<lambda>(k, v). (k, sorted_value v)) ms))"
| "sorted_value j = j"

definition canonical_body :: "externals \<Rightarrow> string \<Rightarrow> string" where
  "canonical_body X body =
     (case json_parse body of
        None \<Rightarrow> body
      | Some j \<Rightarrow> if order_sensitive X j then json_Compact False False body else json_Marshal (sorted_value j))"

definition canonical_query :: "string \<Rightarrow> string" where
  "canonical_query q = (case ParseQuery q of Some values \<Rightarrow> Values_Encode values | None \<Rightarrow> q)"

abbreviation NUL :: char where "NUL \<equiv> CHR 0x00"

definition idempotencyRequestHash :: "externals \<Rightarrow> request_ctx \<Rightarrow> string" where
  "idempotencyRequestHash X cx =
     sha256 X (canonical_query (req_QueryString (cx_request cx)) @ [NUL] @ canonical_body X (req_Body (cx_request cx)) @
       (if HasSuffix (req_Path (cx_request cx)) ''/metadata''
        then concat (map (\<lambda>name. [NUL] @ name @ [NUL] @ Header_Peek name cx) [''If-Match'', ''If-None-Match''])
        else []))"

section \<open>The statements\<close>

text \<open>The rows that the policy of migration 10 shows: those of the principal, in the tenant's scope.\<close>

definition request_visible :: "externals \<Rightarrow> access \<Rightarrow> idempotency_row \<Rightarrow> bool" where
  "request_visible X a r \<longleftrightarrow> counter_tenant_visible X a (ir_tenant_id r) \<and> ir_principal_id r = acc_PrincipalID a"

definition purge_requests_stmt ::
  "externals \<Rightarrow> access \<Rightarrow> string \<Rightarrow> string \<Rightarrow> time \<Rightarrow> database \<Rightarrow> go_error + database" where
  "purge_requests_stmt X a scope key now db =
     (case pg_uuid X key of
        None \<Rightarrow> Inl (Pq ''22P02'')
      | Some k \<Rightarrow>
        Inr (db\<lparr>idempotency_rows := filter (\<lambda>r. \<not> (ir_scope r = scope \<and> ir_key r = k \<and> ir_expires_at r \<le> now \<and>
          request_visible X a r)) (idempotency_rows db)\<rparr>))"

definition load_request_stmt ::
  "externals \<Rightarrow> access \<Rightarrow> string \<Rightarrow> string \<Rightarrow> database \<Rightarrow> go_error + idempotency_row" where
  "load_request_stmt X a scope key db =
     (case pg_uuid X key of
        None \<Rightarrow> Inl (Pq ''22P02'')
      | Some k \<Rightarrow>
        (case find (\<lambda>r. ir_scope r = scope \<and> ir_key r = k \<and> request_visible X a r) (idempotency_rows db) of
           None \<Rightarrow> Inl (Sentinel ErrNoRows)
         | Some r \<Rightarrow> Inr r))"

abbreviation hours_24 :: duration where "hours_24 \<equiv> 86400000000000"

definition insert_request_stmt ::
  "externals \<Rightarrow> access \<Rightarrow> idempotency_row \<Rightarrow> time \<Rightarrow> database \<Rightarrow> go_error + database" where
  "insert_request_stmt X a r now db =
     (case (pg_uuid X (ir_key r), if acc_TenantID a = [] then Some None else map_option Some (pg_uuid X (acc_TenantID a))) of
        (Some k, Some t) \<Rightarrow>
          (let row = r\<lparr>ir_key := k, ir_tenant_id := t, ir_principal_id := acc_PrincipalID a,
                       ir_expires_at := pg_time X now + hours_24\<rparr>
           in if \<not> request_visible X a row then Inl (Pq ''42501'')
              else if list_ex (\<lambda>q. ir_scope q = ir_scope row \<and> ir_key q = k) (idempotency_rows db) then Inl (Pq ''23505'')
              else Inr (db\<lparr>idempotency_rows := idempotency_rows db @ [row]\<rparr>))
      | _ \<Rightarrow> Inl (Pq ''22P02''))"

section \<open>The wrapper\<close>

text \<open>Beginning, undoing and committing the transaction, as in \<open>BeginWrite\<close>.\<close>

definition begin_error :: "faults \<Rightarrow> go_context \<Rightarrow> go_error option" where
  "begin_error f ctx =
     (if ctx_tx ctx then None
      else case stmt_err f SBegin of
             Some e \<Rightarrow> Some e
           | None \<Rightarrow> map_option (Wrapf ''set transaction access'') (stmt_err f SSetConfig))"

definition finish_false :: "go_context \<Rightarrow> database \<Rightarrow> request_ctx \<Rightarrow> request_ctx" where
  "finish_false ctx db0 cx = (if ctx_tx ctx then cx else cx\<lparr>cx_db := db0\<rparr>)"

definition finish_true :: "faults \<Rightarrow> go_context \<Rightarrow> database \<Rightarrow> database \<Rightarrow> go_error option \<times> database" where
  "finish_true f ctx db0 db =
     (if ctx_tx ctx then (None, db)
      else case commit_out f of
             CommitOK \<Rightarrow> (None, db)
           | CommitRejected e \<Rightarrow> (Some e, db0)
           | CommitLost e \<Rightarrow> (Some e, db))"

abbreviation storage_error :: "go_error \<Rightarrow> request_ctx \<Rightarrow> request_ctx" where
  "storage_error err \<equiv> respondWithServiceError err 503 ''SERVICE_UNAVAILABLE''
     ''Idempotency storage is temporarily unavailable''"

definition saved_headers :: "string list" where
  "saved_headers = [''ETag'', ''Cache-Control'']"

text \<open>The saved response, with its headers and the mark of a replay.\<close>

definition replay_response :: "idempotency_row \<Rightarrow> request_ctx \<Rightarrow> request_ctx" where
  "replay_response r cx =
     RecordEvent_ctx ''idempotency_replay'' (Header_Set ''Idempotency-Replayed'' ''true''
       (fold (\<lambda>name c. case map_of (ir_headers r) name of
                None \<Rightarrow> c | Some v \<Rightarrow> if v = [] then c else Header_Set name v c) saved_headers
          (SetBody (ir_body r) (SetContentType (ir_content_type r) (SetStatusCode (ir_status r) cx)))))"

text \<open>
  The response without the issued secret: the members of the object in the order of their keys, a
  repeated key with its last value.
\<close>

definition strip_api_key :: "string \<Rightarrow> string option" where
  "strip_api_key body =
     (case json_parse body of
        Some JNull \<Rightarrow> Some ''null''
      | Some (JObject ms) \<Rightarrow>
          Some (json_Marshal (JObject (sort_key fst
            (AList.delete ''api_key'' (fold (\<lambda>(k, v). AList.update k v) ms [])))))
      | _ \<Rightarrow> None)"

definition kept_headers :: "request_ctx \<Rightarrow> (string \<times> string) list" where
  "kept_headers cx =
     concat (map (\<lambda>name. let v = Response_Peek name cx in if v = [] then [] else [(name, v)]) saved_headers)"

text \<open>The recording of a successful response and the commit; \<open>db0\<close> are the tables before the transaction.\<close>

definition record_response ::
  "externals \<Rightarrow> env \<Rightarrow> go_context \<Rightarrow> bool \<Rightarrow> string \<Rightarrow> string \<Rightarrow> string \<Rightarrow> database \<Rightarrow> request_ctx \<Rightarrow> request_ctx" where
  "record_response X e ctx credentialResponse scope key requestHash db0 cx =
     (case (if credentialResponse then strip_api_key (rs_Body (cx_response cx)) else Some (rs_Body (cx_response cx))) of
        None \<Rightarrow> finish_false ctx db0
          (respondWithError 500 ''INTERNAL_ERROR'' ''Failed to prepare credential replay'' cx)
      | Some body \<Rightarrow>
        (let row = \<lparr>ir_scope = scope, ir_key = key, ir_hash = requestHash, ir_status = rs_Status (cx_response cx),
                    ir_content_type = rs_ContentType (cx_response cx), ir_body = body, ir_expires_at = 0,
                    ir_tenant_id = None, ir_principal_id = [], ir_headers = kept_headers cx\<rparr>
         in case exec (en_faults e) SInsertRequest
                (insert_request_stmt X (AccessFromContext ctx) row (en_server_now e) (cx_db cx)) of
              Inl err \<Rightarrow> finish_false ctx db0 (storage_error err (Header_Del ''ETag'' cx))
            | Inr db' \<Rightarrow>
              (case finish_true (en_faults e) ctx db0 db' of
                 (None, db'') \<Rightarrow> Header_Set ''Idempotency-Replayed'' ''false'' (cx\<lparr>cx_db := db''\<rparr>)
               | (Some err, db'') \<Rightarrow> storage_error err (Header_Del ''ETag'' (cx\<lparr>cx_db := db''\<rparr>)))))"

text \<open>The wrapped handler inside the transaction; a response outside 200 to 299 undoes everything.\<close>

definition run_recorded ::
  "handler \<Rightarrow> externals \<Rightarrow> env \<Rightarrow> go_context \<Rightarrow> bool \<Rightarrow> string \<Rightarrow> string \<Rightarrow> string \<Rightarrow> database \<Rightarrow> request_ctx \<Rightarrow> request_ctx" where
  "run_recorded h X e ctx credentialResponse scope key requestHash db0 cx =
     (let cx1 = h X e (cx\<lparr>cx_transaction := Some (WithTransaction ctx)\<rparr>);
          status = rs_Status (cx_response cx1)
      in (if status < 200 \<or> status \<ge> 300 then finish_false ctx db0 cx1
          else record_response X e ctx credentialResponse scope key requestHash db0 cx1)
           \<lparr>cx_transaction := None\<rparr>)"

definition request_scope :: "request_ctx \<Rightarrow> string" where
  "request_scope cx = principalID cx @ '':'' @ req_Method (cx_request cx) @ '':'' @ req_Path (cx_request cx)"

definition IdempotentMutation :: "bool \<Rightarrow> handler \<Rightarrow> handler" where
  "IdempotentMutation credentialResponse h X e cx =
     (let key0 = TrimSpace (Header_Peek ''Idempotency-Key'' cx)
      in if key0 = [] then h X e cx
         else
           (case ValidateIdempotencyKey X key0 False of
              Some err \<Rightarrow> respondWithError 400 ''INVALID_IDEMPOTENCY_KEY'' (error_text X err) cx
            | None \<Rightarrow>
              (let key = the (uuid_parse X key0); scope = request_scope cx; requestHash = idempotencyRequestHash X cx;
                   ctx = requestDatabaseContext cx; f = en_faults e; a = AccessFromContext ctx; db0 = cx_db cx
               in case begin_error f ctx of
                    Some err \<Rightarrow> storage_error err cx
                  | None \<Rightarrow>
                    (case exec f SAdvisoryLock (Inr ()) of
                       Inl err \<Rightarrow> storage_error err cx
                     | Inr _ \<Rightarrow>
                       (case exec f SPurgeRequests (purge_requests_stmt X a scope key (en_server_now e) db0) of
                          Inl err \<Rightarrow> storage_error err cx
                        | Inr db1 \<Rightarrow>
                          (case exec f SLoadRequest (load_request_stmt X a scope key db1) of
                             Inr saved \<Rightarrow>
                               finish_false ctx db0
                                 (if ir_hash saved \<noteq> requestHash
                                  then respondWithError 409 ''IDEMPOTENCY_KEY_REUSED''
                                         ''Idempotency key was reused with different request data''
                                         (RecordEvent_ctx ''idempotency_conflict'' (cx\<lparr>cx_db := db1\<rparr>))
                                  else replay_response saved (cx\<lparr>cx_db := db1\<rparr>))
                           | Inl err \<Rightarrow>
                             if \<not> errors_Is err ErrNoRows
                             then finish_false ctx db0 (storage_error err (cx\<lparr>cx_db := db1\<rparr>))
                             else run_recorded h X e ctx credentialResponse scope key requestHash db0 (cx\<lparr>cx_db := db1\<rparr>)))))))"

section \<open>At most once\<close>

text \<open>No mark of the wrapper yet.\<close>

definition unmarked :: "request_ctx \<Rightarrow> bool" where
  "unmarked cx \<longleftrightarrow> Response_Peek ''Idempotency-Replayed'' cx = []"

lemma storage_error_peek: "Response_Peek ''Idempotency-Replayed'' (storage_error err cx) = Response_Peek ''Idempotency-Replayed'' cx"
  by simp

lemma finish_false_simps [simp]:
  "Response_Peek h (finish_false ctx db0 cx) = Response_Peek h cx"
  "cx_response (finish_false ctx db0 cx) = cx_response cx"
  "\<not> ctx_tx ctx \<Longrightarrow> cx_db (finish_false ctx db0 cx) = db0"
  by (simp_all add: finish_false_def)

lemma replay_marked: "Response_Peek ''Idempotency-Replayed'' (replay_response r cx) = ''true''"
  by (simp add: replay_response_def)

text \<open>The row that a response is recorded in.\<close>

definition request_row :: "string \<Rightarrow> string \<Rightarrow> string \<Rightarrow> string \<Rightarrow> request_ctx \<Rightarrow> idempotency_row" where
  "request_row scope key requestHash body cx =
     \<lparr>ir_scope = scope, ir_key = key, ir_hash = requestHash, ir_status = rs_Status (cx_response cx),
      ir_content_type = rs_ContentType (cx_response cx), ir_body = body, ir_expires_at = 0,
      ir_tenant_id = None, ir_principal_id = [], ir_headers = kept_headers cx\<rparr>"

definition recorded_body :: "bool \<Rightarrow> request_ctx \<Rightarrow> string option" where
  "recorded_body cr cx =
     (if cr then strip_api_key (rs_Body (cx_response cx)) else Some (rs_Body (cx_response cx)))"

text \<open>A response marked as recorded was recorded, and its transaction committed.\<close>

lemma record_response_marked:
  assumes mark: "Response_Peek ''Idempotency-Replayed'' (record_response X e ctx cr scope key hsh db0 cx) = ''false''"
    and cx: "unmarked cx" and tx: "\<not> ctx_tx ctx"
  obtains body db' where "recorded_body cr cx = Some body"
    "insert_request_stmt X (AccessFromContext ctx) (request_row scope key hsh body cx) (en_server_now e) (cx_db cx) = Inr db'"
    "record_response X e ctx cr scope key hsh db0 cx = Header_Set ''Idempotency-Replayed'' ''false'' (cx\<lparr>cx_db := db'\<rparr>)"
proof (cases "recorded_body cr cx")
  case None
  then show thesis using mark cx by (simp add: record_response_def recorded_body_def unmarked_def)
next
  case (Some body)
  let ?r = "exec (en_faults e) SInsertRequest
    (insert_request_stmt X (AccessFromContext ctx) (request_row scope key hsh body cx) (en_server_now e) (cx_db cx))"
  have rec: "record_response X e ctx cr scope key hsh db0 cx =
      (case ?r of
         Inl err \<Rightarrow> finish_false ctx db0 (storage_error err (Header_Del ''ETag'' cx))
       | Inr db' \<Rightarrow>
         (case finish_true (en_faults e) ctx db0 db' of
            (None, db'') \<Rightarrow> Header_Set ''Idempotency-Replayed'' ''false'' (cx\<lparr>cx_db := db''\<rparr>)
          | (Some err, db'') \<Rightarrow> storage_error err (Header_Del ''ETag'' (cx\<lparr>cx_db := db''\<rparr>))))"
    using Some by (simp add: record_response_def recorded_body_def request_row_def)
  show thesis
  proof (cases ?r)
    case (Inl err)
    then show thesis using mark cx by (simp add: rec unmarked_def)
  next
    case (Inr db')
    show thesis
    proof (cases "commit_out (en_faults e)")
      case CommitOK
      then have "record_response X e ctx cr scope key hsh db0 cx = Header_Set ''Idempotency-Replayed'' ''false'' (cx\<lparr>cx_db := db'\<rparr>)"
        using rec Inr tx by (simp add: finish_true_def)
      moreover have "insert_request_stmt X (AccessFromContext ctx) (request_row scope key hsh body cx) (en_server_now e) (cx_db cx) = Inr db'"
        using Inr by (simp add: exec_Inr)
      ultimately show thesis using that [OF Some] by simp
    qed (use mark cx tx Inr in \<open>simp_all add: rec unmarked_def finish_true_def\<close>)
  qed
qed

lemma run_recorded_marked:
  assumes "Response_Peek ''Idempotency-Replayed'' (run_recorded h X e ctx cr scope key hsh db0 cx) = ''false''"
    and "cx1 = h X e (cx\<lparr>cx_transaction := Some (WithTransaction ctx)\<rparr>)" and "unmarked cx1"
  shows "Response_Peek ''Idempotency-Replayed'' (record_response X e ctx cr scope key hsh db0 cx1) = ''false''"
    and "run_recorded h X e ctx cr scope key hsh db0 cx = (record_response X e ctx cr scope key hsh db0 cx1)\<lparr>cx_transaction := None\<rparr>"
    and "200 \<le> rs_Status (cx_response cx1)" "rs_Status (cx_response cx1) < 300"
proof -
  have "200 \<le> rs_Status (cx_response cx1) \<and> rs_Status (cx_response cx1) < 300"
  proof (rule ccontr)
    assume "\<not> ?thesis"
    then have "run_recorded h X e ctx cr scope key hsh db0 cx = (finish_false ctx db0 cx1)\<lparr>cx_transaction := None\<rparr>"
      by (auto simp: run_recorded_def Let_def assms(2))
    with assms(1,3) show False by (simp add: unmarked_def)
  qed
  then show st: "200 \<le> rs_Status (cx_response cx1)" "rs_Status (cx_response cx1) < 300" by auto
  then show run: "run_recorded h X e ctx cr scope key hsh db0 cx = (record_response X e ctx cr scope key hsh db0 cx1)\<lparr>cx_transaction := None\<rparr>"
    by (simp add: run_recorded_def Let_def assms(2))
  show "Response_Peek ''Idempotency-Replayed'' (record_response X e ctx cr scope key hsh db0 cx1) = ''false''"
    using assms(1) unfolding run by simp
qed

text \<open>What reaches the wrapped handler: a key, and no saved response for it.\<close>

lemma IdempotentMutation_marked:
  assumes mark: "Response_Peek ''Idempotency-Replayed'' (IdempotentMutation cr h X e cx) = ''false''"
    and quiet: "\<And>c. unmarked c \<Longrightarrow> unmarked (h X e c)" and start: "unmarked cx"
  obtains key db1 where
    "TrimSpace (Header_Peek ''Idempotency-Key'' cx) \<noteq> []"
    "ValidateIdempotencyKey X (TrimSpace (Header_Peek ''Idempotency-Key'' cx)) False = None"
    "key = the (uuid_parse X (TrimSpace (Header_Peek ''Idempotency-Key'' cx)))"
    "IdempotentMutation cr h X e cx = run_recorded h X e (requestDatabaseContext cx) cr (request_scope cx) key
       (idempotencyRequestHash X cx) (cx_db cx) (cx\<lparr>cx_db := db1\<rparr>)"
proof -
  let ?k = "TrimSpace (Header_Peek ''Idempotency-Key'' cx)"
  let ?key = "the (uuid_parse X ?k)" and ?ctx = "requestDatabaseContext cx"
  let ?purge = "exec (en_faults e) SPurgeRequests (purge_requests_stmt X (AccessFromContext ?ctx) (request_scope cx) ?key (en_server_now e) (cx_db cx))"
  let ?load = "\<lambda>d. exec (en_faults e) SLoadRequest (load_request_stmt X (AccessFromContext ?ctx) (request_scope cx) ?key d)"
  note I = IdempotentMutation_def [of cr h X e cx, unfolded Let_def]
  have k: "?k \<noteq> []"
  proof
    assume "?k = []"
    then have "IdempotentMutation cr h X e cx = h X e cx" by (simp add: I)
    with mark quiet [OF start] show False by (simp add: unmarked_def)
  qed
  have v: "ValidateIdempotencyKey X ?k False = None"
  proof (cases "ValidateIdempotencyKey X ?k False")
    case (Some err)
    then show ?thesis using mark k start by (simp add: I unmarked_def)
  qed
  have b: "begin_error (en_faults e) ?ctx = None"
  proof (cases "begin_error (en_faults e) ?ctx")
    case (Some err)
    then show ?thesis using mark k v start by (simp add: I unmarked_def)
  qed
  have l: "exec (en_faults e) SAdvisoryLock (Inr ()) = Inr ()"
  proof (cases "exec (en_faults e) SAdvisoryLock (Inr ())")
    case (Inl err)
    then show ?thesis using mark k v b start by (simp add: I unmarked_def)
  qed simp
  obtain db1 where p: "?purge = Inr db1"
  proof (cases ?purge)
    case (Inl err)
    then show ?thesis using mark k v b l start by (simp add: I unmarked_def)
  qed
  show thesis
  proof (cases "?load db1")
    case (Inr saved)
    then show thesis using mark k v b l p start by (simp add: I unmarked_def replay_marked split: if_splits)
  next
    case (Inl err)
    then have "errors_Is err ErrNoRows" using mark k v b l p start by (simp add: I unmarked_def split: if_splits)
    then show thesis using that [OF k v refl, of db1] k v b l p Inl by (simp add: I)
  qed
qed

text \<open>The saved response is found by the key until it expires.\<close>

definition entries :: "string \<Rightarrow> string \<Rightarrow> database \<Rightarrow> idempotency_row list" where
  "entries scope k db = filter (\<lambda>r. ir_scope r = scope \<and> ir_key r = k) (idempotency_rows db)"

definition stored_request :: "externals \<Rightarrow> access \<Rightarrow> idempotency_row \<Rightarrow> string \<Rightarrow> string option \<Rightarrow> time \<Rightarrow> idempotency_row" where
  "stored_request X a r k t now = r\<lparr>ir_key := k, ir_tenant_id := t, ir_principal_id := acc_PrincipalID a,
     ir_expires_at := pg_time X now + hours_24\<rparr>"

lemma insert_request_stmt_Inr:
  assumes "insert_request_stmt X a r now db = Inr db'" "pg_uuid X (ir_key r) = Some k"
  obtains t where "db' = db\<lparr>idempotency_rows := idempotency_rows db @ [stored_request X a r k t now]\<rparr>"
    "request_visible X a (stored_request X a r k t now)" "entries (ir_scope r) k db = []"
proof -
  let ?t = "if acc_TenantID a = [] then Some None else map_option Some (pg_uuid X (acc_TenantID a))"
  from assms obtain t where t: "?t = Some t"
    by (cases ?t) (simp_all add: insert_request_stmt_def)
  let ?row = "stored_request X a r k t now"
  have ins: "insert_request_stmt X a r now db =
      (if \<not> request_visible X a ?row then Inl (Pq ''42501'')
       else if list_ex (\<lambda>q. ir_scope q = ir_scope r \<and> ir_key q = k) (idempotency_rows db) then Inl (Pq ''23505'')
       else Inr (db\<lparr>idempotency_rows := idempotency_rows db @ [?row]\<rparr>))"
    unfolding insert_request_stmt_def assms(2) t by (simp add: stored_request_def)
  from assms(1) have vis: "request_visible X a ?row" and new: "\<not> list_ex (\<lambda>q. ir_scope q = ir_scope r \<and> ir_key q = k) (idempotency_rows db)"
    and db': "db' = db\<lparr>idempotency_rows := idempotency_rows db @ [?row]\<rparr>"
    unfolding ins by (auto split: if_splits)
  from new have "entries (ir_scope r) k db = []" by (auto simp: entries_def list_ex_iff filter_empty_conv)
  from that [OF db' vis this] show thesis .
qed

lemma insert_request_stmt_key: "insert_request_stmt X a r now db = Inr db' \<Longrightarrow> \<exists>k. pg_uuid X (ir_key r) = Some k"
  by (auto simp: insert_request_stmt_def split: option.splits)

lemma find_entry:
  assumes "filter P xs = [x]" "Q x"
  shows "find (\<lambda>r. P r \<and> Q r) xs = Some x"
proof -
  have "x \<in> set (filter P xs)" using assms(1) by simp
  then have "x \<in> set xs" "P x" by auto
  moreover have "y = x" if "y \<in> set xs" "P y" for y
  proof -
    have "y \<in> set (filter P xs)" using that by simp
    with assms(1) show ?thesis by simp
  qed
  ultimately show ?thesis using assms(2) find_unique [of x xs "\<lambda>r. P r \<and> Q r"] by blast
qed

lemma saved_request_found:
  assumes en: "entries scope k db = [row]" and vis: "request_visible X a row" and fresh: "now < ir_expires_at row"
    and k: "pg_uuid X key = Some k"
  shows "\<exists>db1. purge_requests_stmt X a scope key now db = Inr db1 \<and> load_request_stmt X a scope key db1 = Inr row"
proof -
  let ?P = "\<lambda>r. ir_scope r = scope \<and> ir_key r = k"
  let ?rows = "filter (\<lambda>r. \<not> (?P r \<and> ir_expires_at r \<le> now \<and> request_visible X a r)) (idempotency_rows db)"
  have "filter ?P ?rows = filter (\<lambda>r. \<not> (ir_expires_at r \<le> now \<and> request_visible X a r)) (entries scope k db)"
    unfolding entries_def filter_filter by (rule filter_cong) auto
  also have "\<dots> = [row]" using en fresh by simp
  finally have "find (\<lambda>r. ?P r \<and> request_visible X a r) ?rows = Some row" using vis by (rule find_entry)
  then show ?thesis using k by (simp add: purge_requests_stmt_def load_request_stmt_def)
qed

lemma lookup_step:
  assumes key: "TrimSpace (Header_Peek ''Idempotency-Key'' cx) \<noteq> []"
      "ValidateIdempotencyKey X (TrimSpace (Header_Peek ''Idempotency-Key'' cx)) False = None"
      "pg_uuid X (the (uuid_parse X (TrimSpace (Header_Peek ''Idempotency-Key'' cx)))) = Some k"
    and row: "entries (request_scope cx) k (cx_db cx) = [row]"
      "request_visible X (AccessFromContext (requestDatabaseContext cx)) row" "en_server_now e < ir_expires_at row"
    and clean: "en_faults e = no_faults" "\<not> ctx_tx (requestDatabaseContext cx)"
  shows "\<exists>db1. IdempotentMutation cr h X e cx =
    (if ir_hash row \<noteq> idempotencyRequestHash X cx
     then respondWithError 409 ''IDEMPOTENCY_KEY_REUSED'' ''Idempotency key was reused with different request data''
       (RecordEvent_ctx ''idempotency_conflict'' (cx\<lparr>cx_db := db1\<rparr>))
     else replay_response row (cx\<lparr>cx_db := db1\<rparr>))\<lparr>cx_db := cx_db cx\<rparr>"
proof -
  from saved_request_found [OF row key(3)] obtain db1 where
    "purge_requests_stmt X (AccessFromContext (requestDatabaseContext cx)) (request_scope cx)
       (the (uuid_parse X (TrimSpace (Header_Peek ''Idempotency-Key'' cx)))) (en_server_now e) (cx_db cx) = Inr db1"
    "load_request_stmt X (AccessFromContext (requestDatabaseContext cx)) (request_scope cx)
       (the (uuid_parse X (TrimSpace (Header_Peek ''Idempotency-Key'' cx)))) db1 = Inr row" by blast
  then show ?thesis
    unfolding IdempotentMutation_def Let_def using key clean
    by (intro exI [of _ db1]) (simp add: begin_error_def no_faults_def exec_def finish_false_def)
qed

lemma replay_response_parts:
  "rs_Status (cx_response (replay_response r cx)) = ir_status r"
  "rs_ContentType (cx_response (replay_response r cx)) = ir_content_type r"
  "rs_Body (cx_response (replay_response r cx)) = ir_body r"
  by (simp_all add: replay_response_def saved_headers_def split: option.splits)

lemma replay_response_header:
  assumes "ir_headers r = kept_headers cx1" "name \<in> set saved_headers" "Response_Peek name cx = []"
  shows "Response_Peek name (replay_response r cx) = Response_Peek name cx1"
  using assms by (auto simp: replay_response_def saved_headers_def kept_headers_def Let_def split: option.splits if_splits)

text \<open>
  What the retry of an acknowledged request finds: the row of the first attempt.
\<close>

lemma acknowledged_row:
  assumes mark: "Response_Peek ''Idempotency-Replayed'' (IdempotentMutation cr h X e cx) = ''false''"
    and quiet: "\<And>c. unmarked c \<Longrightarrow> unmarked (h X e c)" and start: "unmarked cx"
    and tx: "\<not> ctx_tx (requestDatabaseContext cx)"
    and cx1: "cx1 = IdempotentMutation cr h X e cx"
  obtains k row where
    "TrimSpace (Header_Peek ''Idempotency-Key'' cx) \<noteq> []"
    "ValidateIdempotencyKey X (TrimSpace (Header_Peek ''Idempotency-Key'' cx)) False = None"
    "pg_uuid X (the (uuid_parse X (TrimSpace (Header_Peek ''Idempotency-Key'' cx)))) = Some k"
    "entries (request_scope cx) k (cx_db cx1) = [row]"
    "request_visible X (AccessFromContext (requestDatabaseContext cx)) row"
    "ir_expires_at row = pg_time X (en_server_now e) + hours_24" "ir_hash row = idempotencyRequestHash X cx"
    "ir_status row = rs_Status (cx_response cx1)" "ir_content_type row = rs_ContentType (cx_response cx1)"
    "recorded_body cr cx1 = Some (ir_body row)" "ir_headers row = kept_headers cx1"
    "200 \<le> rs_Status (cx_response cx1)" "rs_Status (cx_response cx1) < 300"
proof -
  let ?ctx = "requestDatabaseContext cx" and ?scope = "request_scope cx" and ?hash = "idempotencyRequestHash X cx"
  from IdempotentMutation_marked [OF mark quiet start] obtain key db1 where
    k: "TrimSpace (Header_Peek ''Idempotency-Key'' cx) \<noteq> []"
      "ValidateIdempotencyKey X (TrimSpace (Header_Peek ''Idempotency-Key'' cx)) False = None"
      "key = the (uuid_parse X (TrimSpace (Header_Peek ''Idempotency-Key'' cx)))"
    and run: "IdempotentMutation cr h X e cx = run_recorded h X e ?ctx cr ?scope key ?hash (cx_db cx) (cx\<lparr>cx_db := db1\<rparr>)" .
  define hx where hx: "hx = h X e (cx\<lparr>cx_db := db1\<rparr>\<lparr>cx_transaction := Some (WithTransaction ?ctx)\<rparr>)"
  have un: "unmarked hx" unfolding hx using start by (intro quiet) (simp add: unmarked_def)
  note rec = run_recorded_marked [OF mark [unfolded run] hx un]
  from record_response_marked [OF rec(1) un tx] obtain body db' where
    body: "recorded_body cr hx = Some body"
    and ins: "insert_request_stmt X (AccessFromContext ?ctx) (request_row ?scope key ?hash body hx) (en_server_now e) (cx_db hx) = Inr db'"
    and res: "record_response X e ?ctx cr ?scope key ?hash (cx_db cx) hx = Header_Set ''Idempotency-Replayed'' ''false'' (hx\<lparr>cx_db := db'\<rparr>)" .
  have cx1': "cx1 = (Header_Set ''Idempotency-Replayed'' ''false'' (hx\<lparr>cx_db := db'\<rparr>))\<lparr>cx_transaction := None\<rparr>"
    using cx1 run rec(2) res by simp
  obtain kk where kk: "pg_uuid X key = Some kk" using insert_request_stmt_key [OF ins] by (auto simp: request_row_def)
  then have "pg_uuid X (ir_key (request_row ?scope key ?hash body hx)) = Some kk" by (simp add: request_row_def)
  from insert_request_stmt_Inr [OF ins this] obtain t where
    db': "db' = (cx_db hx)\<lparr>idempotency_rows := idempotency_rows (cx_db hx) @
        [stored_request X (AccessFromContext ?ctx) (request_row ?scope key ?hash body hx) kk t (en_server_now e)]\<rparr>"
    and vis: "request_visible X (AccessFromContext ?ctx) (stored_request X (AccessFromContext ?ctx) (request_row ?scope key ?hash body hx) kk t (en_server_now e))"
    and new: "entries ?scope kk (cx_db hx) = []" by (auto simp: request_row_def)
  let ?row = "stored_request X (AccessFromContext ?ctx) (request_row ?scope key ?hash body hx) kk t (en_server_now e)"
  have resp: "rs_Status (cx_response cx1) = rs_Status (cx_response hx)" "rs_ContentType (cx_response cx1) = rs_ContentType (cx_response hx)"
    "rs_Body (cx_response cx1) = rs_Body (cx_response hx)" "kept_headers cx1 = kept_headers hx" "cx_db cx1 = db'"
    by (simp_all add: cx1' kept_headers_def saved_headers_def)
  have en: "entries ?scope kk (cx_db cx1) = [?row]"
    using new by (simp add: resp db' entries_def stored_request_def request_row_def)
  show thesis
    by (rule that [OF k(1,2) kk [unfolded k(3)] en vis])
      (use rec(3,4) body in \<open>simp_all add: stored_request_def request_row_def resp recorded_body_def split: if_splits\<close>)
qed

text \<open>
  C5. A keyed mutation takes effect at most once and its answer can be fetched again. When a request
  with an idempotency key has been answered as new, a retry of it by the same principal within 24
  hours is answered with the same status, content type, body (without the secret, when one was
  issued), entity tag and cache policy, marked as a replay; the wrapped handler does not run again,
  whatever it would do, and the tables do not change.
\<close>

theorem keyed_retry_replays:
  assumes mark: "Response_Peek ''Idempotency-Replayed'' (IdempotentMutation cr h X e cx) = ''false''"
    and quiet: "\<And>c. unmarked c \<Longrightarrow> unmarked (h X e c)" and start: "unmarked cx"
    and tx: "\<not> ctx_tx (requestDatabaseContext cx)"
    and same: "cx_request cx2 = cx_request cx" "cx_principal cx2 = cx_principal cx"
      "AccessFromContext (requestDatabaseContext cx2) = AccessFromContext (requestDatabaseContext cx)"
      "\<not> ctx_tx (requestDatabaseContext cx2)"
    and later: "idempotency_rows (cx_db cx2) = idempotency_rows (cx_db (IdempotentMutation cr h X e cx))"
      "en_server_now e2 < pg_time X (en_server_now e) + hours_24" "en_faults e2 = no_faults"
    and plain: "Response_Peek ''ETag'' cx2 = []" "Response_Peek ''Cache-Control'' cx2 = []"
    and cx1: "cx1 = IdempotentMutation cr h X e cx" and retry: "cx3 = IdempotentMutation cr h2 X e2 cx2"
  shows "cx_db cx3 = cx_db cx2 \<and> Response_Peek ''Idempotency-Replayed'' cx3 = ''true'' \<and>
    rs_Status (cx_response cx3) = rs_Status (cx_response cx1) \<and>
    rs_ContentType (cx_response cx3) = rs_ContentType (cx_response cx1) \<and>
    recorded_body cr cx1 = Some (rs_Body (cx_response cx3)) \<and>
    Response_Peek ''ETag'' cx3 = Response_Peek ''ETag'' cx1 \<and>
    Response_Peek ''Cache-Control'' cx3 = Response_Peek ''Cache-Control'' cx1"
proof -
  from acknowledged_row [OF mark quiet start tx cx1] obtain k row where
    k: "TrimSpace (Header_Peek ''Idempotency-Key'' cx) \<noteq> []"
      "ValidateIdempotencyKey X (TrimSpace (Header_Peek ''Idempotency-Key'' cx)) False = None"
      "pg_uuid X (the (uuid_parse X (TrimSpace (Header_Peek ''Idempotency-Key'' cx)))) = Some k"
    and row: "entries (request_scope cx) k (cx_db cx1) = [row]"
      "request_visible X (AccessFromContext (requestDatabaseContext cx)) row"
      "ir_expires_at row = pg_time X (en_server_now e) + hours_24" "ir_hash row = idempotencyRequestHash X cx"
      "ir_status row = rs_Status (cx_response cx1)" "ir_content_type row = rs_ContentType (cx_response cx1)"
      "recorded_body cr cx1 = Some (ir_body row)" "ir_headers row = kept_headers cx1" .
  have eq: "Header_Peek n cx2 = Header_Peek n cx" "request_scope cx2 = request_scope cx"
    "idempotencyRequestHash X cx2 = idempotencyRequestHash X cx" for n
    using same(1,2) by (simp_all add: Header_Peek_def request_scope_def principalID_def idempotencyRequestHash_def)
  have en: "entries (request_scope cx2) k (cx_db cx2) = [row]" using row(1) later(1) eq cx1 by (simp add: entries_def)
  have vis: "request_visible X (AccessFromContext (requestDatabaseContext cx2)) row" using row(2) same(3) by simp
  have "en_server_now e2 < ir_expires_at row" using later(2) row(3) by simp
  from lookup_step [OF k(1,2,3) [folded eq(1)] en vis this later(3) same(4), of cr h2] obtain db1 where
    "cx3 = (replay_response row (cx2\<lparr>cx_db := db1\<rparr>))\<lparr>cx_db := cx_db cx2\<rparr>"
    using row(4) retry eq(3) by auto
  then show ?thesis
    using row replay_response_parts [of row "cx2\<lparr>cx_db := db1\<rparr>"] plain
      replay_response_header [OF row(8), of "''ETag''" "cx2\<lparr>cx_db := db1\<rparr>"]
      replay_response_header [OF row(8), of "''Cache-Control''" "cx2\<lparr>cx_db := db1\<rparr>"]
    by (simp add: replay_marked saved_headers_def)
qed

text \<open>Without a lost commit, a keyed request that is not answered with success leaves no trace.\<close>

lemma run_recorded_undone:
  assumes "rs_Status (cx_response (run_recorded h X e ctx cr scope key hsh db0 cx)) < 200 \<or>
      300 \<le> rs_Status (cx_response (run_recorded h X e ctx cr scope key hsh db0 cx))"
    and tx: "\<not> ctx_tx ctx" and lost: "\<And>err. commit_out (en_faults e) \<noteq> CommitLost err"
  shows "cx_db (run_recorded h X e ctx cr scope key hsh db0 cx) = db0"
proof -
  define cx1 where cx1: "cx1 = h X e (cx\<lparr>cx_transaction := Some (WithTransaction ctx)\<rparr>)"
  show ?thesis
  proof (cases "rs_Status (cx_response cx1) < 200 \<or> 300 \<le> rs_Status (cx_response cx1)")
    case True
    then show ?thesis using tx by (auto simp: run_recorded_def Let_def cx1 [symmetric])
  next
    case False
    then have run: "run_recorded h X e ctx cr scope key hsh db0 cx =
        (record_response X e ctx cr scope key hsh db0 cx1)\<lparr>cx_transaction := None\<rparr>"
      by (auto simp: run_recorded_def Let_def cx1 [symmetric])
    have "cx_db (record_response X e ctx cr scope key hsh db0 cx1) = db0 \<or>
        rs_Status (cx_response (record_response X e ctx cr scope key hsh db0 cx1)) = rs_Status (cx_response cx1)"
      using tx lost
      by (auto simp: record_response_def Let_def finish_true_def split: option.split sum.split commit_outcome.split)
    then show ?thesis using False assms(1) unfolding run by auto
  qed
qed

text \<open>
  C6. Atomicity of a keyed mutation: a request that carries a key and is not answered with a status
  of success has changed nothing, neither the tables of the mutation nor the record of the key,
  unless the answer of the commit was lost on the way.
\<close>

theorem keyed_failure_undone:
  assumes key: "TrimSpace (Header_Peek ''Idempotency-Key'' cx) \<noteq> []"
    and tx: "\<not> ctx_tx (requestDatabaseContext cx)"
    and lost: "\<And>err. commit_out (en_faults e) \<noteq> CommitLost err"
    and failed: "rs_Status (cx_response (IdempotentMutation cr h X e cx)) < 200 \<or>
      300 \<le> rs_Status (cx_response (IdempotentMutation cr h X e cx))"
  shows "cx_db (IdempotentMutation cr h X e cx) = cx_db cx"
proof -
  let ?run = "\<lambda>d. run_recorded h X e (requestDatabaseContext cx) cr (request_scope cx)
    (the (uuid_parse X (TrimSpace (Header_Peek ''Idempotency-Key'' cx)))) (idempotencyRequestHash X cx) (cx_db cx) (cx\<lparr>cx_db := d\<rparr>)"
  have "cx_db (IdempotentMutation cr h X e cx) = cx_db cx \<or> (\<exists>d. IdempotentMutation cr h X e cx = ?run d)"
    using key tx
    by (auto simp: IdempotentMutation_def Let_def split: option.split sum.split)
  then show ?thesis
  proof
    assume "\<exists>d. IdempotentMutation cr h X e cx = ?run d"
    then obtain d where run: "IdempotentMutation cr h X e cx = ?run d" ..
    show ?thesis unfolding run by (rule run_recorded_undone [OF failed [unfolded run] tx lost])
  qed
qed

section \<open>An example\<close>

definition sample_request :: request where
  "sample_request = \<lparr>req_Method = ''DELETE'', req_Path = ''/t1/c1/metadata'', req_RequestURI = ''/t1/c1/metadata'',
     req_QueryString = [], req_Args = [],
     req_Headers = [(''idempotency-key'', ''k1''), (''if-match'', [CHR 0x22, CHR ''v'', CHR ''1'', CHR 0x22])],
     req_Body = []\<rparr>"

definition sample_principal :: principal where
  "sample_principal = \<lparr>pr_CredentialID = ''p1'', pr_TenantID = ''t1'', pr_Scopes = [''metadata:write''],
     pr_IsAdmin = False, pr_Legacy = False\<rparr>"

definition sample_cx :: request_ctx where
  "sample_cx = \<lparr>cx_request = sample_request, cx_tenant_id = Some ''t1'', cx_counter_id = Some ''c1'', cx_credential_id = None,
     cx_principal = Some sample_principal, cx_database = context_Background, cx_transaction = Some sample_writer,
     cx_request_id = ''r1'', cx_remote_ip = None, cx_client_ip = None, cx_response = new_response,
     cx_db = sample_document_db, cx_cache = NoCache, cx_limiter = NewRateLimiter 60 5 60, cx_metrics = None, cx_log = [],
     cx_deadline = None, cx_database_deadline = None, cx_captured = []\<rparr>"

definition sample_env :: env where
  "sample_env = \<lparr>en_faults = no_faults, en_now = 1000, en_newID = ''t1'', en_auditID = ''a1'', en_rand = Inr [7, 8],
     en_cache = \<lparr>ce_now = 1000, ce_redis = redis_at 1\<rparr>, en_fresh = ''v2'', en_server_now = 1000, en_requestID = ''q1'',
     en_shared_limit = None, en_elapsed = 5, en_inflight = 0\<rparr>"

lemma metadataError_unmarked: "unmarked c \<Longrightarrow> unmarked (metadataError X err c)"
  by (simp add: unmarked_def metadataError_def)

lemma MetadataHandler_unmarked: "unmarked c \<Longrightarrow> unmarked (MetadataHandler X e c)"
proof -
  have put: "unmarked (metadata_put X e t i v cr c)" if "unmarked c" for t i v cr and c :: request_ctx
    using that metadataError_unmarked
    by (auto simp: metadata_put_def unmarked_def split: prod.split sum.split)
  have del: "unmarked (metadata_delete X e t i v c)" if "unmarked c" for t i v and c :: request_ctx
    using that metadataError_unmarked
    by (auto simp: metadata_delete_def unmarked_def split: prod.split sum.split)
  assume "unmarked c"
  then have c: "unmarked (Header_Set ''Cache-Control'' ''no-store'' c)" by (simp add: unmarked_def)
  show ?thesis
    unfolding MetadataHandler_def Let_def using put [OF c] del [OF c] metadataError_unmarked [OF c] c
    by (auto simp: unmarked_def split: precondition.split sum.split)
qed

abbreviation "sample_etag \<equiv> [CHR 0x22, CHR ''v'', CHR ''1'', CHR 0x22]"

lemma sample_headers:
  "TrimSpace (Header_Peek ''Idempotency-Key'' sample_cx) = ''k1''"
  "TrimSpace (Header_Peek ''If-Match'' sample_cx) = sample_etag" "TrimSpace (Header_Peek ''If-None-Match'' sample_cx) = []"
proof -
  have "Header_Peek ''Idempotency-Key'' sample_cx = ''k1''" "Header_Peek ''If-Match'' sample_cx = sample_etag"
    "Header_Peek ''If-None-Match'' sample_cx = []"
    by code_simp+
  moreover have "TrimSpace ''k1'' = ''k1''" "TrimSpace sample_etag = sample_etag" "TrimSpace [] = []"
    by (rule TrimSpace_id, simp add: graphic_def)+
  ultimately show "TrimSpace (Header_Peek ''Idempotency-Key'' sample_cx) = ''k1''"
  "TrimSpace (Header_Peek ''If-Match'' sample_cx) = sample_etag" "TrimSpace (Header_Peek ''If-None-Match'' sample_cx) = []" by simp_all
qed

lemma sample_key: "ValidateIdempotencyKey sample_ext ''k1'' False = None" "uuid_parse sample_ext ''k1'' = Some ''k1''"
  "pg_uuid sample_ext ''k1'' = Some ''k1''"
proof -
  show k: "uuid_parse sample_ext ''k1'' = Some ''k1''" "pg_uuid sample_ext ''k1'' = Some ''k1''" by code_simp+
  have "TrimSpace ''k1'' = ''k1''" by (rule TrimSpace_id) (simp add: graphic_def)
  with k show "ValidateIdempotencyKey sample_ext ''k1'' False = None" by (simp add: ValidateIdempotencyKey_def)
qed

abbreviation "sample_after \<equiv> sample_document_db\<lparr>metadata_rows := []\<rparr>"

lemma sample_delete:
  "MetadataService_Delete sample_ext no_faults (WithTransaction sample_writer) ''t1'' ''c1'' ''v1'' sample_document_db = (Inr (), sample_after)"
  by code_simp

abbreviation "sample_tx \<equiv> sample_cx\<lparr>cx_transaction := Some (WithTransaction sample_writer)\<rparr>"

lemma Header_Peek_transaction [simp]: "Header_Peek n (cx\<lparr>cx_transaction := t\<rparr>) = Header_Peek n cx" "Header_Peek n (Header_Set m v cx) = Header_Peek n cx"
  by (simp_all add: Header_Peek_def)

lemma sample_handler:
  "MetadataHandler sample_ext sample_env sample_tx =
     SetStatusCode 204 (Header_Set ''Cache-Control'' ''no-store'' sample_tx\<lparr>cx_db := sample_after\<rparr>)"
proof -
  have "ValidateUUID sample_ext ''t1'' = None" "ValidateUUID sample_ext ''c1'' = None" by code_simp+
  moreover have "metadata_precondition sample_ext False sample_etag [] = Expect ''v1''" by code_simp
  moreover have "user_value (cx_tenant_id sample_cx) = ''t1''" "user_value (cx_counter_id sample_cx) = ''c1''" "cx_db sample_cx = sample_document_db"
     "req_Method (cx_request sample_cx) = ''DELETE''" "en_faults sample_env = no_faults" by (simp_all add: sample_cx_def sample_request_def sample_env_def)
  ultimately show ?thesis
    by (simp add: MetadataHandler_def Let_def sample_headers metadata_delete_def sample_delete requestDatabaseContext_def)
qed

lemma sample_keyed:
  "IdempotentMutation cr h sample_ext sample_env sample_cx =
     run_recorded h sample_ext sample_env sample_writer cr ''p1:DELETE:/t1/c1/metadata'' ''k1''
       (idempotencyRequestHash sample_ext sample_cx) sample_document_db sample_cx"
proof -
  have f: "en_faults sample_env = no_faults" and ctx: "requestDatabaseContext sample_cx = sample_writer"
    and db: "cx_db sample_cx = sample_document_db" and tx: "\<not> ctx_tx sample_writer"
    and scope: "request_scope sample_cx = ''p1:DELETE:/t1/c1/metadata''"
    by (simp_all add: sample_env_def requestDatabaseContext_def sample_cx_def sample_writer_def WithAccess_def context_Background_def
       request_scope_def sample_request_def principalID_def sample_principal_def)
  have same: "sample_cx\<lparr>cx_db := sample_document_db\<rparr> = sample_cx" by (simp add: sample_cx_def)
  have "purge_requests_stmt sample_ext (AccessFromContext sample_writer) ''p1:DELETE:/t1/c1/metadata'' ''k1'' (en_server_now sample_env) sample_document_db = Inr sample_document_db"
    "load_request_stmt sample_ext (AccessFromContext sample_writer) ''p1:DELETE:/t1/c1/metadata'' ''k1'' sample_document_db = Inl (Sentinel ErrNoRows)"
    by code_simp+
  then show ?thesis
    by (simp add: IdempotentMutation_def Let_def sample_headers sample_key f ctx db scope begin_error_def tx no_faults_def exec_def same)
qed

lemma sample_recorded:
  assumes "ir_key r = ''k1''"
  shows "\<exists>d. insert_request_stmt sample_ext (AccessFromContext sample_writer) r (en_server_now sample_env) sample_after = Inr d"
proof -
  have "acc_TenantID (AccessFromContext sample_writer) = ''t1''" "pg_uuid sample_ext ''t1'' = Some ''t1''"
    "idempotency_rows sample_after = []" by code_simp+
  then show ?thesis
    using assms by (simp add: insert_request_stmt_def sample_key Let_def request_visible_def counter_tenant_visible_def)
qed

lemma sample_acknowledged:
  "Response_Peek ''Idempotency-Replayed'' (IdempotentMutation False MetadataHandler sample_ext sample_env sample_cx) = ''false''"
proof -
  have f: "en_faults sample_env = no_faults" and tx: "\<not> ctx_tx sample_writer"
    by (simp_all add: sample_env_def sample_writer_def WithAccess_def context_Background_def)
  let ?cx = "SetStatusCode 204 (Header_Set ''Cache-Control'' ''no-store'' sample_tx\<lparr>cx_db := sample_after\<rparr>)"
  let ?row = "request_row ''p1:DELETE:/t1/c1/metadata'' ''k1'' (idempotencyRequestHash sample_ext sample_cx) (rs_Body (cx_response ?cx)) ?cx"
  obtain d where d: "insert_request_stmt sample_ext (AccessFromContext sample_writer) ?row (en_server_now sample_env) sample_after = Inr d"
    using sample_recorded [of ?row] by (auto simp: request_row_def)
  show ?thesis
    unfolding sample_keyed run_recorded_def Let_def sample_handler
    using d f tx by (simp add: record_response_def request_row_def finish_true_def no_faults_def exec_def)
qed

theorem keyed_retry_replays_witness:
  "let cx1 = IdempotentMutation False MetadataHandler sample_ext sample_env sample_cx;
       cx3 = IdempotentMutation False MetadataHandler sample_ext (sample_env\<lparr>en_server_now := 2000\<rparr>) (sample_cx\<lparr>cx_db := cx_db cx1\<rparr>)
   in cx_db cx3 = cx_db cx1 \<and> rs_Status (cx_response cx3) = rs_Status (cx_response cx1)"
proof -
  let ?cx1 = "IdempotentMutation False MetadataHandler sample_ext sample_env sample_cx"
  let ?cx2 = "sample_cx\<lparr>cx_db := cx_db ?cx1\<rparr>"
  have ctx: "requestDatabaseContext ?cx2 = requestDatabaseContext sample_cx" "\<not> ctx_tx (requestDatabaseContext sample_cx)"
    by (simp_all add: requestDatabaseContext_def sample_cx_def sample_writer_def WithAccess_def context_Background_def)
  have start: "unmarked sample_cx" "Response_Peek ''ETag'' ?cx2 = []" "Response_Peek ''Cache-Control'' ?cx2 = []"
    by (simp_all add: unmarked_def sample_cx_def Response_Peek_def new_response_def)
  have now: "en_server_now (sample_env\<lparr>en_server_now := 2000\<rparr>) < pg_time sample_ext (en_server_now sample_env) + hours_24"
    "en_faults (sample_env\<lparr>en_server_now := 2000\<rparr>) = no_faults"
    by (simp_all add: sample_env_def sample_ext_def)
  from keyed_retry_replays [where ?cx2.0 = ?cx2 and ?e2.0 = "sample_env\<lparr>en_server_now := 2000\<rparr>" and ?h2.0 = MetadataHandler,
      OF sample_acknowledged MetadataHandler_unmarked start(1) ctx(2) _ _ _ _ _ now start(2,3) refl refl]
  show ?thesis using ctx by (simp add: Let_def)
qed

theorem keyed_failure_undone_witness:
  "cx_db (IdempotentMutation False RevokeCredentialServiceHandler sample_ext sample_env sample_cx) = sample_document_db"
proof -
  let ?cx = "IdempotentMutation False RevokeCredentialServiceHandler sample_ext sample_env sample_cx"
  have "RevokeCredentialServiceHandler sample_ext sample_env sample_tx =
      respondWithError 400 ''INVALID_PARAMETER'' ''credential_id is required'' sample_tx"
    by (simp add: RevokeCredentialServiceHandler_def credential_values_def sample_cx_def)
  then have "rs_Status (cx_response ?cx) = 400"
    unfolding sample_keyed by (simp add: run_recorded_def Let_def)
  moreover have "\<not> ctx_tx (requestDatabaseContext sample_cx)" "commit_out (en_faults sample_env) \<noteq> CommitLost err" for err
    by (simp_all add: requestDatabaseContext_def sample_cx_def sample_writer_def WithAccess_def context_Background_def
        sample_env_def no_faults_def)
  ultimately have "cx_db ?cx = cx_db sample_cx"
    using keyed_failure_undone [of sample_cx sample_env False RevokeCredentialServiceHandler sample_ext] by (simp add: sample_headers)
  then show ?thesis by (simp add: sample_cx_def)
qed

end
