(* ===== verification/Net_IP.thy ===== *)
theory Net_IP
  imports Text
begin

text \<open>
  \<open>net.ParseIP\<close>, \<open>IP.String\<close> and \<open>IP.IsLoopback\<close> of the standard library. An address is the list of
  its 4 or 16 bytes; \<open>ParseIP\<close> always returns 16.
\<close>

section \<open>Reading\<close>

definition ip_hex :: "char \<Rightarrow> nat option" where
  "ip_hex c =
     (let n = of_char c in
      if 48 \<le> n \<and> n \<le> 57 then Some (n - 48) else if 97 \<le> n \<and> n \<le> 102 then Some (n - 87)
      else if 65 \<le> n \<and> n \<le> 70 then Some (n - 55) else None)"

text \<open>One of the four fields: digits, at most 255, no leading zero.\<close>

definition ipv4_field :: "string \<Rightarrow> nat option" where
  "ipv4_field s =
     (if length s > 1 \<and> hd s = CHR ''0'' then None
      else case parse_nat s of Some n \<Rightarrow> if n \<le> 255 then Some n else None | None \<Rightarrow> None)"

definition parseIPv4 :: "string \<Rightarrow> nat list option" where
  "parseIPv4 s =
     (let fields = split_on (CHR ''.'') s
      in if length fields = 4 then those (map ipv4_field fields) else None)"

definition In6 :: "nat list \<Rightarrow> nat list" where
  "In6 v4 = replicate 10 0 @ [255, 255] @ v4"

text \<open>The value of the hexadecimal digits at the front, their number, and the rest.\<close>

fun hex_group :: "nat \<Rightarrow> nat \<Rightarrow> string \<Rightarrow> nat \<times> nat \<times> string" where
  "hex_group acc off [] = (acc, off, [])"
| "hex_group acc off (c # cs) =
     (case ip_hex c of None \<Rightarrow> (acc, off, c # cs) | Some d \<Rightarrow> hex_group (acc * 16 + d) (Suc off) cs)"

lemma hex_group_shorter: "hex_group acc off s = (v, n, r) \<Longrightarrow> length r \<le> length s"
  by (induction acc off s rule: hex_group.induct) (force split: option.splits)+

text \<open>
  The loop over the groups: the bytes so far, where the ellipsis stood, and the text left. The result
  is the bytes and the place of the ellipsis.
\<close>

function ipv6_groups :: "nat list \<Rightarrow> nat option \<Rightarrow> string \<Rightarrow> (nat list \<times> nat option) option" where
  "ipv6_groups ip ellipsis s =
     (if length ip \<ge> 16 then (if s = [] then Some (ip, ellipsis) else None)
      else
        (let (acc, off, rest) = hex_group 0 0 s
         in if off = 0 \<or> off > 4 then None
            else if rest \<noteq> [] \<and> hd rest = CHR ''.'' then
              (if ellipsis = None \<and> length ip \<noteq> 12 \<or> length ip + 4 > 16 then None
               else map_option (\<lambda>v4. (ip @ v4, ellipsis)) (parseIPv4 s))
            else
              (let ip' = ip @ [acc div 256, acc mod 256]
               in case rest of
                    [] \<Rightarrow> Some (ip', ellipsis)
                  | [c] \<Rightarrow> None
                  | c # d # remains \<Rightarrow>
                    if c \<noteq> CHR '':'' then None
                    else if d = CHR '':'' then
                      (if ellipsis \<noteq> None then None
                       else if remains = [] then Some (ip', Some (length ip'))
                       else ipv6_groups ip' (Some (length ip')) remains)
                    else ipv6_groups ip' ellipsis (d # remains))))"
  by pat_completeness auto
termination
  by (relation "measure (\<lambda>(ip, _, _). 16 - length ip)") auto

declare ipv6_groups.simps [simp del]

definition parseIPv6 :: "string \<Rightarrow> nat list option" where
  "parseIPv6 s =
     (if CHR ''%'' \<in> set s then None
      else
        (case (if HasPrefix s ''::'' then (if length s = 2 then Some ([], Some 0) else ipv6_groups [] (Some 0) (drop 2 s))
               else ipv6_groups [] None s) of
           None \<Rightarrow> None
         | Some (ip, ellipsis) \<Rightarrow>
           if length ip < 16 then
             (case ellipsis of
                None \<Rightarrow> None
              | Some j \<Rightarrow> Some (take j ip @ replicate (16 - length ip) 0 @ drop j ip))
           else if ellipsis \<noteq> None then None else Some ip))"

text \<open>The first dot, colon or percent sign decides; an address with a zone is refused.\<close>

definition ParseIP :: "string \<Rightarrow> nat list option" where
  "ParseIP s =
     (case find (\<lambda>c. c = CHR ''.'' \<or> c = CHR '':'' \<or> c = CHR ''%'') s of
        Some c \<Rightarrow>
          if c = CHR ''.'' then map_option In6 (parseIPv4 s)
          else if c = CHR '':'' then parseIPv6 s else None
      | None \<Rightarrow> None)"

section \<open>Printing\<close>

definition To4 :: "nat list \<Rightarrow> nat list option" where
  "To4 ip =
     (if length ip = 4 then Some ip
      else if length ip = 16 \<and> take 12 ip = In6 [] then Some (drop 12 ip) else None)"

definition IsLoopback :: "nat list \<Rightarrow> bool" where
  "IsLoopback ip =
     (case To4 ip of Some ip4 \<Rightarrow> hd ip4 = 127 | None \<Rightarrow> ip = replicate 15 0 @ [1])"

fun hex_text :: "nat \<Rightarrow> string" where
  "hex_text n = (if n < 16 then [hex_digit n] else hex_text (n div 16) @ [hex_digit (n mod 16)])"

declare hex_text.simps [simp del]

fun groups16 :: "nat list \<Rightarrow> nat list" where
  "groups16 (a # b # rest) = (a * 256 + b) # groups16 rest"
| "groups16 _ = []"

text \<open>The longest run of two or remains zero groups, the first of them: its start and its end.\<close>

definition zero_run :: "nat list \<Rightarrow> nat \<Rightarrow> nat" where
  "zero_run gs i = length (takeWhile (\<lambda>g. g = 0) (drop i gs))"

definition longest_zeros :: "nat list \<Rightarrow> (nat \<times> nat) option" where
  "longest_zeros gs =
     foldl (\<lambda>best i. let n = zero_run gs i
              in if n \<ge> 2 \<and> (case best of None \<Rightarrow> True | Some (s, t) \<Rightarrow> n > t - s) then Some (i, i + n) else best)
       None [0..<length gs]"

definition join :: "string \<Rightarrow> string list \<Rightarrow> string" where
  "join sep ws = (case ws of [] \<Rightarrow> [] | w # ws' \<Rightarrow> w @ concat (map (\<lambda>v. sep @ v) ws'))"

definition ipv6_text :: "nat list \<Rightarrow> string" where
  "ipv6_text gs =
     (case longest_zeros gs of
        None \<Rightarrow> join '':'' (map hex_text gs)
      | Some (s, t) \<Rightarrow> join '':'' (map hex_text (take s gs)) @ ''::'' @ join '':'' (map hex_text (drop t gs)))"

definition IP_String :: "nat list \<Rightarrow> string" where
  "IP_String ip =
     (if ip = [] then ''<nil>''
      else case To4 ip of
             Some ip4 \<Rightarrow> join ''.'' (map digits ip4)
           | None \<Rightarrow>
             if length ip = 16 then ipv6_text (groups16 ip)
             else CHR ''?'' # hex_EncodeToString (map char_of ip))"

end
