(* ===== verification/Strings.thy ===== *)
theory Strings
  imports Net_IP Runes
begin

text \<open>Functions of the package \<open>strings\<close> and \<open>html.EscapeString\<close> of the standard library.\<close>

section \<open>Searching\<close>

text \<open>\<open>strings.Index\<close>: \<open>None\<close> is -1.\<close>

fun Index :: "string \<Rightarrow> string \<Rightarrow> nat option" where
  "Index [] p = (if p = [] then Some 0 else None)"
| "Index (c # cs) p = (if HasPrefix (c # cs) p then Some 0 else map_option Suc (Index cs p))"

definition Contains :: "string \<Rightarrow> string \<Rightarrow> bool" where
  "Contains s p \<longleftrightarrow> Index s p \<noteq> None"

lemma Index_Some:
  "Index s p = Some i \<Longrightarrow> s = take i s @ p @ drop (i + length p) s"
proof (induction s arbitrary: i)
  case Nil
  then show ?case by (auto split: if_splits)
next
  case (Cons c cs)
  show ?case
  proof (cases "HasPrefix (c # cs) p")
    case True
    with Cons.prems have "i = 0" by auto
    moreover from True obtain t where "c # cs = p @ t" unfolding HasPrefix_iff by blast
    ultimately show ?thesis by simp
  next
    case False
    with Cons.prems obtain j where "Index cs p = Some j" "i = Suc j" by auto
    with Cons.IH show ?thesis by simp
  qed
qed

lemma Contains_iff: "Contains s p \<longleftrightarrow> (\<exists>a b. s = a @ p @ b)"
proof
  assume "Contains s p"
  then obtain i where "Index s p = Some i" by (auto simp: Contains_def)
  from Index_Some [OF this] show "\<exists>a b. s = a @ p @ b" by blast
next
  assume "\<exists>a b. s = a @ p @ b"
  then obtain a b where "s = a @ p @ b" by blast
  then show "Contains s p" unfolding Contains_def
  proof (induction a arbitrary: s)
    case Nil
    have "HasPrefix s p" unfolding Nil HasPrefix_iff by auto
    then show ?case by (cases s) (auto simp: HasPrefix_iff)
  qed auto
qed

section \<open>Replacing\<close>

text \<open>\<open>strings.ReplaceAll\<close> for a text to replace that is not empty.\<close>

fun ReplaceAll :: "string \<Rightarrow> string \<Rightarrow> string \<Rightarrow> string" where
  "ReplaceAll [] old new = []"
| "ReplaceAll (c # cs) old new =
     (if old \<noteq> [] \<and> HasPrefix (c # cs) old then new @ ReplaceAll (drop (length old - 1) cs) old new
      else c # ReplaceAll cs old new)"

text \<open>
  A text that shares no character with the replacement occurs in the result only where it occurred before,
  and not at all if it is what was replaced.
\<close>

lemma ReplaceAll_prefix:
  assumes "set w \<inter> set new = {}" "new \<noteq> []" "HasPrefix (ReplaceAll s old new) w"
  shows "HasPrefix s w"
  using assms
proof (induction s old new arbitrary: w rule: ReplaceAll.induct)
  case (2 c cs old new)
  show ?case
  proof (cases w)
    case (Cons x w')
    have "\<not> (old \<noteq> [] \<and> HasPrefix (c # cs) old)"
    proof
      assume "old \<noteq> [] \<and> HasPrefix (c # cs) old"
      with "2.prems" Cons show False by (cases new) auto
    qed
    with "2.prems" Cons "2.IH"(2) [of w'] show ?thesis by auto
  qed simp
qed (cases w; simp)

lemma Contains_Cons: "Contains (c # cs) p \<longleftrightarrow> HasPrefix (c # cs) p \<or> Contains cs p"
  by (auto simp: Contains_def)

lemma Contains_disjoint:
  "set w \<inter> set new = {} \<Longrightarrow> w \<noteq> [] \<Longrightarrow> Contains (new @ s) w \<longleftrightarrow> Contains s w"
  by (induction new; cases w) (auto simp: Contains_Cons)

lemma ReplaceAll_Contains:
  assumes "set w \<inter> set new = {}" "new \<noteq> []" "w \<noteq> []" "Contains (ReplaceAll s old new) w"
  shows "Contains s w"
  using assms
proof (induction s old new rule: ReplaceAll.induct)
  case (2 c cs old new)
  show ?case
  proof (cases "old \<noteq> [] \<and> HasPrefix (c # cs) old")
    case True
    with 2 have "Contains (drop (length old - 1) cs) w" by (simp add: Contains_disjoint)
    then show ?thesis
      unfolding Contains_iff by (metis append.assoc append_Cons append_take_drop_id)
  next
    case False
    with "2.prems" have "HasPrefix (ReplaceAll (c # cs) old new) w \<or> Contains (ReplaceAll cs old new) w"
      by (auto simp: Contains_Cons)
    then show ?thesis
    proof
      assume "HasPrefix (ReplaceAll (c # cs) old new) w"
      from ReplaceAll_prefix [OF "2.prems"(1,2) this] show ?thesis by (simp add: Contains_Cons)
    qed (use 2 False in \<open>simp add: Contains_Cons\<close>)
  qed
qed simp

lemma ReplaceAll_removes:
  assumes "set old \<inter> set new = {}" "new \<noteq> []" "old \<noteq> []"
  shows "\<not> Contains (ReplaceAll s old new) old"
  using assms
proof (induction s old new rule: ReplaceAll.induct)
  case (1 old new)
  then show ?case by (simp add: Contains_def)
next
  case (2 c cs old new)
  show ?case
  proof (cases "HasPrefix (c # cs) old")
    case True
    with 2 show ?thesis by (simp add: Contains_disjoint)
  next
    case False
    with ReplaceAll_prefix [OF "2.prems"(1,2), of "c # cs" old] have "\<not> HasPrefix (c # ReplaceAll cs old new) old" by auto
    with 2 False show ?thesis by (simp add: Contains_Cons)
  qed
qed

text \<open>\<open>strings.TrimLeft\<close> and \<open>strings.Trim\<close> for a set of ASCII characters.\<close>

definition TrimLeft :: "string \<Rightarrow> string \<Rightarrow> string" where
  "TrimLeft s cutset = dropWhile (\<lambda>c. c \<in> set cutset) s"

definition Trim :: "string \<Rightarrow> string \<Rightarrow> string" where
  "Trim s cutset = rev (TrimLeft (rev (TrimLeft s cutset)) cutset)"

section \<open>Escaping\<close>

definition EscapeString :: "string \<Rightarrow> string" where
  "EscapeString s = concat (map (\<lambda>c.
     if c = CHR ''&'' then ''&amp;'' else if c = CHR 0x27 then ''&#39;'' else if c = CHR ''<'' then ''&lt;''
     else if c = CHR ''>'' then ''&gt;'' else if c = CHR 0x22 then ''&#34;'' else [c]) s)"

lemma EscapeString_append [simp]: "EscapeString (s @ t) = EscapeString s @ EscapeString t"
  by (simp add: EscapeString_def)

lemma EscapeString_Nil [simp]: "EscapeString [] = []"
  by (simp add: EscapeString_def)

lemma EscapeString_Nil_iff [simp]: "EscapeString s = [] \<longleftrightarrow> s = []"
  by (cases s) (auto simp: EscapeString_def)

lemma EscapeString_plain: "set (EscapeString s) \<inter> {CHR ''<'', CHR ''>'', CHR 0x22, CHR 0x27} = {}"
  by (induction s) (auto simp: EscapeString_def)

end
