(* ===== verification/Middleware.thy ===== *)
theory Middleware
  imports Idempotency Strings
begin

text \<open>
  \<open>internal/middleware\<close>: the wrappers around the router, outermost last: rate limit, authentication,
  CORS, concurrency limit, request context, client identity, metrics, logging, recovery. A wrapper
  takes the handler it calls.
\<close>

section \<open>Request identifiers\<close>

definition setRequestID :: "string \<Rightarrow> request_ctx \<Rightarrow> request_ctx" where
  "setRequestID requestID cx = Header_Set ''X-Request-ID'' requestID (cx\<lparr>cx_request_id := requestID\<rparr>)"

definition requestIDFromHeader :: "request_ctx \<Rightarrow> string" where
  "requestIDFromHeader cx =
     (let requestID = TrimSpace (Header_Peek ''X-Request-ID'' cx)
      in if length requestID > 128 \<or> CHR 0x0D \<in> set requestID \<or> CHR 0x0A \<in> set requestID then [] else requestID)"

text \<open>A fresh identifier, when the request brings none that is usable.\<close>

definition ensureRequestID :: "env \<Rightarrow> request_ctx \<Rightarrow> string \<times> request_ctx" where
  "ensureRequestID e cx =
     (if cx_request_id cx \<noteq> [] then (cx_request_id cx, cx)
      else
        (let h = requestIDFromHeader cx; requestID = (if h = [] then en_requestID e else h)
         in (requestID, setRequestID requestID cx)))"

section \<open>Client identity\<close>

definition IsTrustedProxy :: "nat list option \<Rightarrow> bool" where
  "IsTrustedProxy ip = (case ip of None \<Rightarrow> False | Some a \<Rightarrow> IsLoopback a)"

definition CanonicalClientIP :: "request_ctx \<Rightarrow> string" where
  "CanonicalClientIP cx =
     (let direct = (case cx_remote_ip cx of None \<Rightarrow> ''unknown'' | Some ip \<Rightarrow> IP_String ip)
      in if IsTrustedProxy (cx_remote_ip cx) then
           (case ParseIP (TrimSpace (Header_Peek ''X-Real-IP'' cx)) of
              Some ip \<Rightarrow> IP_String ip
            | None \<Rightarrow>
              (let forwarded = Header_Peek ''X-Forwarded-For'' cx
               in if forwarded = [] then direct
                  else
                    (case List.map_filter (\<lambda>candidate. ParseIP (TrimSpace candidate)) (split_on (CHR '','') forwarded) of
                       ip # _ \<Rightarrow> IP_String ip
                     | [] \<Rightarrow> direct)))
         else direct)"

definition ClientIPFromRequest :: "request_ctx \<Rightarrow> string" where
  "ClientIPFromRequest cx =
     (let ip = user_value (cx_client_ip cx) in if ip \<noteq> [] then ip else CanonicalClientIP cx)"

definition ClientIdentity :: "handler \<Rightarrow> handler" where
  "ClientIdentity h X e cx = h X e (cx\<lparr>cx_client_ip := Some (CanonicalClientIP cx)\<rparr>)"

section \<open>Deadlines\<close>

record route_timeouts =
  to_Read :: duration
  to_Mutation :: duration
  to_Database :: duration

definition DefaultRouteTimeouts :: route_timeouts where
  "DefaultRouteTimeouts = \<lparr>to_Read = 5 * time_Second, to_Mutation = 10 * time_Second, to_Database = 2 * time_Second\<rparr>"

definition effective_timeouts :: "route_timeouts \<Rightarrow> route_timeouts" where
  "effective_timeouts t =
     \<lparr>to_Read = (if to_Read t \<le> 0 then to_Read DefaultRouteTimeouts else to_Read t),
      to_Mutation = (if to_Mutation t \<le> 0 then to_Mutation DefaultRouteTimeouts else to_Mutation t),
      to_Database = (if to_Database t \<le> 0 then to_Database DefaultRouteTimeouts else to_Database t)\<rparr>"

definition request_timeout :: "route_timeouts \<Rightarrow> string \<Rightarrow> duration" where
  "request_timeout t meth =
     (if meth = ''GET'' \<or> meth = ''HEAD'' \<or> meth = ''OPTIONS'' then to_Read (effective_timeouts t)
      else to_Mutation (effective_timeouts t))"

text \<open>
  The deadline of the database context from the deadline of the request: the budget, counted from
  \<open>now\<close>, unless the request ends first.
\<close>

definition DatabaseContext :: "time \<Rightarrow> time \<Rightarrow> duration \<Rightarrow> time" where
  "DatabaseContext now deadline budget =
     (if budget \<le> 0 then deadline else if time_Sub deadline now \<le> budget then deadline else now + budget)"

lemma DatabaseContext_within: "in_int64 (deadline - now) \<Longrightarrow> DatabaseContext now deadline budget \<le> deadline"
  by (auto simp: DatabaseContext_def time_Sub_exact)

definition RequestContext :: "route_timeouts \<Rightarrow> handler \<Rightarrow> handler" where
  "RequestContext t h X e cx =
     (let deadline = en_now e + request_timeout t (req_Method (cx_request cx));
          databaseDeadline = DatabaseContext (en_now e) deadline (to_Database (effective_timeouts t))
      in h X e (cx\<lparr>cx_database := WithRequestID context_Background (cx_request_id cx),
                   cx_deadline := Some deadline, cx_database_deadline := Some databaseDeadline\<rparr>))"

section \<open>Overload\<close>

definition ConcurrencyLimitWithMetrics :: "int \<Rightarrow> handler \<Rightarrow> handler" where
  "ConcurrencyLimitWithMetrics maxConcurrent h X e cx =
     (if maxConcurrent \<le> 0 \<or> int (en_inflight e) < maxConcurrent then h X e cx
      else
        SetBody (json_Marshal (NewErrorResponse ''SERVICE_OVERLOADED'' ''Service is temporarily overloaded''))
          (SetStatusCode 503 (SetContentType ''application/json''
            (Header_Set ''X-Overload-Limit'' (itoa maxConcurrent) (Header_Set ''Retry-After'' ''1''
              (RecordEvent_ctx ''overload_rejected'' cx))))))"

section \<open>CORS\<close>

record cors_config =
  co_AllowedOrigins :: string
  co_AllowedMethods :: string
  co_AllowedHeaders :: string
  co_AllowCredentials :: bool
  co_MaxAge :: int

definition isOriginAllowed :: "string \<Rightarrow> string \<Rightarrow> bool" where
  "isOriginAllowed origin allowedOrigins \<longleftrightarrow>
     allowedOrigins = ''*'' \<or> list_ex (\<lambda>allowed. TrimSpace allowed = origin) (split_on (CHR '','') allowedOrigins)"

definition cors_headers :: "cors_config \<Rightarrow> request_ctx \<Rightarrow> request_ctx" where
  "cors_headers config cx =
     (let origin = Header_Peek ''Origin'' cx;
          cx1 = (if origin \<noteq> [] \<and> isOriginAllowed origin (co_AllowedOrigins config)
                 then Header_Set ''Access-Control-Allow-Origin'' origin cx else cx);
          cx2 = Header_Set ''Access-Control-Expose-Headers'' ''Idempotency-Replayed,ETag''
                  (Header_Set ''Access-Control-Allow-Headers'' (co_AllowedHeaders config)
                    (Header_Set ''Access-Control-Allow-Methods'' (co_AllowedMethods config) cx1));
          cx3 = (if co_AllowCredentials config then Header_Set ''Access-Control-Allow-Credentials'' ''true'' cx2 else cx2)
      in if co_MaxAge config > 0 then Header_Set ''Access-Control-Max-Age'' (itoa (co_MaxAge config)) cx3 else cx3)"

definition CORS :: "cors_config \<Rightarrow> handler \<Rightarrow> handler" where
  "CORS config h X e cx =
     (let cx' = cors_headers config cx
      in if req_Method (cx_request cx) = ''OPTIONS'' then SetStatusCode 200 cx' else h X e cx')"

section \<open>Authentication and authorization\<close>

definition respondUnauthorized :: "request_ctx \<Rightarrow> request_ctx" where
  "respondUnauthorized cx =
     SetBody (json_Marshal (NewErrorResponse ''UNAUTHORIZED'' ''Invalid or missing API key''))
       (SetContentType ''application/json'' (SetStatusCode 401 cx))"

definition respondForbidden :: "request_ctx \<Rightarrow> request_ctx" where
  "respondForbidden cx =
     SetBody (json_Marshal (NewErrorResponse ''FORBIDDEN'' ''Insufficient permission''))
       (SetContentType ''application/json'' (SetStatusCode 403 cx))"

text \<open>The legacy key is empty when it is switched off.\<close>

definition AuthenticateRequest :: "string \<Rightarrow> handler \<Rightarrow> handler" where
  "AuthenticateRequest legacyKey h X e cx =
     (let apiKey = Header_Peek ''X-API-Key'' cx
      in if apiKey = [] then h X e cx
         else
           (case authenticate_request X (en_faults e) (cx_database cx) legacyKey (en_now e) apiKey (cx_db cx) of
              Inl err \<Rightarrow>
                if errors_Is err ErrCredentialUnavailable then
                  SetBody (json_Marshal (NewErrorResponse ''SERVICE_UNAVAILABLE''
                      ''Authentication service is temporarily unavailable''))
                    (SetContentType ''application/json'' (SetStatusCode 503 cx))
                else respondUnauthorized cx
            | Inr p \<Rightarrow> h X e (cx\<lparr>cx_principal := Some p\<rparr>)))"

text \<open>A handler of the routing library also sees the parameters of the route.\<close>

type_synonym routing_handler = "(string \<Rightarrow> string) \<Rightarrow> handler"

definition RequireScopesRouting :: "string list \<Rightarrow> routing_handler \<Rightarrow> routing_handler" where
  "RequireScopesRouting scopes h param X e cx =
     (case cx_principal cx of
        None \<Rightarrow> respondUnauthorized cx
      | Some p \<Rightarrow>
        if \<not> PrincipalAuthorized p (param ''tenant_id'') scopes then respondForbidden cx else h param X e cx)"

definition RequireAdminRouting :: "routing_handler \<Rightarrow> routing_handler" where
  "RequireAdminRouting h param X e cx =
     (case cx_principal cx of
        None \<Rightarrow> respondUnauthorized cx
      | Some p \<Rightarrow> if \<not> pr_IsAdmin p then respondForbidden cx else h param X e cx)"

text \<open>The compatibility wrappers that compare with one key.\<close>

definition APIKeyAuth :: "string \<Rightarrow> handler \<Rightarrow> handler" where
  "APIKeyAuth expectedKey h X e cx =
     (if secureKeyEqual X (Header_Peek ''X-API-Key'' cx) expectedKey then h X e cx else respondUnauthorized cx)"

definition APIKeyAuthRouting :: "string \<Rightarrow> routing_handler \<Rightarrow> routing_handler" where
  "APIKeyAuthRouting expectedKey h param X e cx =
     (if secureKeyEqual X (Header_Peek ''X-API-Key'' cx) expectedKey then h param X e cx else respondUnauthorized cx)"

section \<open>Rate limit\<close>

definition rate_limit_key :: "request_ctx \<Rightarrow> string" where
  "rate_limit_key cx =
     (case cx_principal cx of
        Some p \<Rightarrow> if pr_CredentialID p \<noteq> [] then ''credential:'' @ pr_CredentialID p else ClientIPFromRequest cx
      | None \<Rightarrow> ClientIPFromRequest cx)"

definition RateLimitWithMetrics :: "handler \<Rightarrow> handler" where
  "RateLimitWithMetrics h X e cx =
     (let isGet = (req_Method (cx_request cx) = ''GET'');
          rl = cx_limiter cx;
          ((allowed, retryAfter, fellBack), rl') =
            AllowRequestWithContext (en_shared_limit e) (en_now e) (en_now e) (rate_limit_key cx) isGet rl;
          cx1 = cx\<lparr>cx_limiter := rl'\<rparr>;
          cx2 = (if fellBack then RecordEvent_ctx ''rate_limit_backend_fallback'' cx1 else cx1);
          cx3 = Header_Set ''X-RateLimit-Limit'' (itoa (if isGet then rl_maxGetRequests rl else rl_maxRequests rl)) cx2
      in if allowed then h X e cx3
         else
           SetBody (json_Marshal (JObject [(''error'', JString ''RATE_LIMIT_EXCEEDED''),
               (''message'', JString ''Too many requests. Please retry later.'')]))
             (SetStatusCode 429 (SetContentType ''application/json'' (Header_Set ''Retry-After'' (itoa retryAfter)
               (RecordEvent_ctx ''rate_limit_rejected'' cx3)))))"

section \<open>Metrics and logging\<close>

definition staticSegments :: "string list" where
  "staticSegments = [''v2'', ''tenants'', ''counters'', ''inc'', ''set'', ''operations'', ''credentials'', ''rotate'',
     ''revoke'', ''admin'', ''livez'', ''readyz'', ''metrics'']"

definition template_segment :: "externals \<Rightarrow> string \<Rightarrow> string" where
  "template_segment X part =
     (if part = [] then part
      else if uuid_parse X part \<noteq> None then '':id''
      else if part \<in> set staticSegments then part else '':param'')"

definition RouteTemplate :: "externals \<Rightarrow> string \<Rightarrow> string" where
  "RouteTemplate X path = join ''/'' (map (template_segment X) (split_on (CHR ''/'') path))"

record log_entry =
  le_Level :: string
  le_Time :: string
  le_RequestID :: string
  le_Method :: string
  le_Path :: string
  le_Status :: int
  le_Duration :: int64
  le_Error :: string

text \<open>A time of day in RFC 3339 form without a fraction.\<close>

definition RFC3339 :: "time \<Rightarrow> string" where
  "RFC3339 t = RFC3339Nano (t div time_Second * time_Second)"

definition json_log :: "log_entry \<Rightarrow> json" where
  "json_log l = JObject
     ([(''level'', JString (le_Level l)), (''time'', JString (le_Time l)), (''request_id'', JString (le_RequestID l)),
       (''method'', JString (le_Method l)), (''path'', JString (le_Path l)), (''status'', json_int (le_Status l)),
       (''duration_ms'', json_int (le_Duration l))] @
      (if le_Error l = [] then [] else [(''error'', JString (le_Error l))]))"

definition Log :: "log_entry \<Rightarrow> request_ctx \<Rightarrow> request_ctx" where
  "Log entry cx = cx\<lparr>cx_log := cx_log cx @ [json_Marshal (json_log entry)]\<rparr>"

text \<open>The registry of the logger is the one that \<open>MetricsContext\<close> makes reachable from the context.\<close>

definition LoggingWithLoggerAndMetrics :: "string \<Rightarrow> handler \<Rightarrow> handler" where
  "LoggingWithLoggerAndMetrics level h X e cx =
     (let (requestID, cx1) = ensureRequestID e cx;
          cx2 = h X e cx1;
          meth = req_Method (cx_request cx2); route = RouteTemplate X (req_Path (cx_request cx2));
          status = rs_Status (cx_response cx2);
          cx3 = cx2\<lparr>cx_metrics := map_option (RecordRequest meth route status (en_elapsed e)) (cx_metrics cx2)\<rparr>
      in Log \<lparr>le_Level = level, le_Time = RFC3339 (en_now e), le_RequestID = requestID, le_Method = meth, le_Path = route,
              le_Status = status, le_Duration = go_div (en_elapsed e) time_Millisecond,
              le_Error = (if status \<ge> 400 then rs_Body (cx_response cx2) else [])\<rparr> cx3)"

section \<open>Recovery\<close>

text \<open>A handler that may panic: what it left of the context, and how it ended.\<close>

datatype run_outcome = Returned request_ctx | Panicked request_ctx

type_synonym partial_handler = "externals \<Rightarrow> env \<Rightarrow> request_ctx \<Rightarrow> run_outcome"

definition Recover :: "partial_handler \<Rightarrow> handler" where
  "Recover h X e cx =
     (case h X e cx of
        Returned cx' \<Rightarrow> cx'
      | Panicked cx' \<Rightarrow>
          SetBody (json_Marshal (NewErrorResponse ''INTERNAL_SERVER_ERROR'' ''Internal server error''))
            (SetContentType ''application/json'' (SetStatusCode 500 cx')))"

text \<open>
  What \<open>Recover\<close> writes to the log is the stack without the values of the three headers. A value that shares
  no character with the mark is nowhere in it.
\<close>

definition redactSensitiveStack :: "request_ctx \<Rightarrow> string \<Rightarrow> string" where
  "redactSensitiveStack cx stack =
     fold (\<lambda>header s. let v = Header_Peek header cx in if v \<noteq> [] then ReplaceAll s v ''[REDACTED]'' else s)
       [''X-API-Key'', ''Authorization'', ''Cookie''] stack"

lemma redacted_value_gone:
  assumes "header \<in> {''X-API-Key'', ''Authorization'', ''Cookie''}" "Header_Peek header cx \<noteq> []"
    "set (Header_Peek header cx) \<inter> set ''[REDACTED]'' = {}"
  shows "\<not> Contains (redactSensitiveStack cx stack) (Header_Peek header cx)"
proof -
  let ?redact = "\<lambda>header s. let v = Header_Peek header cx in if v \<noteq> [] then ReplaceAll s v ''[REDACTED]'' else s"
  have gone: "\<not> Contains (?redact header s) (Header_Peek header cx)" for s
    using ReplaceAll_removes [OF assms(3)] assms(2) by (simp add: Let_def)
  have stays: "\<not> Contains (?redact h s) (Header_Peek header cx)" if "\<not> Contains s (Header_Peek header cx)" for h s
    using ReplaceAll_Contains [OF assms(3), of s "Header_Peek h cx"] assms(2) that by (auto simp: Let_def)
  have "redactSensitiveStack cx stack = ?redact ''Cookie'' (?redact ''Authorization'' (?redact ''X-API-Key'' stack))"
    by (simp add: redactSensitiveStack_def)
  with assms(1) gone stays show ?thesis by (elim insertE emptyE) metis+
qed

end
