(* ===== verification/Sentry.thy ===== *)
theory Sentry
  imports Middleware
begin

text \<open>
  \<open>internal/middleware/sentry.go\<close>: the wrapper that reports server errors. The library's hub is a
  parameter: \<open>None\<close> when there is none, and otherwise what the integration attaches to an event of the
  request. Every event passes \<open>ScrubSentryEvent\<close>, the hook that \<open>main\<close> installs.
\<close>

section \<open>What is read from a request\<close>

definition trim_slashes :: "string \<Rightarrow> string" where
  "trim_slashes s = rev (dropWhile (\<lambda>c. c = CHR ''/'') (rev (dropWhile (\<lambda>c. c = CHR ''/'') s)))"

definition extractSentryContext :: "request_ctx \<Rightarrow> string \<times> string" where
  "extractSentryContext cx =
     (let parts = split_on (CHR ''/'') (trim_slashes (req_Path (cx_request cx)))
      in if parts = [] \<or> parts ! 0 \<noteq> ''v2'' then ([], [])
         else
           (let rest = tl parts
            in (if length rest \<ge> 2 \<and> rest ! 0 = ''tenants'' then rest ! 1 else [],
                if length rest \<ge> 4 \<and> rest ! 0 = ''tenants'' \<and> rest ! 2 = ''counters'' then rest ! 3 else [])))"

definition shouldCaptureError :: "int \<Rightarrow> bool" where
  "shouldCaptureError statusCode \<longleftrightarrow> statusCode \<ge> 500 \<and> statusCode < 600"

definition extract_allowed :: "(string \<times> string) list" where
  "extract_allowed = [(''x-request-id'', ''X-Request-ID''), (''user-agent'', ''User-Agent''), (''cf-ray'', ''CF-Ray''),
     (''content-type'', ''Content-Type'')]"

definition extractHeaders :: "externals \<Rightarrow> request_ctx \<Rightarrow> (string \<times> string) list" where
  "extractHeaders X cx = fold (keep_header X extract_allowed) (req_Headers (cx_request cx)) []"

definition sentryClientIP :: "request_ctx \<Rightarrow> string" where
  "sentryClientIP cx = CanonicalClientIP cx"

section \<open>The wrapper\<close>

text \<open>The scope of a request, as an event without a message.\<close>

definition request_scope_event :: "externals \<Rightarrow> sentry_request \<Rightarrow> request_ctx \<Rightarrow> sentry_event" where
  "request_scope_event X attached cx =
     (let (tenantID, counterID) = extractSentryContext cx; clientIP = sentryClientIP cx; meth = req_Method (cx_request cx)
      in \<lparr>se_Message = [], se_Level = [],
          se_Tags = [(''tenant_id'', tenantID), (''counter_id'', counterID), (''client_ip'', clientIP), (''method'', meth),
            (''path'', RouteTemplate X (req_Path (cx_request cx)))],
          se_User = (if tenantID = [] then None else Some tenantID),
          se_Contexts = Some [(''fasthttp'', [(''url'', AnyString (req_RequestURI (cx_request cx))), (''method'', AnyString meth),
            (''headers'', AnyMap (extractHeaders X cx)), (''remote_addr'', AnyString clientIP),
            (''query'', AnyString (req_QueryString (cx_request cx)))])],
          se_Request = Some attached\<rparr>)"

definition capture_event :: "externals \<Rightarrow> sentry_event \<Rightarrow> request_ctx \<Rightarrow> request_ctx" where
  "capture_event X scope cx =
     (let status = rs_Status (cx_response cx);
          ev = scope\<lparr>se_Level := ''error'',
            se_Contexts := map_option (AList.update ''response'' [(''status_code'', AnyInt status)]) (se_Contexts scope),
            se_Message := ''HTTP '' @ itoa status @ '': '' @ req_Method (cx_request cx) @ '' '' @ req_Path (cx_request cx)\<rparr>
      in case ScrubSentryEvent X (Some ev) of
           None \<Rightarrow> cx
         | Some sent \<Rightarrow> cx\<lparr>cx_captured := cx_captured cx @ [sent]\<rparr>)"

text \<open>
  A panic of the wrapped handler ends inside the wrapper: it only turns a status of 200 into 500, and
  neither the library nor \<open>Recover\<close> sees it.
\<close>

definition NewSentryHandler :: "(request_ctx \<Rightarrow> sentry_request) option \<Rightarrow> partial_handler \<Rightarrow> partial_handler" where
  "NewSentryHandler hub h X e cx0 =
     (let cx = snd (ensureRequestID e cx0)
      in case hub of
           None \<Rightarrow> h X e cx
         | Some attach \<Rightarrow>
           (let scope = request_scope_event X (attach cx) cx;
                cx1 = (case h X e cx of
                         Returned c \<Rightarrow> c
                       | Panicked c \<Rightarrow> if rs_Status (cx_response c) = 200 then SetStatusCode 500 c else c)
            in Returned (if shouldCaptureError (rs_Status (cx_response cx1)) then capture_event X scope cx1 else cx1)))"

lemma capture_event_frame [simp]:
  "cx_db (capture_event X scope cx) = cx_db cx" "cx_response (capture_event X scope cx) = cx_response cx"
  by (simp_all add: capture_event_def Let_def split: option.split)

text \<open>Whatever the library attaches, what is captured is safe.\<close>

lemma capture_event_safe: "list_all safe_event (cx_captured cx) \<Longrightarrow> list_all safe_event (cx_captured (capture_event X scope cx))"
  by (auto simp: capture_event_def Let_def dest: ScrubSentryEvent_safe split: option.split)

text \<open>
  With the error tracker configured, a handler that panics after it has set a status other than 200
  is answered with that status and whatever body it left, and one that panics before is answered with
  500 and no error object: the answer of \<open>Recover\<close>, the outermost wrapper, is never sent, and the event
  captured for the panic is the scrubbed report of a server error at most.
\<close>

theorem panic_hidden_from_recovery:
  assumes "h X e (snd (ensureRequestID e cx)) = Panicked c"
  shows "cx_response (Recover (NewSentryHandler (Some attach) h) X e cx) =
      (if rs_Status (cx_response c) = 200 then (cx_response c)\<lparr>rs_Status := 500\<rparr> else cx_response c) \<and>
    rs_Status (cx_response (Recover h X e (snd (ensureRequestID e cx)))) = 500 \<and>
    rs_Body (cx_response (Recover h X e (snd (ensureRequestID e cx)))) =
      json_Marshal (NewErrorResponse ''INTERNAL_SERVER_ERROR'' ''Internal server error'')"
  using assms by (simp add: Recover_def NewSentryHandler_def Let_def SetStatusCode_def)

theorem panic_hidden_from_recovery_witness:
  "rs_Body (cx_response (Recover (NewSentryHandler (Some (\<lambda>_. the (se_Request sample_event))) (\<lambda>X e cx. Panicked cx))
     sample_ext sample_env sample_cx)) = []"
  using panic_hidden_from_recovery [of "\<lambda>X e cx. Panicked cx" sample_ext sample_env sample_cx
      "snd (ensureRequestID sample_env sample_cx)" "\<lambda>_. the (se_Request sample_event)"]
  by (simp add: ensureRequestID_def sample_cx_def new_response_def)

end
