(* ===== verification/Router.thy ===== *)
theory Router
  imports Sentry
begin

text \<open>
  \<open>internal/router/router.go\<close>: the routes with their authorization wrappers and the chain of middleware
  around them. The routing library that matches a path against a pattern is a parameter: \<open>match pattern
  path\<close> gives the parameters of the route, or \<open>None\<close>.
\<close>

section \<open>Routes\<close>

definition set_param :: "(string \<Rightarrow> string) \<Rightarrow> request_ctx \<Rightarrow> request_ctx" where
  "set_param param cx =
     (let cx1 = (if param ''tenant_id'' = [] then cx else cx\<lparr>cx_tenant_id := Some (param ''tenant_id'')\<rparr>);
          cx2 = (if param ''counter_id'' = [] then cx1 else cx1\<lparr>cx_counter_id := Some (param ''counter_id'')\<rparr>)
      in if param ''credential_id'' = [] then cx2 else cx2\<lparr>cx_credential_id := Some (param ''credential_id'')\<rparr>)"

text \<open>A handler does not run when the response has been sent already.\<close>

definition toHandler :: "handler \<Rightarrow> routing_handler" where
  "toHandler h param X e cx =
     (if rs_Status (cx_response cx) \<noteq> 200 \<and> rs_Status (cx_response cx) \<noteq> 404 then cx else h X e (set_param param cx))"

definition dataHandler :: "handler \<Rightarrow> routing_handler" where
  "dataHandler h = toHandler (TenantAccess h)"

text \<open>\<open>routeSurface\<close>: the routes as the source lists them for its documentation.\<close>

definition routeSurface :: "string list" where
  "routeSurface =
     [''GET /'', ''GET /tools/curl'', ''GET /livez'', ''GET /readyz'', ''GET /metrics'', ''POST /v2/tenants'',
      ''GET /v2/tenants/<tenant_id>'', ''GET /v2/tenants/<tenant_id>/counters'', ''POST /v2/tenants/<tenant_id>/counters'',
      ''POST /v2/tenants/<tenant_id>/counters/<counter_id>/inc'', ''POST /v2/tenants/<tenant_id>/counters/<counter_id>/set'',
      ''GET /v2/tenants/<tenant_id>/counters/<counter_id>'', ''GET /v2/tenants/<tenant_id>/counters/<counter_id>/operations'',
      ''GET /v2/tenants/<tenant_id>/counters/<counter_id>/metadata'', ''PUT /v2/tenants/<tenant_id>/counters/<counter_id>/metadata'',
      ''DELETE /v2/tenants/<tenant_id>/counters/<counter_id>/metadata'', ''POST /v2/tenants/<tenant_id>/credentials'',
      ''POST /v2/tenants/<tenant_id>/credentials/<credential_id>/rotate'',
      ''POST /v2/tenants/<tenant_id>/credentials/<credential_id>/revoke'', ''POST /v2/admin/credentials'', ''OPTIONS /*'']"

record route =
  rt_method :: string
  rt_pattern :: string
  rt_handler :: routing_handler

text \<open>
  What the handlers close over: the state of the process, the answer to the ping, the two embedded
  pages and the text of the metrics.
\<close>

record options =
  op_Health :: health_state
  op_ping :: "(go_error + unit) option"
  op_docs :: string
  op_curl_builder :: string
  op_metrics_text :: "metrics option \<Rightarrow> string"

definition page_handler :: "string \<Rightarrow> handler" where
  "page_handler html X e cx = SetBody html (SetStatusCode 200 (SetContentType ''text/html; charset=utf-8'' cx))"

definition MetricsHandler :: "(metrics option \<Rightarrow> string) \<Rightarrow> handler" where
  "MetricsHandler render X e cx =
     SetBody (render (cx_metrics cx)) (SetStatusCode 200 (SetContentType ''text/plain; version=0.0.4'' cx))"

abbreviation "tenant_path \<equiv> ''/v2/tenants/<tenant_id>''"
abbreviation "counters_path \<equiv> tenant_path @ ''/counters''"
abbreviation "counter_path \<equiv> counters_path @ ''/<counter_id>''"

definition public_routes :: "options \<Rightarrow> route list" where
  "public_routes o' =
     [\<lparr>rt_method = ''GET'', rt_pattern = ''/'', rt_handler = toHandler (page_handler (op_docs o'))\<rparr>,
      \<lparr>rt_method = ''GET'', rt_pattern = ''/tools/curl'', rt_handler = toHandler (page_handler (op_curl_builder o'))\<rparr>,
      \<lparr>rt_method = ''GET'', rt_pattern = ''/livez'', rt_handler = toHandler (LivenessHandler (Some (op_Health o')))\<rparr>,
      \<lparr>rt_method = ''GET'', rt_pattern = ''/readyz'', rt_handler = toHandler (ReadinessHandler (op_Health o') (op_ping o'))\<rparr>]"

text \<open>The routes of administrators, and the routes of the holders of a scope; no two routes of one method
  match one path, so that their order does not matter.\<close>

definition admin_routes :: "options \<Rightarrow> route list" where
  "admin_routes o' =
     [\<lparr>rt_method = ''GET'', rt_pattern = ''/metrics'',
        rt_handler = RequireAdminRouting (toHandler (MetricsHandler (op_metrics_text o')))\<rparr>,
      \<lparr>rt_method = ''POST'', rt_pattern = ''/v2/tenants'',
        rt_handler = RequireAdminRouting (dataHandler (IdempotentMutation False CreateTenantServiceHandler))\<rparr>,
      \<lparr>rt_method = ''POST'', rt_pattern = tenant_path @ ''/credentials'',
        rt_handler = RequireAdminRouting (dataHandler (IdempotentMutation True CreateCredentialServiceHandler))\<rparr>,
      \<lparr>rt_method = ''POST'', rt_pattern = tenant_path @ ''/credentials/<credential_id>/rotate'',
        rt_handler = RequireAdminRouting (dataHandler (IdempotentMutation True RotateCredentialServiceHandler))\<rparr>,
      \<lparr>rt_method = ''POST'', rt_pattern = tenant_path @ ''/credentials/<credential_id>/revoke'',
        rt_handler = RequireAdminRouting (dataHandler (IdempotentMutation False RevokeCredentialServiceHandler))\<rparr>,
      \<lparr>rt_method = ''POST'', rt_pattern = ''/v2/admin/credentials'',
        rt_handler = RequireAdminRouting (dataHandler (IdempotentMutation True CreateAdminCredentialServiceHandler))\<rparr>]"

text \<open>A row: method, pattern, scope and handler.\<close>

definition scoped_table :: "(string \<times> string \<times> string \<times> handler) list" where
  "scoped_table =
     [(''GET'', tenant_path, ''tenant:read'', GetTenantServiceHandler),
      (''GET'', counters_path, ''counter:list'', ListCountersServiceHandler),
      (''POST'', counters_path, ''counter:create'', IdempotentMutation False CreateCounterServiceHandler),
      (''GET'', counter_path, ''counter:read'', GetCounterServiceHandler),
      (''POST'', counter_path @ ''/inc'', ''counter:increment'', IncrementCounterServiceHandler),
      (''POST'', counter_path @ ''/set'', ''counter:adjust'', SetCounterServiceHandler),
      (''GET'', counter_path @ ''/operations'', ''counter:history'', OperationHistoryServiceHandler),
      (''GET'', counter_path @ ''/metadata'', ''metadata:read'', MetadataHandler),
      (''PUT'', counter_path @ ''/metadata'', ''metadata:write'', IdempotentMutation False MetadataHandler),
      (''DELETE'', counter_path @ ''/metadata'', ''metadata:write'', IdempotentMutation False MetadataHandler)]"

definition scoped_route :: "string \<times> string \<times> string \<times> handler \<Rightarrow> route" where
  "scoped_route row = (case row of (meth, pattern, scope, h) \<Rightarrow>
     \<lparr>rt_method = meth, rt_pattern = pattern, rt_handler = RequireScopesRouting [scope] (dataHandler h)\<rparr>)"

definition options_route :: route where
  "options_route = \<lparr>rt_method = ''OPTIONS'', rt_pattern = ''/*'', rt_handler = (\<lambda>param X e cx. SetStatusCode 200 cx)\<rparr>"

definition registerRoutes :: "options \<Rightarrow> route list" where
  "registerRoutes o' = public_routes o' @ admin_routes o' @ map scoped_route scoped_table @ [options_route]"

definition not_found :: "request_ctx \<Rightarrow> request_ctx" where
  "not_found cx =
     SetBody (json_Marshal (JObject [(''error'', JString ''NOT_FOUND''), (''message'', JString ''Endpoint not found'')]))
       (SetContentType ''application/json'' (SetStatusCode 404 cx))"

type_synonym path_match = "string \<Rightarrow> string \<Rightarrow> (string \<times> string) list option"

definition route_param :: "(string \<times> string) list \<Rightarrow> string \<Rightarrow> string" where
  "route_param ps name = (case map_of ps name of None \<Rightarrow> [] | Some v \<Rightarrow> v)"

definition HandleRequest :: "path_match \<Rightarrow> options \<Rightarrow> handler" where
  "HandleRequest match o' X e cx =
     (case find (\<lambda>r. rt_method r = req_Method (cx_request cx) \<and> match (rt_pattern r) (req_Path (cx_request cx)) \<noteq> None)
         (registerRoutes o') of
        None \<Rightarrow> not_found cx
      | Some r \<Rightarrow> rt_handler r (route_param (the (match (rt_pattern r) (req_Path (cx_request cx))))) X e cx)"

section \<open>The chain\<close>

record router_config =
  rc_cors :: cors_config
  rc_apiKey :: string
  rc_legacyAPIKeyEnabled :: bool
  rc_timeouts :: route_timeouts
  rc_maxConcurrency :: int
  rc_level :: string
  rc_sentryDSN :: string
  rc_hub :: "(request_ctx \<Rightarrow> sentry_request) option"

text \<open>Everything inside the reporting of errors.\<close>

definition observed_chain :: "path_match \<Rightarrow> options \<Rightarrow> router_config \<Rightarrow> handler" where
  "observed_chain match o' c =
     LoggingWithLoggerAndMetrics (rc_level c) (ClientIdentity (RequestContext (rc_timeouts c)
       (ConcurrencyLimitWithMetrics (rc_maxConcurrency c) (CORS (rc_cors c)
         (AuthenticateRequest (if rc_legacyAPIKeyEnabled c then rc_apiKey c else [])
           (RateLimitWithMetrics (HandleRequest match o')))))))"

definition NewRouterWithObservability :: "path_match \<Rightarrow> options \<Rightarrow> router_config \<Rightarrow> handler" where
  "NewRouterWithObservability match o' c =
     (let h = (\<lambda>X e cx. Returned (observed_chain match o' c X e cx))
      in Recover (if rc_sentryDSN c \<noteq> [] then NewSentryHandler (rc_hub c) h else h))"

end
