(* ===== verification/Tables.thy ===== *)
theory Tables
  imports Idempotency
begin

text \<open>
  What every request does to the tables. A relation between the tables before and after that each
  operation of the stores keeps is kept by every handler, with the wrapper of keyed mutations around
  it and whatever fails. The relation is a parameter; the theories that follow take it to be
  ``the rows of other tenants are the same'' and ``the ledger is only appended to''.
\<close>

section \<open>Transactions\<close>

text \<open>
  The tables that an operation leaves are those of a whole transaction: it ran in a transaction of its
  own, or it succeeded inside an outer one.
\<close>

definition finished :: "go_context \<Rightarrow> go_error + 'a \<Rightarrow> bool" where
  "finished ctx r \<longleftrightarrow> \<not> ctx_tx ctx \<or> \<not> isl r"

lemma finished_simps [simp]:
  "finished ctx (Inr v)" "finished ctx (Inl e) \<longleftrightarrow> \<not> ctx_tx ctx" "\<not> ctx_tx ctx \<Longrightarrow> finished ctx r"
  by (simp_all add: finished_def)

locale transaction_frame =
  fixes R :: "database \<Rightarrow> database \<Rightarrow> bool"
  assumes R_refl: "R d d" and R_trans: "R a b \<Longrightarrow> R b c \<Longrightarrow> R a c"
begin

lemma BeginWrite_R:
  assumes "R db (snd (body db))"
  shows "R db (snd (BeginWrite f ctx bw cw body db))"
  using assms R_refl
  by (auto simp: BeginWrite_def split: option.split prod.split sum.split commit_outcome.split)

lemma ExecutorFor_R:
  assumes "\<And>r d'. stm db = Inr (r, d') \<Longrightarrow> R db d'"
  shows "R db (snd (ExecutorFor f ctx s stm db))"
  unfolding ExecutorFor_def
  using assms R_refl by (intro BeginWrite_R) (auto simp: exec_def split: option.split sum.split)

text \<open>A transaction of its own changes the tables by a body that succeeds; an outer one shows every result.\<close>

lemma BeginWrite_settled_R:
  assumes "BeginWrite f ctx bw cw body db = (r, db')" "finished ctx r"
    and "\<And>v d'. body db = (Inr v, d') \<Longrightarrow> R db d'"
  shows "R db db'"
  using assms R_refl
  by (cases rule: BeginWrite_cases [OF assms(1)]) (auto simp: BeginWrite_def finished_def)

end

section \<open>Requests\<close>

text \<open>The answer of a handler stands for a finished change: no outer transaction, or a success inside one.\<close>

definition settled :: "go_context \<Rightarrow> request_ctx \<Rightarrow> bool" where
  "settled ctx cx \<longleftrightarrow> \<not> ctx_tx ctx \<or> 200 \<le> rs_Status (cx_response cx) \<and> rs_Status (cx_response cx) < 300"

definition keeps :: "(database \<Rightarrow> database \<Rightarrow> bool) \<Rightarrow> externals \<Rightarrow> (access \<Rightarrow> bool) \<Rightarrow> handler \<Rightarrow> bool" where
  "keeps R X ok h \<longleftrightarrow>
     (\<forall>e cx. ok (AccessFromContext (requestDatabaseContext cx)) \<longrightarrow> settled (requestDatabaseContext cx) (h X e cx) \<longrightarrow>
        R (cx_db cx) (cx_db (h X e cx)))"

lemma CreateCounterRequest_in_range:
  "CreateCounterRequest_Validate r = Inr r' \<Longrightarrow> in_int64 (rq_InitialValue r')"
  by (auto simp: CreateCounterRequest_Validate_def ValidateCounterValue_def in_int64_def minInt64_def maxInt64_def Let_def
      split: sum.splits option.splits if_splits)

lemma SetCounterValueRequest_in_range: "SetCounterValueRequest_Validate (Some v) = None \<Longrightarrow> in_int64 v"
  by (auto simp: SetCounterValueRequest_Validate_def ValidateCounterValue_def in_int64_def minInt64_def maxInt64_def
      split: if_splits)

lemma delta_arg_in_range: "delta_arg cx = Some d \<Longrightarrow> in_int64 d"
  by (auto simp: delta_arg_def in_int64_def minInt64_def maxInt64_def Let_def split: if_splits option.splits
      dest: ParseInt64_in_range)

locale operation_laws = transaction_frame R for R +
  fixes X :: externals and ok :: "access \<Rightarrow> bool"
  assumes CreateTenant_law: "\<lbrakk>ok (AccessFromContext ctx); CreateTenant X f ctx tn db = (r1, db'); finished ctx r1\<rbrakk> \<Longrightarrow> R db db'"
    and CreateCounter_law: "\<lbrakk>ok (AccessFromContext ctx); in_int64 (ctr_value c); CreateCounter X f ctx c db = (r1, db');
      finished ctx r1\<rbrakk> \<Longrightarrow> R db db'"
    and increment_law: "\<lbrakk>ok (AccessFromContext ctx); in_int64 delta;
      incrementCounter X f ctx tenantID counterID delta oid h actorID now db = (r2, db'); finished ctx r2\<rbrakk> \<Longrightarrow> R db db'"
    and set_law: "\<lbrakk>ok (AccessFromContext ctx); in_int64 v;
      setCounterValueWithOperation X f ctx tenantID counterID v oid h actorID now db = (r2, db'); finished ctx r2\<rbrakk> \<Longrightarrow> R db db'"
    and Put_law: "\<lbrakk>ok (AccessFromContext ctx);
      MetadataStore_Put X f ctx fresh now tenantID counterID data expected create db = (r3, db'); finished ctx r3\<rbrakk> \<Longrightarrow> R db db'"
    and Delete_law: "\<lbrakk>ok (AccessFromContext ctx);
      MetadataStore_Delete X f ctx tenantID counterID expected db = (r1, db'); finished ctx r1\<rbrakk> \<Longrightarrow> R db db'"
    and issue_law: "\<lbrakk>ok (AccessFromContext ctx);
      CreateCredentialAndAudit X f ctx cred ev db = (r1, db'); finished ctx r1\<rbrakk> \<Longrightarrow> R db db'"
    and revoke_law: "\<lbrakk>ok (AccessFromContext ctx);
      RevokeCredentialAndAudit X f ctx i tm ev db = (r1, db'); finished ctx r1\<rbrakk> \<Longrightarrow> R db db'"
    and purge_law: "\<lbrakk>ok a; purge_requests_stmt X a scope key now db = Inr db'\<rbrakk> \<Longrightarrow> R db db'"
    and record_law: "\<lbrakk>ok a; insert_request_stmt X a row now db = Inr db'\<rbrakk> \<Longrightarrow> R db db'"
begin

subsection \<open>Services\<close>

lemma TenantService_Create_R:
  "\<lbrakk>TenantService_Create X f ctx now newID label db = (r, db'); ok (AccessFromContext ctx); finished ctx r\<rbrakk> \<Longrightarrow> R db db'"
  by (auto simp: TenantService_Create_def Let_def split: prod.splits sum.splits if_splits elim: CreateTenant_law)

lemma Counter_Create_R:
  "\<lbrakk>Counter_Create X f ctx now newID tenantID rq db = (r, db'); ok (AccessFromContext ctx); in_int64 (rq_InitialValue rq);
    finished ctx r\<rbrakk> \<Longrightarrow> R db db'"
  using R_refl
  by (auto simp: Counter_Create_def Let_def split: prod.splits sum.splits if_splits bool.splits elim: CreateCounter_law [rotated 2])

lemma incrementWithActor_R:
  "\<lbrakk>incrementWithActor X f ctx ce now newID tenantID counterID delta oid actorID db ch = (r, db', ch'); ok (AccessFromContext ctx);
    in_int64 delta; finished ctx r\<rbrakk> \<Longrightarrow> R db db'"
  by (auto simp: incrementWithActor_def Let_def split: prod.splits sum.splits elim: increment_law [rotated 2])

lemma setWithActor_R:
  "\<lbrakk>setWithActor X f ctx ce now newID tenantID counterID v oid actorID db ch = (r, db', ch'); ok (AccessFromContext ctx);
    in_int64 v; finished ctx r\<rbrakk> \<Longrightarrow> R db db'"
  by (auto simp: setWithActor_def Let_def split: prod.splits sum.splits elim: set_law [rotated 2])

lemma MetadataService_Put_R:
  "\<lbrakk>MetadataService_Put X f ctx fresh now tenantID counterID data expected create db = (r, db'); ok (AccessFromContext ctx);
    finished ctx r\<rbrakk> \<Longrightarrow> R db db'"
  using R_refl by (auto simp: MetadataService_Put_def split: prod.splits sum.splits option.splits elim: Put_law [rotated])

lemma MetadataService_Delete_R:
  "\<lbrakk>MetadataService_Delete X f ctx tenantID counterID expected db = (r, db'); ok (AccessFromContext ctx);
    finished ctx r\<rbrakk> \<Longrightarrow> R db db'"
  by (auto simp: MetadataService_Delete_def split: prod.splits sum.splits elim: Delete_law [rotated])

lemma Credential_create_R:
  "\<lbrakk>Credential_create X f ctx ie tenantID adm scopes expiresAt actorID db = (r, db'); ok (AccessFromContext ctx);
    finished ctx r\<rbrakk> \<Longrightarrow> R db db'"
  using R_refl
  by (auto simp: Credential_create_def Let_def split: prod.splits sum.splits if_splits elim: issue_law [rotated])

lemma Credential_Rotate_R:
  "\<lbrakk>Credential_Rotate X f ctx ie tenantID credentialID actorID db = (r, db'); ok (AccessFromContext ctx);
    finished ctx r\<rbrakk> \<Longrightarrow> R db db'"
  using R_refl
  by (auto simp: Credential_Rotate_def Let_def split: prod.splits sum.splits if_splits option.splits elim: issue_law [rotated])

lemma Credential_Revoke_R:
  "\<lbrakk>Credential_Revoke X f ctx ie tenantID credentialID actorID db = (r, db'); ok (AccessFromContext ctx);
    finished ctx r\<rbrakk> \<Longrightarrow> R db db'"
  using R_refl
  by (auto simp: Credential_Revoke_def Let_def split: prod.splits sum.splits if_splits option.splits elim: revoke_law [rotated])

subsection \<open>Handlers\<close>

lemma keptI:
  assumes "\<And>e cx. \<lbrakk>ok (AccessFromContext (requestDatabaseContext cx)); settled (requestDatabaseContext cx) (h X e cx)\<rbrakk> \<Longrightarrow>
     R (cx_db cx) (cx_db (h X e cx))"
  shows "keeps R X ok h"
  using assms unfolding keeps_def by blast

lemma CreateTenantServiceHandler_R: "keeps R X ok CreateTenantServiceHandler"
  using R_refl
  by (auto intro!: keptI simp: CreateTenantServiceHandler_def settled_def Let_def split: option.splits sum.splits prod.splits if_splits
      elim!: TenantService_Create_R)

lemma CreateCounterServiceHandler_R: "keeps R X ok CreateCounterServiceHandler"
  using R_refl
  by (auto intro!: keptI simp: CreateCounterServiceHandler_def settled_def Let_def split: option.splits sum.splits prod.splits if_splits
      elim!: Counter_Create_R dest: CreateCounterRequest_in_range)

text \<open>The refusals of the two mutations answer with an error and change nothing.\<close>

lemma refusal_frame [simp]:
  "cx_db (increment_refusal err cx) = cx_db cx" "cx_db (set_refusal err cx) = cx_db cx"
  "cx_db (credential_refusal err cx) = cx_db cx" "cx_db (metadataError X err cx) = cx_db cx"
  "cx_db (mutation_answer i m cx) = cx_db cx"
  by (simp_all add: increment_refusal_def set_refusal_def credential_refusal_def metadataError_def mutation_answer_def)

lemma refusal_status [simp]:
  "\<not> rs_Status (cx_response (increment_refusal err cx)) < 300" "\<not> rs_Status (cx_response (set_refusal err cx)) < 300"
  "\<not> rs_Status (cx_response (credential_refusal err cx)) < 300" "\<not> rs_Status (cx_response (metadataError X err cx)) < 300"
  by (simp_all add: increment_refusal_def set_refusal_def credential_refusal_def metadataError_def)

lemma IncrementCounterServiceHandler_R: "keeps R X ok IncrementCounterServiceHandler"
  using R_refl
  by (auto intro!: keptI simp: IncrementCounterServiceHandler_def settled_def split: option.splits sum.splits prod.splits)
    (erule (2) incrementWithActor_R [OF _ _ delta_arg_in_range], simp)+

lemma SetCounterServiceHandler_R: "keeps R X ok SetCounterServiceHandler"
  using R_refl
  by (auto intro!: keptI simp: SetCounterServiceHandler_def settled_def split: option.splits sum.splits prod.splits)
    (erule (2) setWithActor_R [OF _ _ SetCounterValueRequest_in_range], simp)+

lemma CreateCredentialServiceHandler_R: "keeps R X ok CreateCredentialServiceHandler"
  using R_refl
  by (auto intro!: keptI simp: CreateCredentialServiceHandler_def Credential_Create_def settled_def Let_def
      split: option.splits sum.splits prod.splits if_splits)
    (erule (1) Credential_create_R, simp)+

lemma CreateAdminCredentialServiceHandler_R: "keeps R X ok CreateAdminCredentialServiceHandler"
  using R_refl
  by (auto intro!: keptI simp: CreateAdminCredentialServiceHandler_def Credential_CreateAdmin_def settled_def
      split: option.splits sum.splits prod.splits if_splits)
    (erule (1) Credential_create_R, simp)+

lemma RotateCredentialServiceHandler_R: "keeps R X ok RotateCredentialServiceHandler"
  using R_refl
  by (auto intro!: keptI simp: RotateCredentialServiceHandler_def settled_def split: sum.splits prod.splits)
    (erule (1) Credential_Rotate_R, simp)+

lemma RevokeCredentialServiceHandler_R: "keeps R X ok RevokeCredentialServiceHandler"
  using R_refl
  by (auto intro!: keptI simp: RevokeCredentialServiceHandler_def settled_def split: sum.splits prod.splits)
    (erule (1) Credential_Revoke_R, simp)+

lemma metadata_delete_R:
  assumes "ok (AccessFromContext (requestDatabaseContext cx))"
    and "settled (requestDatabaseContext cx) (metadata_delete X e tenantID counterID expected cx)"
  shows "R (cx_db cx) (cx_db (metadata_delete X e tenantID counterID expected cx))"
  using assms by (auto simp: metadata_delete_def settled_def split: sum.splits prod.splits)
    (erule (1) MetadataService_Delete_R, simp)+

lemma metadata_put_R:
  assumes "ok (AccessFromContext (requestDatabaseContext cx))"
    and "settled (requestDatabaseContext cx) (metadata_put X e tenantID counterID expected create cx)"
  shows "R (cx_db cx) (cx_db (metadata_put X e tenantID counterID expected create cx))"
  using assms by (auto simp: metadata_put_def settled_def split: sum.splits prod.splits)
    (erule (1) MetadataService_Put_R, simp)+

lemma MetadataHandler_R: "keeps R X ok MetadataHandler"
proof (rule keptI)
  fix e cx
  let ?cx = "Header_Set ''Cache-Control'' ''no-store'' cx"
  have ctx: "requestDatabaseContext ?cx = requestDatabaseContext cx" by (simp add: requestDatabaseContext_def split: option.split)
  assume "ok (AccessFromContext (requestDatabaseContext cx))" "settled (requestDatabaseContext cx) (MetadataHandler X e cx)"
  with R_refl metadata_put_R [of ?cx] metadata_delete_R [of ?cx]
  show "R (cx_db cx) (cx_db (MetadataHandler X e cx))"
    by (auto simp: MetadataHandler_def ctx Let_def split: sum.splits precondition.splits if_splits)
qed

lemma reads_R: "keeps R X ok GetTenantServiceHandler" "keeps R X ok ListCountersServiceHandler"
  "keeps R X ok GetCounterServiceHandler" "keeps R X ok OperationHistoryServiceHandler"
  using R_refl
  by (auto intro!: keptI simp: GetTenantServiceHandler_def ListCountersServiceHandler_def GetCounterServiceHandler_def
      OperationHistoryServiceHandler_def Let_def split: option.splits sum.splits prod.splits)

lemmas handlers_R = CreateTenantServiceHandler_R CreateCounterServiceHandler_R IncrementCounterServiceHandler_R
  SetCounterServiceHandler_R CreateCredentialServiceHandler_R CreateAdminCredentialServiceHandler_R
  RotateCredentialServiceHandler_R RevokeCredentialServiceHandler_R MetadataHandler_R reads_R

subsection \<open>Keyed mutations\<close>

lemma record_response_R:
  assumes "ok (AccessFromContext ctx)" "\<not> ctx_tx ctx" "R db0 (cx_db cx)"
  shows "R db0 (cx_db (record_response X e ctx cr scope key hsh db0 cx))"
proof -
  have step: "R db0 d" if "insert_request_stmt X (AccessFromContext ctx) row now (cx_db cx) = Inr d" for row now d
    using record_law [OF assms(1) that] assms(3) by (rule R_trans [rotated])
  show ?thesis using R_refl assms(2)
    by (auto simp: record_response_def finish_true_def exec_def Let_def
        split: option.split sum.split commit_outcome.split prod.split elim: step)
qed

lemma run_recorded_R:
  assumes h: "keeps R X ok h" and "ok (AccessFromContext ctx)" "\<not> ctx_tx ctx" "R db0 (cx_db cx)"
  shows "R db0 (cx_db (run_recorded h X e ctx cr scope key hsh db0 cx))"
proof -
  let ?in = "cx\<lparr>cx_transaction := Some (WithTransaction ctx)\<rparr>"
  let ?cx = "h X e ?in"
  have ctx: "requestDatabaseContext ?in = WithTransaction ctx" by (simp add: requestDatabaseContext_def)
  show ?thesis
  proof (cases "200 \<le> rs_Status (cx_response ?cx) \<and> rs_Status (cx_response ?cx) < 300")
    case True
    have "R (cx_db ?in) (cx_db ?cx)"
      using h [unfolded keeps_def, rule_format, of ?in e] assms(2) True by (simp add: ctx settled_def)
    then have "R (cx_db cx) (cx_db ?cx)" by simp
    with assms(4) have "R db0 (cx_db ?cx)" by (rule R_trans)
    with record_response_R [OF assms(2,3)] True show ?thesis by (simp add: run_recorded_def Let_def)
  next
    case False
    with R_refl assms(3) show ?thesis by (auto simp: run_recorded_def Let_def)
  qed
qed

lemma IdempotentMutation_R:
  assumes h: "keeps R X ok h"
    and ok: "ok (AccessFromContext (requestDatabaseContext cx))" and tx: "\<not> ctx_tx (requestDatabaseContext cx)"
  shows "R (cx_db cx) (cx_db (IdempotentMutation cr h X e cx))"
proof -
  have plain: "R (cx_db cx) (cx_db (h X e cx))" using h ok tx by (auto simp: keeps_def settled_def)
  have keyed: "R (cx_db cx) (cx_db (run_recorded h X e (requestDatabaseContext cx) cr scope key hsh (cx_db cx) (cx\<lparr>cx_db := d\<rparr>)))"
    if "purge_requests_stmt X (AccessFromContext (requestDatabaseContext cx)) scope key now (cx_db cx) = Inr d" for scope key hsh now d
    using purge_law [OF ok that] by (intro run_recorded_R [OF h ok tx]) simp
  show ?thesis using R_refl tx
    by (auto simp: IdempotentMutation_def Let_def exec_Inr plain split: option.split sum.split elim!: keyed)
qed

end

end
