(* ===== verification/Isolation.thy ===== *)
theory Isolation
  imports Tables
begin

text \<open>
  Tenants are isolated: whatever an operation of the stores does under an access that names a tenant,
  committed or left in an open transaction, with whatever failures, the rows of the other tenants are
  as they were. The row-level policies of migration 10 carry the proof: every statement changes and
  adds rows that the access sees, and an access with a tenant sees the rows of one tenant.
\<close>

section \<open>The rows of the others\<close>

definition foreign :: "string \<Rightarrow> database \<Rightarrow> database" where
  "foreign t db =
     \<lparr>tenants = filter (\<lambda>r. tn_id r \<noteq> t) (tenants db),
      counters = filter (\<lambda>r. ctr_tenant_id r \<noteq> t) (counters db),
      operations = filter (\<lambda>r. op_tenant_id r \<noteq> t) (operations db),
      credentials = filter (\<lambda>r. cr_tenant_id r \<noteq> Some t) (credentials db),
      audit_events = filter (\<lambda>r. ev_tenant_id r \<noteq> Some t) (audit_events db),
      metadata_rows = filter (\<lambda>r. md_tenant_id r \<noteq> t) (metadata_rows db),
      idempotency_rows = filter (\<lambda>r. ir_tenant_id r \<noteq> Some t) (idempotency_rows db)\<rparr>"

abbreviation same_foreign :: "string \<Rightarrow> database \<Rightarrow> database \<Rightarrow> bool" where
  "same_foreign t db db' \<equiv> foreign t db' = foreign t db"

interpretation rows: transaction_frame "same_foreign t" for t
  by unfold_locales simp_all

text \<open>An access that sees no row but those of tenant \<open>t\<close>.\<close>

definition confined :: "externals \<Rightarrow> access \<Rightarrow> string \<Rightarrow> bool" where
  "confined X a t \<longleftrightarrow> acc_TenantID a \<noteq> [] \<and> (\<forall>u. pg_uuid X (acc_TenantID a) = Some u \<longrightarrow> u = t)"

lemma confined_visible: "counter_tenant_visible X a r \<Longrightarrow> confined X a t \<Longrightarrow> r = Some t"
  by (cases r) (auto simp: confined_def counter_tenant_visible_def)

lemma confined_row: "counter_tenant_visible X a (Some u) \<Longrightarrow> confined X a t \<Longrightarrow> u = t"
  using confined_visible by fastforce

lemma filter_update_inside:
  assumes "\<And>r. P r \<Longrightarrow> \<not> Q r \<and> \<not> Q (f r)"
  shows "filter Q (update_where P f xs) = filter Q xs"
  using assms by (intro filter_update_where) auto

lemma filter_delete_inside: "(\<And>r. hit r \<Longrightarrow> \<not> Q r) \<Longrightarrow> filter Q (filter (\<lambda>r. \<not> hit r) xs) = filter Q xs"
  by (induction xs) auto

section \<open>Statements\<close>

named_theorems respects \<open>statements that keep the rows of other tenants\<close>

lemma insert_tenant_respects [respects]:
  "insert_tenant_stmt X a tn db = Inr (u, db') \<Longrightarrow> confined X a t \<Longrightarrow> same_foreign t db db'"
  by (auto simp: insert_tenant_stmt_def foreign_def dest!: confined_row split: option.splits if_splits)

lemma insert_counter_respects [respects]:
  "insert_counter_stmt X a c db = Inr db' \<Longrightarrow> confined X a t \<Longrightarrow> same_foreign t db db'"
  by (auto simp: insert_counter_stmt_def foreign_def dest!: confined_row split: option.splits if_splits)

lemma insert_operation_row_respects:
  "insert_operation_row X a r db = Inr (Some db') \<Longrightarrow> confined X a t \<Longrightarrow> same_foreign t db db'"
  by (auto simp: insert_operation_row_def foreign_def dest!: confined_row split: if_splits)

lemma insert_initial_respects [respects]:
  "insert_initial_stmt X a tenantID counterID v now db = Inr db' \<Longrightarrow> confined X a t \<Longrightarrow> same_foreign t db db'"
  by (auto simp: insert_initial_stmt_def dest: insert_operation_row_respects split: option.splits sum.splits)

lemma insert_operation_respects [respects]:
  "insert_operation_stmt X a tenantID counterID oid kind delta h actorID meta now db = Inr (Some (i, db')) \<Longrightarrow>
   confined X a t \<Longrightarrow> same_foreign t db db'"
  by (auto simp: insert_operation_stmt_def dest: insert_operation_row_respects split: option.splits sum.splits)

lemma update_counter_respects [respects]:
  "update_counter_stmt X a tenantID counterID v now db = Inr db' \<Longrightarrow> confined X a t \<Longrightarrow> same_foreign t db db'"
  by (auto simp: update_counter_stmt_def foreign_def split: option.splits
      intro!: filter_update_inside dest!: confined_row [of _ _ _ t])

lemma complete_operation_respects [respects]:
  "complete_operation_stmt X a tenantID oid before after now db = Inr db' \<Longrightarrow> confined X a t \<Longrightarrow> same_foreign t db db'"
  by (auto simp: complete_operation_stmt_def foreign_def split: option.splits
      intro!: filter_update_inside dest!: confined_row [of _ _ _ t])

lemma insert_audit_respects [respects]:
  "insert_audit_stmt X a ev db = Inr db' \<Longrightarrow> confined X a t \<Longrightarrow> same_foreign t db db'"
  by (auto simp: insert_audit_stmt_def foreign_def Let_def dest!: confined_visible split: option.splits if_splits)

lemma insert_credential_respects [respects]:
  "insert_credential_stmt X a c db = Inr db' \<Longrightarrow> confined X a t \<Longrightarrow> same_foreign t db db'"
  by (auto simp: insert_credential_stmt_def foreign_def Let_def credential_write_def dest!: confined_visible
      split: option.splits if_splits)

lemma revoke_credential_respects [respects]:
  "revoke_credential_stmt X a i tm db = Inr (n, db') \<Longrightarrow> confined X a t \<Longrightarrow> same_foreign t db db'"
  by (auto simp: revoke_credential_stmt_def foreign_def Let_def credential_write_def dest!: confined_visible [of _ _ _ t]
      intro!: filter_update_inside split: option.splits)

lemma insert_metadata_respects [respects]:
  "insert_metadata_stmt X a tenantID counterID data fresh now db = Inr (r, db') \<Longrightarrow> confined X a t \<Longrightarrow> same_foreign t db db'"
  by (auto simp: insert_metadata_stmt_def foreign_def Let_def dest!: confined_row split: option.splits sum.splits if_splits)

lemma update_metadata_respects [respects]:
  "update_metadata_stmt X a tenantID counterID data expected fresh now db = Inr (r, db') \<Longrightarrow> confined X a t \<Longrightarrow>
   same_foreign t db db'"
  by (auto simp: update_metadata_stmt_def foreign_def Let_def intro!: filter_update_inside dest!: confined_row [of _ _ _ t]
      split: option.splits sum.splits)

lemma delete_metadata_respects [respects]:
  assumes "delete_metadata_stmt X a tenantID counterID expected db = Inr (n, db')" and c: "confined X a t"
  shows "same_foreign t db db'"
proof -
  obtain u c' v where "pg_uuid X tenantID = Some u" "pg_uuid X counterID = Some c'" "pg_uuid X expected = Some v"
    using assms(1) by (auto simp: delete_metadata_stmt_def split: option.splits)
  note ids = this
  let ?hit = "\<lambda>r. metadata_of u c' r \<and> md_version r = v \<and> counter_tenant_visible X a (Some (md_tenant_id r))"
  have "db' = db\<lparr>metadata_rows := filter (\<lambda>r. \<not> ?hit r) (metadata_rows db)\<rparr>"
    using assms(1) ids by (simp add: delete_metadata_stmt_def Let_def)
  moreover have "filter (\<lambda>r. md_tenant_id r \<noteq> t) (filter (\<lambda>r. \<not> ?hit r) (metadata_rows db)) =
      filter (\<lambda>r. md_tenant_id r \<noteq> t) (metadata_rows db)"
    by (rule filter_delete_inside) (use confined_row [OF _ c] in blast)
  ultimately show ?thesis by (simp add: foreign_def del: de_Morgan_conj filter_filter)
qed

section \<open>Operations\<close>

lemma CreateCounter_respects:
  assumes "confined X (AccessFromContext ctx) t"
  shows "same_foreign t db (snd (CreateCounter X f ctx c db))"
  unfolding CreateCounter_def
  by (rule rows.BeginWrite_R) (auto simp: CreateCounter_body_def exec_Inr split: sum.split dest!: respects [OF _ assms])

lemma incrementCounter_respects:
  assumes "confined X (AccessFromContext ctx) t"
  shows "same_foreign t db (snd (incrementCounter X f ctx tenantID counterID delta oid h actorID now db))"
  unfolding incrementCounter_def
  by (rule rows.BeginWrite_R)
    (auto simp: incrementCounter_body_def Let_def exec_Inr split: sum.split option.split prod.split dest!: respects [OF _ assms])

lemma setCounterValue_respects:
  assumes "confined X (AccessFromContext ctx) t"
  shows "same_foreign t db (snd (setCounterValueWithOperation X f ctx tenantID counterID v oid h actorID now db))"
  unfolding setCounterValueWithOperation_def
  by (rule rows.BeginWrite_R)
    (auto simp: setCounterValue_body_def Let_def exec_Inr split: sum.split option.split prod.split dest!: respects [OF _ assms])

lemma MetadataStore_Put_respects:
  assumes "confined X (AccessFromContext ctx) t"
  shows "same_foreign t db (snd (MetadataStore_Put X f ctx fresh now tenantID counterID data expected create db))"
  unfolding MetadataStore_Put_def
  by (rule rows.BeginWrite_R) (auto simp: exec_Inr split: sum.split bool.split prod.split dest!: respects [OF _ assms])

lemma MetadataStore_Delete_respects:
  assumes "confined X (AccessFromContext ctx) t"
  shows "same_foreign t db (snd (MetadataStore_Delete X f ctx tenantID counterID expected db))"
  unfolding MetadataStore_Delete_def
  by (rule rows.BeginWrite_R) (auto simp: exec_Inr split: sum.split bool.split prod.split dest!: respects [OF _ assms])

lemma CreateCredentialAndAudit_respects:
  assumes "confined X (AccessFromContext ctx) t"
  shows "same_foreign t db (snd (CreateCredentialAndAudit X f ctx c ev db))"
  unfolding CreateCredentialAndAudit_def
  by (rule rows.BeginWrite_R) (auto simp: exec_Inr split: sum.split dest!: respects [OF _ assms])

lemma RevokeCredentialAndAudit_respects:
  assumes "confined X (AccessFromContext ctx) t"
  shows "same_foreign t db (snd (RevokeCredentialAndAudit X f ctx i tm ev db))"
  unfolding RevokeCredentialAndAudit_def
  by (rule rows.BeginWrite_R) (auto simp: exec_Inr split: sum.split prod.split dest!: respects [OF _ assms])

lemma CreateTenant_respects:
  assumes "confined X (AccessFromContext ctx) t"
  shows "same_foreign t db (snd (CreateTenant X f ctx tn db))"
proof -
  have "same_foreign t db (snd (ExecutorFor f ctx SInsertTenant (insert_tenant_stmt X (AccessFromContext ctx) tn) db))"
    by (rule rows.ExecutorFor_R) (erule insert_tenant_respects [OF _ assms])
  then show ?thesis by (auto simp: CreateTenant_def split: prod.split sum.split)
qed

lemma purge_requests_respects:
  assumes "purge_requests_stmt X a scope key now db = Inr db'" and c: "confined X a t"
  shows "same_foreign t db db'"
proof -
  obtain k where k: "pg_uuid X key = Some k" using assms(1) by (auto simp: purge_requests_stmt_def split: option.splits)
  let ?hit = "\<lambda>r. ir_scope r = scope \<and> ir_key r = k \<and> ir_expires_at r \<le> now \<and> request_visible X a r"
  have "db' = db\<lparr>idempotency_rows := filter (\<lambda>r. \<not> ?hit r) (idempotency_rows db)\<rparr>"
    using assms(1) k by (simp add: purge_requests_stmt_def)
  moreover have "filter (\<lambda>r. ir_tenant_id r \<noteq> Some t) (filter (\<lambda>r. \<not> ?hit r) (idempotency_rows db)) =
      filter (\<lambda>r. ir_tenant_id r \<noteq> Some t) (idempotency_rows db)"
    by (rule filter_delete_inside) (use confined_visible [OF _ c] in \<open>auto simp: request_visible_def\<close>)
  ultimately show ?thesis by (simp add: foreign_def del: de_Morgan_conj filter_filter)
qed

lemma insert_request_respects:
  "insert_request_stmt X a row now db = Inr db' \<Longrightarrow> confined X a t \<Longrightarrow> same_foreign t db db'"
  by (auto simp: insert_request_stmt_def foreign_def Let_def request_visible_def dest!: confined_visible
      split: option.splits if_splits)

text \<open>So every handler keeps the rows of the other tenants.\<close>

interpretation iso: operation_laws "same_foreign t" X "\<lambda>a. confined X a t" for X t
  apply unfold_locales
  using CreateTenant_respects apply (metis snd_conv)
  using CreateCounter_respects apply (metis snd_conv)
  using incrementCounter_respects apply (metis snd_conv)
  using setCounterValue_respects apply (metis snd_conv)
  using MetadataStore_Put_respects apply (metis snd_conv)
  using MetadataStore_Delete_respects apply (metis snd_conv)
  using CreateCredentialAndAudit_respects apply (metis snd_conv)
  using RevokeCredentialAndAudit_respects apply (metis snd_conv)
  using purge_requests_respects apply blast
  using insert_request_respects apply blast
  done

end
