(* ===== verification/Append_Only.thy ===== *)
theory Append_Only
  imports Tables "HOL-Library.Sublist"
begin

text \<open>
  The ledger and the audit trail are append-only and the tables stay well formed, whatever request is
  served: every counter keeps the identity it was created with, its value is the sum of its operations,
  and no recorded operation or audit event is ever changed or removed.
\<close>

section \<open>The relation\<close>

text \<open>The columns of a counter that no statement updates.\<close>

definition fixed_columns :: "counter \<Rightarrow> string \<times> string \<times> string \<times> int64 \<times> time" where
  "fixed_columns c = (ctr_tenant_id c, ctr_id c, ctr_label c, ctr_max_delta c, ctr_created_at c)"

definition appended :: "externals \<Rightarrow> database \<Rightarrow> database \<Rightarrow> bool" where
  "appended X db db' \<longleftrightarrow>
     (pg_laws X \<and> wf_database X db \<longrightarrow> wf_database X db') \<and>
     prefix (operations db) (operations db') \<and>
     prefix (audit_events db) (audit_events db') \<and>
     prefix (map fixed_columns (counters db)) (map fixed_columns (counters db'))"

lemma appended_refl: "appended X db db"
  by (simp add: appended_def)

lemma appended_trans: "appended X a b \<Longrightarrow> appended X b c \<Longrightarrow> appended X a c"
  by (auto simp: appended_def intro: prefix_order.trans)

interpretation history: transaction_frame "appended X" for X
  by unfold_locales (fact appended_refl appended_trans)+

text \<open>A change outside counters, operations and audit events.\<close>

lemma appended_elsewhere:
  assumes "counters db' = counters db" "operations db' = operations db" "prefix (audit_events db) (audit_events db')"
  shows "appended X db db'"
  using assms wf_database_cong [OF assms(1,2)] by (simp add: appended_def)

lemma fixed_columns_update:
  "map fixed_columns (update_where P (\<lambda>r. r\<lparr>ctr_value := v, ctr_updated_at := now\<rparr>) cs) = map fixed_columns cs"
  by (induction cs) (auto simp: update_where_def fixed_columns_def)

section \<open>The operations keep it\<close>

lemma CreateTenant_appended: "appended X db (snd (CreateTenant X f ctx tn db))"
proof -
  have "appended X db (snd (ExecutorFor f ctx SInsertTenant (insert_tenant_stmt X (AccessFromContext ctx) tn) db))"
    by (rule history.ExecutorFor_R)
      (auto simp: insert_tenant_stmt_def split: option.splits if_splits intro!: appended_elsewhere)
  then show ?thesis by (auto simp: CreateTenant_def split: prod.split sum.split)
qed

lemma CreateCounter_appended:
  assumes "CreateCounter X f ctx c db = (r, db')" "finished ctx r" "in_int64 (ctr_value c)"
  shows "appended X db db'"
proof (rule history.BeginWrite_settled_R [OF assms(1) [unfolded CreateCounter_def] assms(2)])
  fix v d'
  assume b: "CreateCounter_body X f (AccessFromContext ctx) c db = (Inr v, d')"
  then have "prefix (operations db) (operations d')" "audit_events d' = audit_events db"
    "prefix (map fixed_columns (counters db)) (map fixed_columns (counters d'))"
    by (auto elim!: CreateCounter_body_Inr)
  with wf_CreateCounter_body [OF b] assms(3) show "appended X db d'" by (auto simp: appended_def)
qed

lemma incrementCounter_appended:
  assumes "incrementCounter X f ctx tenantID counterID delta oid h actorID now db = (r, db')" "finished ctx r" "in_int64 delta"
  shows "appended X db db'"
proof (rule history.BeginWrite_settled_R [OF assms(1) [unfolded incrementCounter_def] assms(2)])
  fix v d'
  assume b: "incrementCounter_body X f ctx tenantID counterID delta oid h actorID now db = (Inr v, d')"
  then have "prefix (operations db) (operations d')" "audit_events d' = audit_events db"
    "prefix (map fixed_columns (counters db)) (map fixed_columns (counters d'))"
    by (auto elim!: incrementCounter_body_Inr simp: record_mutation_def fixed_columns_update)
  with wf_incrementCounter_body [OF b] assms(3) show "appended X db d'" by (auto simp: appended_def)
qed

lemma setCounterValue_appended:
  assumes "setCounterValueWithOperation X f ctx tenantID counterID v oid h actorID now db = (r, db')" "finished ctx r" "in_int64 v"
  shows "appended X db db'"
proof (rule history.BeginWrite_settled_R [OF assms(1) [unfolded setCounterValueWithOperation_def] assms(2)])
  fix m d'
  assume b: "setCounterValue_body X f ctx tenantID counterID v oid h actorID now db = (Inr m, d')"
  then have "prefix (operations db) (operations d')" "prefix (audit_events db) (audit_events d')"
    "prefix (map fixed_columns (counters db)) (map fixed_columns (counters d'))"
    by (auto elim!: setCounterValue_body_Inr simp: record_mutation_def fixed_columns_update)
  with wf_setCounterValue_body [OF b] assms(3) show "appended X db d'" by (auto simp: appended_def)
qed

lemma metadata_statements_appended:
  "insert_metadata_stmt X a tenantID counterID data fresh now db = Inr (r, d) \<Longrightarrow> appended X db d"
  "update_metadata_stmt X a tenantID counterID data expected fresh now db = Inr (r, d) \<Longrightarrow> appended X db d"
  "delete_metadata_stmt X a tenantID counterID expected db = Inr (n, d) \<Longrightarrow> appended X db d"
  by (auto simp: insert_metadata_stmt_def update_metadata_stmt_def delete_metadata_stmt_def Let_def
      split: option.splits sum.splits if_splits intro!: appended_elsewhere)

lemma MetadataStore_appended:
  "appended X db (snd (MetadataStore_Put X f ctx fresh now tenantID counterID data expected create db))"
  "appended X db (snd (MetadataStore_Delete X f ctx tenantID counterID expected db))"
  unfolding MetadataStore_Put_def MetadataStore_Delete_def
  by (rule history.BeginWrite_R;
      auto simp: exec_Inr appended_refl split: sum.split bool.split prod.split dest: metadata_statements_appended)+

lemma credential_statements_appended:
  "insert_credential_stmt X a c db = Inr d \<Longrightarrow> appended X db d"
  "revoke_credential_stmt X a i tm db = Inr (n, d) \<Longrightarrow> appended X db d"
  "insert_audit_stmt X a ev db = Inr d \<Longrightarrow> appended X db d"
  by (auto simp: insert_credential_stmt_def revoke_credential_stmt_def insert_audit_stmt_def Let_def
      split: option.splits if_splits intro!: appended_elsewhere)

lemma credential_operations_appended:
  "appended X db (snd (CreateCredentialAndAudit X f ctx c ev db))"
  "appended X db (snd (RevokeCredentialAndAudit X f ctx i tm ev db))"
  unfolding CreateCredentialAndAudit_def RevokeCredentialAndAudit_def
  by (rule history.BeginWrite_R;
      auto simp: exec_Inr appended_refl split: sum.split prod.split
        dest: credential_statements_appended appended_trans [OF credential_statements_appended(1)]
          appended_trans [OF credential_statements_appended(2)])+

lemma request_statements_appended:
  "purge_requests_stmt X a scope key now db = Inr d \<Longrightarrow> appended X db d"
  "insert_request_stmt X a row now db = Inr d \<Longrightarrow> appended X db d"
  by (auto simp: purge_requests_stmt_def insert_request_stmt_def Let_def split: option.splits if_splits intro!: appended_elsewhere)

interpretation ledger: operation_laws "appended X" X "\<lambda>a. True" for X
  apply unfold_locales
  using CreateTenant_appended apply (metis snd_conv)
  using CreateCounter_appended apply blast
  using incrementCounter_appended apply blast
  using setCounterValue_appended apply blast
  using MetadataStore_appended apply (metis snd_conv, metis snd_conv)
  using credential_operations_appended apply (metis snd_conv, metis snd_conv)
  using request_statements_appended apply blast+
  done

end
