(* ===== verification/Serving.thy ===== *)
theory Serving
  imports Router Isolation Append_Only
begin

text \<open>
  The whole program as it answers one request: what a request may change in the tables, who may change
  it, and in which tenant.
\<close>

section \<open>Guards\<close>

text \<open>The access that \<open>TenantAccess\<close> gives a principal for the tenant of the route.\<close>

definition route_access :: "externals \<Rightarrow> principal \<Rightarrow> string \<Rightarrow> access" where
  "route_access X p tenantID =
     \<lparr>acc_TenantID = (if tenantID = [] then [] else the (uuid_parse X tenantID)), acc_PrincipalID = pr_CredentialID p,
      acc_Admin = pr_IsAdmin p, acc_AuthenticationID = []\<rparr>"

text \<open>
  The condition under which \<open>TenantAccess\<close> lets a principal through: a tenant that is well formed, and for all
  but administrators the tenant of the principal.
\<close>

definition tenant_allowed :: "externals \<Rightarrow> principal \<Rightarrow> string \<Rightarrow> bool" where
  "tenant_allowed X p tenantID \<longleftrightarrow>
     (tenantID = [] \<or> ValidateUUID X tenantID = None) \<and>
     (pr_IsAdmin p \<or> tenantID \<noteq> [] \<and> pr_TenantID p \<noteq> [] \<and> the (uuid_parse X tenantID) = pr_TenantID p)"

lemma TenantAccess_cases:
  obtains (refused) "cx_db (TenantAccess h X e cx) = cx_db cx"
  | (granted) p cx' where "cx_principal cx = Some p" "tenant_allowed X p (user_value (cx_tenant_id cx))"
      "AccessFromContext (requestDatabaseContext cx') = route_access X p (user_value (cx_tenant_id cx))"
      "ctx_tx (requestDatabaseContext cx') = ctx_tx (requestDatabaseContext cx)"
      "cx_db cx' = cx_db cx" "cx_db (TenantAccess h X e cx) = cx_db (h X e cx')"
proof (cases "\<exists>p. cx_principal cx = Some p \<and> tenant_allowed X p (user_value (cx_tenant_id cx))")
  case False
  then have "cx_db (TenantAccess h X e cx) = cx_db cx"
    by (auto simp: TenantAccess_def tenant_allowed_def Let_def split: option.split)
  then show thesis by (rule refused)
next
  case True
  then obtain p where p: "cx_principal cx = Some p" "tenant_allowed X p (user_value (cx_tenant_id cx))" by blast
  let ?t = "user_value (cx_tenant_id cx)"
  let ?cx = "if ?t = [] then cx else cx\<lparr>cx_tenant_id := Some (the (uuid_parse X ?t))\<rparr>"
  let ?cx' = "?cx\<lparr>cx_transaction := Some (WithAccess (requestDatabaseContext ?cx) (route_access X p ?t))\<rparr>"
  have ctx: "requestDatabaseContext ?cx = requestDatabaseContext cx" by (simp add: requestDatabaseContext_def split: option.split)
  have req: "requestDatabaseContext ?cx' = WithAccess (requestDatabaseContext cx) (route_access X p ?t)"
    unfolding ctx by (simp add: requestDatabaseContext_def)
  have "TenantAccess h X e cx = (h X e ?cx')\<lparr>cx_transaction := None\<rparr>"
    using p by (auto simp: TenantAccess_def tenant_allowed_def route_access_def Let_def)
  then have same: "cx_db (TenantAccess h X e cx) = cx_db (h X e ?cx')" by simp
  have acc: "AccessFromContext (requestDatabaseContext ?cx') = route_access X p ?t"
    "ctx_tx (requestDatabaseContext ?cx') = ctx_tx (requestDatabaseContext cx)"
    unfolding req by (simp_all add: WithAccess_def AccessFromContext_def)
  have db: "cx_db ?cx' = cx_db cx" by simp
  show thesis by (rule granted [OF p acc db same])
qed

section \<open>Every route keeps the relation\<close>

text \<open>A handler that keeps the relation when it runs outside a transaction.\<close>

definition keeps_alone :: "(database \<Rightarrow> database \<Rightarrow> bool) \<Rightarrow> externals \<Rightarrow> (access \<Rightarrow> bool) \<Rightarrow> handler \<Rightarrow> bool" where
  "keeps_alone R X ok h \<longleftrightarrow>
     (\<forall>e cx. ok (AccessFromContext (requestDatabaseContext cx)) \<longrightarrow> \<not> ctx_tx (requestDatabaseContext cx) \<longrightarrow>
        R (cx_db cx) (cx_db (h X e cx)))"

lemma keeps_alone_if_keeps: "keeps R X ok h \<Longrightarrow> keeps_alone R X ok h"
  by (simp add: keeps_def keeps_alone_def settled_def)

text \<open>
  The tables are as before, or the handler of the route ran for a principal whom its guards let
  through, with the access of that principal to the tenant of the route.
\<close>

definition reached :: "externals \<Rightarrow> env \<Rightarrow> string \<Rightarrow> handler \<Rightarrow> request_ctx \<Rightarrow> principal \<Rightarrow> database \<Rightarrow> bool" where
  "reached X e tenantID h cx p db' \<longleftrightarrow>
     cx_principal cx = Some p \<and> tenant_allowed X p tenantID \<and>
     (\<exists>cx'. AccessFromContext (requestDatabaseContext cx') = route_access X p tenantID \<and>
        \<not> ctx_tx (requestDatabaseContext cx') \<and> cx_db cx' = cx_db cx \<and> db' = cx_db (h X e cx'))"

definition fresh_ctx :: "request_ctx \<Rightarrow> bool" where
  "fresh_ctx cx \<longleftrightarrow> cx_tenant_id cx = None \<and> cx_transaction cx = None \<and> \<not> ctx_tx (cx_database cx)"

lemma set_param_frame [simp]:
  "cx_db (set_param ps cx) = cx_db cx" "cx_principal (set_param ps cx) = cx_principal cx"
  "requestDatabaseContext (set_param ps cx) = requestDatabaseContext cx"
  "fresh_ctx cx \<Longrightarrow> user_value (cx_tenant_id (set_param ps cx)) = ps ''tenant_id''"
  by (auto simp: set_param_def requestDatabaseContext_def fresh_ctx_def Let_def split: option.split)

lemma dataHandler_cases:
  assumes "fresh_ctx cx"
  shows "cx_db (dataHandler h ps X e cx) = cx_db cx \<or>
    (\<exists>p. reached X e (ps ''tenant_id'') h cx p (cx_db (dataHandler h ps X e cx)))"
proof (cases "rs_Status (cx_response cx) \<noteq> 200 \<and> rs_Status (cx_response cx) \<noteq> 404")
  case True
  then show ?thesis by (simp add: dataHandler_def toHandler_def)
next
  case False
  then have d: "dataHandler h ps X e cx = TenantAccess h X e (set_param ps cx)"
    by (auto simp: dataHandler_def toHandler_def)
  have tx: "\<not> ctx_tx (requestDatabaseContext cx)"
    using assms by (simp add: fresh_ctx_def requestDatabaseContext_def WithRequestID_def)
  show ?thesis
  proof (cases rule: TenantAccess_cases [of h X e "set_param ps cx"])
    case refused
    then show ?thesis by (simp add: d)
  next
    case (granted p cx')
    with assms tx have "reached X e (ps ''tenant_id'') h cx p (cx_db (TenantAccess h X e (set_param ps cx)))"
      unfolding reached_def by auto
    then show ?thesis unfolding d by blast
  qed
qed

lemma RequireAdmin_cases:
  assumes "fresh_ctx cx"
  shows "cx_db (RequireAdminRouting (dataHandler h) ps X e cx) = cx_db cx \<or>
    (\<exists>p. pr_IsAdmin p \<and> reached X e (ps ''tenant_id'') h cx p (cx_db (RequireAdminRouting (dataHandler h) ps X e cx)))"
  using dataHandler_cases [OF assms, of h ps X e]
  by (auto simp: RequireAdminRouting_def respondUnauthorized_def respondForbidden_def reached_def split: option.split)

lemma RequireScopes_cases:
  assumes "fresh_ctx cx"
  shows "cx_db (RequireScopesRouting ss (dataHandler h) ps X e cx) = cx_db cx \<or>
    (\<exists>p. PrincipalAuthorized p (ps ''tenant_id'') ss \<and>
       reached X e (ps ''tenant_id'') h cx p (cx_db (RequireScopesRouting ss (dataHandler h) ps X e cx)))"
  using dataHandler_cases [OF assms, of h ps X e]
  by (auto simp: RequireScopesRouting_def respondUnauthorized_def respondForbidden_def reached_def split: option.split)

section \<open>Routes\<close>

definition admin_handlers :: "handler list" where
  "admin_handlers =
     [IdempotentMutation False CreateTenantServiceHandler, IdempotentMutation True CreateCredentialServiceHandler,
      IdempotentMutation True RotateCredentialServiceHandler, IdempotentMutation False RevokeCredentialServiceHandler,
      IdempotentMutation True CreateAdminCredentialServiceHandler]"

definition served_handlers :: "handler set" where
  "served_handlers = set admin_handlers \<union> (\<lambda>(_, _, _, h). h) ` set scoped_table"

text \<open>The right to a route: administrators, or the holders of its scope in their own tenant.\<close>

definition entitled :: "route \<Rightarrow> principal \<Rightarrow> string \<Rightarrow> bool" where
  "entitled r p tenantID \<longleftrightarrow>
     pr_IsAdmin p \<or>
     (\<exists>scope h. (rt_method r, rt_pattern r, scope, h) \<in> set scoped_table \<and> scope \<in> set (pr_Scopes p) \<and>
        tenantID \<noteq> [] \<and> pr_TenantID p = tenantID)"

lemma public_routes_inert: "r \<in> set (public_routes o') \<Longrightarrow> cx_db (rt_handler r ps X e cx) = cx_db cx"
  by (auto simp: public_routes_def toHandler_def page_handler_def LivenessHandler_def ReadinessHandler_def)

lemma admin_routes_cases:
  assumes "r \<in> set (admin_routes o')"
  obtains "\<And>ps X e cx. cx_db (rt_handler r ps X e cx) = cx_db cx"
  | h where "h \<in> set admin_handlers" "rt_handler r = RequireAdminRouting (dataHandler h)"
proof -
  have "cx_db (RequireAdminRouting (toHandler (MetricsHandler render)) ps X e cx) = cx_db cx" for render ps X e cx
    by (auto simp: RequireAdminRouting_def toHandler_def MetricsHandler_def respondUnauthorized_def respondForbidden_def
        split: option.split)
  moreover have "(\<exists>render. rt_handler r = RequireAdminRouting (toHandler (MetricsHandler render))) \<or>
      (\<exists>h \<in> set admin_handlers. rt_handler r = RequireAdminRouting (dataHandler h))"
    using assms by (auto simp: admin_routes_def admin_handlers_def)
  ultimately show thesis using that by metis
qed

lemma route_cases:
  assumes r: "r \<in> set (registerRoutes o')" and cx: "fresh_ctx cx"
  shows "cx_db (rt_handler r ps X e cx) = cx_db cx \<or>
    (\<exists>h p. h \<in> served_handlers \<and> entitled r p (ps ''tenant_id'') \<and>
       reached X e (ps ''tenant_id'') h cx p (cx_db (rt_handler r ps X e cx)))"
proof -
  from r consider "r \<in> set (public_routes o')" | "r \<in> set (admin_routes o')" | "r = options_route"
    | row where "row \<in> set scoped_table" "r = scoped_route row"
    by (auto simp: registerRoutes_def)
  then show ?thesis
  proof cases
    case 1
    then show ?thesis using public_routes_inert by blast
  next
    case 2
    then show ?thesis
    proof (cases rule: admin_routes_cases)
      case (2 h)
      then show ?thesis using RequireAdmin_cases [OF cx, of h ps X e] by (auto simp: served_handlers_def entitled_def)
    qed blast
  next
    case 3
    then show ?thesis by (simp add: options_route_def)
  next
    case (4 row)
    obtain m p s h where row: "row = (m, p, s, h)" by (cases row)
    with 4(2) have rt: "rt_handler r = RequireScopesRouting [s] (dataHandler h)" "rt_method r = m" "rt_pattern r = p"
      by (simp_all add: scoped_route_def)
    have "h \<in> served_handlers" using 4(1) row by (force simp: served_handlers_def)
    moreover have "entitled r q (ps ''tenant_id'')" if "PrincipalAuthorized q (ps ''tenant_id'') [s]" for q
      using that 4(1) row rt(2,3) by (auto simp: entitled_def PrincipalAuthorized_def HasScope_def list_ex_iff)
    ultimately show ?thesis using RequireScopes_cases [OF cx, of "[s]" h ps X e] unfolding rt by blast
  qed
qed

lemma HandleRequest_cases:
  assumes "fresh_ctx cx"
  shows "cx_db (HandleRequest match o' X e cx) = cx_db cx \<or>
    (\<exists>r ps h p. r \<in> set (registerRoutes o') \<and> rt_method r = req_Method (cx_request cx) \<and>
       match (rt_pattern r) (req_Path (cx_request cx)) = Some ps \<and> h \<in> served_handlers \<and>
       entitled r p (route_param ps ''tenant_id'') \<and>
       reached X e (route_param ps ''tenant_id'') h cx p (cx_db (HandleRequest match o' X e cx)))"
proof (cases "find (\<lambda>r. rt_method r = req_Method (cx_request cx) \<and> match (rt_pattern r) (req_Path (cx_request cx)) \<noteq> None)
    (registerRoutes o')")
  case None
  then show ?thesis by (simp add: HandleRequest_def not_found_def)
next
  case (Some r)
  then have r: "r \<in> set (registerRoutes o')" "rt_method r = req_Method (cx_request cx)"
    "match (rt_pattern r) (req_Path (cx_request cx)) \<noteq> None"
    by (auto simp: find_Some_iff)
  then obtain ps where "match (rt_pattern r) (req_Path (cx_request cx)) = Some ps" by blast
  with Some r route_cases [OF r(1) assms, of "route_param ps" X e] show ?thesis by (auto simp: HandleRequest_def)
qed

section \<open>The chain\<close>

text \<open>The principal that the chain finds behind the key of a request.\<close>

definition legacy_key :: "router_config \<Rightarrow> string" where
  "legacy_key c = (if rc_legacyAPIKeyEnabled c then rc_apiKey c else [])"

definition request_context :: "env \<Rightarrow> request_ctx \<Rightarrow> go_context" where
  "request_context e cx = WithRequestID context_Background (fst (ensureRequestID e cx))"

definition served_principal :: "externals \<Rightarrow> env \<Rightarrow> router_config \<Rightarrow> request_ctx \<Rightarrow> principal option" where
  "served_principal X e c cx =
     (let apiKey = Header_Peek ''X-API-Key'' cx
      in if apiKey = [] then None
         else
           (case authenticate_request X (en_faults e) (request_context e cx) (legacy_key c) (en_now e) apiKey (cx_db cx) of
              Inl _ \<Rightarrow> None | Inr p \<Rightarrow> Some p))"

definition new_request :: "request_ctx \<Rightarrow> bool" where
  "new_request cx \<longleftrightarrow> cx_principal cx = None \<and> cx_tenant_id cx = None \<and> cx_transaction cx = None"

lemma cors_headers_frame [simp]:
  "cx_db (cors_headers c cx) = cx_db cx" "cx_request (cors_headers c cx) = cx_request cx"
  "cx_principal (cors_headers c cx) = cx_principal cx" "cx_tenant_id (cors_headers c cx) = cx_tenant_id cx"
  "cx_transaction (cors_headers c cx) = cx_transaction cx" "cx_database (cors_headers c cx) = cx_database cx"
  by (simp_all add: cors_headers_def Let_def)

lemma ensureRequestID_frame [simp]:
  "cx_db (snd (ensureRequestID e cx)) = cx_db cx" "cx_request (snd (ensureRequestID e cx)) = cx_request cx"
  "cx_principal (snd (ensureRequestID e cx)) = cx_principal cx" "cx_tenant_id (snd (ensureRequestID e cx)) = cx_tenant_id cx"
  "cx_transaction (snd (ensureRequestID e cx)) = cx_transaction cx"
  "cx_request_id (snd (ensureRequestID e cx)) = fst (ensureRequestID e cx)"
  by (simp_all add: ensureRequestID_def setRequestID_def Let_def)

lemma Header_Peek_cong: "cx_request cx' = cx_request cx \<Longrightarrow> Header_Peek n cx' = Header_Peek n cx"
  by (simp add: Header_Peek_def)

lemma RateLimit_cases:
  "cx_db (RateLimitWithMetrics h X e cx) = cx_db cx \<or>
   (\<exists>cx'. cx_db (RateLimitWithMetrics h X e cx) = cx_db (h X e cx') \<and> cx_db cx' = cx_db cx \<and> cx_request cx' = cx_request cx \<and>
      cx_principal cx' = cx_principal cx \<and> cx_tenant_id cx' = cx_tenant_id cx \<and> cx_transaction cx' = cx_transaction cx \<and>
      cx_database cx' = cx_database cx)"
proof -
  obtain a r f rl where l: "AllowRequestWithContext (en_shared_limit e) (en_now e) (en_now e) (rate_limit_key cx)
      (req_Method (cx_request cx) = ''GET'') (cx_limiter cx) = ((a, r, f), rl)"
    by (metis prod.exhaust)
  define cx' where "cx' = Header_Set ''X-RateLimit-Limit'' (itoa (if req_Method (cx_request cx) = ''GET''
      then rl_maxGetRequests (cx_limiter cx) else rl_maxRequests (cx_limiter cx)))
      (if f then RecordEvent_ctx ''rate_limit_backend_fallback'' (cx\<lparr>cx_limiter := rl\<rparr>) else cx\<lparr>cx_limiter := rl\<rparr>)"
  have "cx_db (RateLimitWithMetrics h X e cx) = (if a then cx_db (h X e cx') else cx_db cx)"
    unfolding RateLimitWithMetrics_def Let_def l cx'_def by simp
  moreover have "cx_db cx' = cx_db cx" "cx_request cx' = cx_request cx" "cx_principal cx' = cx_principal cx"
    "cx_tenant_id cx' = cx_tenant_id cx" "cx_transaction cx' = cx_transaction cx" "cx_database cx' = cx_database cx"
    unfolding cx'_def by simp_all
  ultimately show ?thesis by auto
qed

lemma Authenticate_cases:
  assumes "cx_principal cx = None"
  shows "cx_db (AuthenticateRequest k h X e cx) = cx_db cx \<or>
   (\<exists>cx'. cx_db (AuthenticateRequest k h X e cx) = cx_db (h X e cx') \<and> cx_db cx' = cx_db cx \<and> cx_request cx' = cx_request cx \<and>
      cx_principal cx' = (if Header_Peek ''X-API-Key'' cx = [] then None else
        (case authenticate_request X (en_faults e) (cx_database cx) k (en_now e) (Header_Peek ''X-API-Key'' cx) (cx_db cx) of
           Inl _ \<Rightarrow> None | Inr p \<Rightarrow> Some p)) \<and>
      cx_tenant_id cx' = cx_tenant_id cx \<and> cx_transaction cx' = cx_transaction cx \<and> cx_database cx' = cx_database cx)"
proof (cases "Header_Peek ''X-API-Key'' cx = []")
  case True
  with assms show ?thesis by (auto simp: AuthenticateRequest_def)
next
  case key: False
  let ?r = "authenticate_request X (en_faults e) (cx_database cx) k (en_now e) (Header_Peek ''X-API-Key'' cx) (cx_db cx)"
  show ?thesis
  proof (cases ?r)
    case (Inl err)
    with key have "cx_db (AuthenticateRequest k h X e cx) = cx_db cx"
      by (simp add: AuthenticateRequest_def Let_def respondUnauthorized_def)
    then show ?thesis by blast
  next
    case (Inr p)
    with key have "cx_db (AuthenticateRequest k h X e cx) = cx_db (h X e (cx\<lparr>cx_principal := Some p\<rparr>))"
      by (simp add: AuthenticateRequest_def Let_def)
    with key Inr show ?thesis by (intro disjI2 exI [of _ "cx\<lparr>cx_principal := Some p\<rparr>"]) simp
  qed
qed

text \<open>The inner part of the chain: rate limit and authentication around the router.\<close>

lemma inner_chain_cases:
  assumes "cx_principal cx = None" "cx_tenant_id cx = None" "cx_transaction cx = None" "\<not> ctx_tx (cx_database cx)"
  shows "cx_db (AuthenticateRequest k (RateLimitWithMetrics h) X e cx) = cx_db cx \<or>
   (\<exists>cx'. cx_db (AuthenticateRequest k (RateLimitWithMetrics h) X e cx) = cx_db (h X e cx') \<and> fresh_ctx cx' \<and>
      cx_db cx' = cx_db cx \<and> cx_request cx' = cx_request cx \<and>
      cx_principal cx' = (if Header_Peek ''X-API-Key'' cx = [] then None else
        (case authenticate_request X (en_faults e) (cx_database cx) k (en_now e) (Header_Peek ''X-API-Key'' cx) (cx_db cx) of
           Inl _ \<Rightarrow> None | Inr p \<Rightarrow> Some p)))"
  using Authenticate_cases [OF assms(1), of k "RateLimitWithMetrics h" X e]
proof (elim disjE exE conjE)
  fix cx'
  assume a: "cx_db (AuthenticateRequest k (RateLimitWithMetrics h) X e cx) = cx_db (RateLimitWithMetrics h X e cx')"
    "cx_db cx' = cx_db cx" "cx_request cx' = cx_request cx"
    "cx_principal cx' = (if Header_Peek ''X-API-Key'' cx = [] then None else
        (case authenticate_request X (en_faults e) (cx_database cx) k (en_now e) (Header_Peek ''X-API-Key'' cx) (cx_db cx) of
           Inl _ \<Rightarrow> None | Inr p \<Rightarrow> Some p))"
    "cx_tenant_id cx' = cx_tenant_id cx" "cx_transaction cx' = cx_transaction cx" "cx_database cx' = cx_database cx"
  from RateLimit_cases [of h X e cx'] show ?thesis
  proof (elim disjE exE conjE)
    fix cy
    assume b: "cx_db (RateLimitWithMetrics h X e cx') = cx_db (h X e cy)" "cx_db cy = cx_db cx'" "cx_request cy = cx_request cx'"
      "cx_principal cy = cx_principal cx'" "cx_tenant_id cy = cx_tenant_id cx'" "cx_transaction cy = cx_transaction cx'"
      "cx_database cy = cx_database cx'"
    then have "fresh_ctx cy" using a(5-7) assms(2-4) by (simp add: fresh_ctx_def)
    with a b show ?thesis by (intro disjI2 exI [of _ cy]) simp
  qed (simp add: a)
qed simp

lemma observed_chain_cases:
  assumes "new_request cx"
  shows "cx_db (observed_chain match o' c X e cx) = cx_db cx \<or>
    (\<exists>cx'. cx_db (observed_chain match o' c X e cx) = cx_db (HandleRequest match o' X e cx') \<and> fresh_ctx cx' \<and>
       cx_db cx' = cx_db cx \<and> cx_request cx' = cx_request cx \<and> cx_principal cx' = served_principal X e c cx)"
proof -
  let ?h = "AuthenticateRequest (legacy_key c) (RateLimitWithMetrics (HandleRequest match o'))"
  obtain rid cx1 where rid: "ensureRequestID e cx = (rid, cx1)" by (cases "ensureRequestID e cx")
  define dl where "dl = en_now e + request_timeout (rc_timeouts c) (req_Method (cx_request cx))"
  define cx2 where "cx2 = cx1\<lparr>cx_client_ip := Some (CanonicalClientIP cx1), cx_database := WithRequestID context_Background rid,
    cx_deadline := Some dl, cx_database_deadline := Some (DatabaseContext (en_now e) dl (to_Database (effective_timeouts (rc_timeouts c))))\<rparr>"
  define cx3 where "cx3 = cors_headers (rc_cors c) cx2"
  have cx1: "cx_request_id cx1 = rid" "cx_db cx1 = cx_db cx" "cx_request cx1 = cx_request cx" "cx_principal cx1 = cx_principal cx"
    "cx_tenant_id cx1 = cx_tenant_id cx" "cx_transaction cx1 = cx_transaction cx"
    using ensureRequestID_frame [of e cx] unfolding rid by simp_all
  have db: "cx_db (observed_chain match o' c X e cx) =
      cx_db (ConcurrencyLimitWithMetrics (rc_maxConcurrency c) (CORS (rc_cors c) ?h) X e cx2)"
    unfolding observed_chain_def LoggingWithLoggerAndMetrics_def ClientIdentity_def RequestContext_def rid
      Let_def case_prod_conv legacy_key_def cx2_def dl_def cx1(1) [symmetric] by (simp add: Log_def cx1)
  have "cx_db (observed_chain match o' c X e cx) = cx_db cx2 \<or> cx_db (observed_chain match o' c X e cx) = cx_db (?h X e cx3)"
    unfolding db by (simp add: ConcurrencyLimitWithMetrics_def CORS_def Let_def cx3_def)
  moreover have "cx_db cx2 = cx_db cx" "cx_db cx3 = cx_db cx" "cx_request cx3 = cx_request cx" "cx_principal cx3 = None"
    "cx_tenant_id cx3 = None" "cx_transaction cx3 = None" "cx_database cx3 = request_context e cx"
    using assms by (simp_all add: cx2_def cx3_def cx1 new_request_def request_context_def rid)
  moreover have "\<not> ctx_tx (request_context e cx)" by (simp add: request_context_def WithRequestID_def context_Background_def)
  ultimately show ?thesis
    using inner_chain_cases [of cx3 "legacy_key c" "HandleRequest match o'" X e] Header_Peek_cong [of cx3 cx]
    unfolding served_principal_def Let_def by auto
qed

lemma ensureRequestID_again:
  "fst (ensureRequestID e (snd (ensureRequestID e cx))) = fst (ensureRequestID e cx)"
proof -
  let ?cx = "snd (ensureRequestID e cx)"
  have "requestIDFromHeader ?cx = requestIDFromHeader cx" by (simp add: requestIDFromHeader_def Header_Peek_def)
  then show ?thesis by (auto simp: ensureRequestID_def [of e ?cx] Let_def) (auto simp: ensureRequestID_def Let_def split: if_splits)
qed

lemma chain_cases:
  assumes "new_request cx"
  shows "cx_db (NewRouterWithObservability match o' c X e cx) = cx_db cx \<or>
    (\<exists>cx'. cx_db (NewRouterWithObservability match o' c X e cx) = cx_db (HandleRequest match o' X e cx') \<and> fresh_ctx cx' \<and>
       cx_db cx' = cx_db cx \<and> cx_request cx' = cx_request cx \<and> cx_principal cx' = served_principal X e c cx)"
proof -
  let ?cx = "if rc_sentryDSN c \<noteq> [] then snd (ensureRequestID e cx) else cx"
  have new: "new_request ?cx" "cx_db ?cx = cx_db cx" "cx_request ?cx = cx_request cx"
    using assms by (simp_all add: new_request_def)
  have "request_context e ?cx = request_context e cx" by (simp add: request_context_def ensureRequestID_again)
  then have p: "served_principal X e c ?cx = served_principal X e c cx"
    using new(2,3) Header_Peek_cong [OF new(3)] by (simp only: served_principal_def)
  have "cx_db (NewRouterWithObservability match o' c X e cx) = cx_db (observed_chain match o' c X e ?cx)"
    by (simp add: NewRouterWithObservability_def Recover_def NewSentryHandler_def Let_def split: option.split)
  with observed_chain_cases [OF new(1), of match o' c X e] show ?thesis unfolding p new(2,3) by simp
qed

lemma served_cases:
  assumes "new_request cx"
  shows "cx_db (NewRouterWithObservability match o' c X e cx) = cx_db cx \<or>
    (\<exists>r ps h p cx'. r \<in> set (registerRoutes o') \<and> rt_method r = req_Method (cx_request cx) \<and>
       match (rt_pattern r) (req_Path (cx_request cx)) = Some ps \<and> h \<in> served_handlers \<and>
       served_principal X e c cx = Some p \<and> entitled r p (route_param ps ''tenant_id'') \<and> cx_db cx' = cx_db cx \<and>
       reached X e (route_param ps ''tenant_id'') h cx' p (cx_db (NewRouterWithObservability match o' c X e cx)))"
  using chain_cases [OF assms, of match o' c X e]
proof (elim disjE exE conjE)
  fix cx'
  assume a: "cx_db (NewRouterWithObservability match o' c X e cx) = cx_db (HandleRequest match o' X e cx')" "fresh_ctx cx'"
    "cx_db cx' = cx_db cx" "cx_request cx' = cx_request cx" "cx_principal cx' = served_principal X e c cx"
  from HandleRequest_cases [OF a(2), of match o' X e] show ?thesis
  proof (elim disjE exE conjE)
    fix r ps h p
    assume b: "reached X e (route_param ps ''tenant_id'') h cx' p (cx_db (HandleRequest match o' X e cx'))"
      and c: "r \<in> set (registerRoutes o')" "rt_method r = req_Method (cx_request cx')"
        "match (rt_pattern r) (req_Path (cx_request cx')) = Some ps" "h \<in> served_handlers" "entitled r p (route_param ps ''tenant_id'')"
    from b a(5) have "served_principal X e c cx = Some p" by (simp add: reached_def)
    with a b c show ?thesis by metis
  qed (simp add: a)
qed simp

section \<open>What a request may change\<close>

context operation_laws
begin

lemma served_handlers_R: "h \<in> served_handlers \<Longrightarrow> keeps_alone R X ok h"
  using handlers_R [THEN keeps_alone_if_keeps] IdempotentMutation_R handlers_R
  by (auto simp: served_handlers_def admin_handlers_def scoped_table_def keeps_alone_def)

lemma reached_R:
  assumes "reached X e tenantID h cx p db'" "h \<in> served_handlers" "tenant_allowed X p tenantID \<Longrightarrow> ok (route_access X p tenantID)"
  shows "R (cx_db cx) db'"
  using assms served_handlers_R [OF assms(2)] unfolding reached_def keeps_alone_def by metis

lemma request_R:
  assumes "new_request cx"
    and "\<And>r ps p. \<lbrakk>r \<in> set (registerRoutes o'); rt_method r = req_Method (cx_request cx);
        match (rt_pattern r) (req_Path (cx_request cx)) = Some ps; served_principal X e c cx = Some p;
        tenant_allowed X p (route_param ps ''tenant_id'')\<rbrakk> \<Longrightarrow> ok (route_access X p (route_param ps ''tenant_id''))"
  shows "R (cx_db cx) (cx_db (NewRouterWithObservability match o' c X e cx))"
  using served_cases [OF assms(1), of match o' c X e]
proof (elim disjE exE conjE)
  fix r ps h p cx'
  assume a: "r \<in> set (registerRoutes o')" "rt_method r = req_Method (cx_request cx)"
    "match (rt_pattern r) (req_Path (cx_request cx)) = Some ps" "served_principal X e c cx = Some p"
    and b: "reached X e (route_param ps ''tenant_id'') h cx' p (cx_db (NewRouterWithObservability match o' c X e cx))"
      "h \<in> served_handlers" "cx_db cx' = cx_db cx"
  show ?thesis using reached_R [OF b(1,2)] assms(2) [OF a] b(3) by simp
qed (simp add: R_refl)

end

text \<open>
  C3. Authorization. A request changes the tables only for a principal that its API key authenticates
  and that is entitled to the route it reaches: an administrator, or the holder of the scope of that
  route whose own tenant is the tenant in the path. Without such a principal the tables are as before.
\<close>

theorem unauthorized_changes_nothing:
  assumes "new_request cx"
    and "\<And>p r ps. \<lbrakk>served_principal X e c cx = Some p; r \<in> set (registerRoutes o'); rt_method r = req_Method (cx_request cx);
        match (rt_pattern r) (req_Path (cx_request cx)) = Some ps\<rbrakk> \<Longrightarrow> \<not> entitled r p (route_param ps ''tenant_id'')"
  shows "cx_db (NewRouterWithObservability match o' c X e cx) = cx_db cx"
  using served_cases [OF assms(1), of match o' c X e] assms(2) by metis


section \<open>A run of the program\<close>

text \<open>
  Between requests the process keeps the tables, the read cache, the rate limiter, the counts and the
  log; the rest of the context is new.
\<close>

definition next_ctx :: "request \<Rightarrow> nat list option \<Rightarrow> request_ctx \<Rightarrow> request_ctx" where
  "next_ctx rq ip cx =
     cx\<lparr>cx_request := rq, cx_tenant_id := None, cx_counter_id := None, cx_credential_id := None, cx_principal := None,
        cx_database := context_Background, cx_transaction := None, cx_request_id := [], cx_remote_ip := ip,
        cx_client_ip := None, cx_response := new_response, cx_deadline := None, cx_database_deadline := None\<rparr>"

fun serve :: "path_match \<Rightarrow> options \<Rightarrow> router_config \<Rightarrow> externals \<Rightarrow> (env \<times> request \<times> nat list option) list \<Rightarrow>
    request_ctx \<Rightarrow> request_ctx" where
  "serve match o' c X [] cx = cx"
| "serve match o' c X ((e, rq, ip) # rest) cx =
     serve match o' c X rest (NewRouterWithObservability match o' c X e (next_ctx rq ip cx))"

lemma next_ctx_new [simp]: "new_request (next_ctx rq ip cx)" "cx_db (next_ctx rq ip cx) = cx_db cx"
  by (simp_all add: next_ctx_def new_request_def)

context operation_laws
begin

lemma serve_R: "(\<And>a. ok a) \<Longrightarrow> R (cx_db cx) (cx_db (serve match o' c X reqs cx))"
proof (induction reqs arbitrary: cx)
  case (Cons q rest)
  obtain e rq ip where q: "q = (e, rq, ip)" by (cases q)
  have "R (cx_db cx) (cx_db (NewRouterWithObservability match o' c X e (next_ctx rq ip cx)))"
    using request_R [OF next_ctx_new(1), of o' rq ip cx match e c] Cons.prems by simp
  with Cons.IH [OF Cons.prems] show ?case by (auto simp: q intro: R_trans)
qed (simp add: R_refl)

end

text \<open>
  C4. The history is append-only. Over any run of requests, with any failures, every operation and
  audit event that is in the tables stays there unchanged and in its place, every counter keeps its
  tenant, identifier, label, limit and creation time, and well-formed tables stay well formed: the value
  of every counter is the sum of its operations.
\<close>

theorem served_history_appended:
  "let db = cx_db cx; db' = cx_db (serve match o' c X reqs cx)
   in (pg_laws X \<and> wf_database X db \<longrightarrow> wf_database X db') \<and> prefix (operations db) (operations db') \<and>
      prefix (audit_events db) (audit_events db') \<and>
      prefix (map fixed_columns (counters db)) (map fixed_columns (counters db'))"
  using ledger.serve_R [of X cx match o' c reqs] by (simp add: appended_def Let_def)

section \<open>Sample requests\<close>

definition sample_match :: path_match where
  "sample_match pattern path =
     (if pattern = counter_path @ ''/inc'' then Some [(''tenant_id'', ''t1''), (''counter_id'', ''c1'')] else None)"

definition sample_options :: options where
  "sample_options = \<lparr>op_Health = NewHealthState 11, op_ping = None, op_docs = [], op_curl_builder = [], op_metrics_text = (\<lambda>_. [])\<rparr>"

definition sample_config :: router_config where
  "sample_config = \<lparr>rc_cors = \<lparr>co_AllowedOrigins = ''*'', co_AllowedMethods = ''GET'', co_AllowedHeaders = [],
       co_AllowCredentials = False, co_MaxAge = 0\<rparr>, rc_apiKey = ''legacy'', rc_legacyAPIKeyEnabled = False,
     rc_timeouts = DefaultRouteTimeouts, rc_maxConcurrency = 128, rc_level = ''info'', rc_sentryDSN = ''dsn'', rc_hub = Some (\<lambda>_. the (se_Request sample_event))\<rparr>"

definition sample_inc :: request where
  "sample_inc = \<lparr>req_Method = ''POST'', req_Path = ''/v2/tenants/t1/counters/c1/inc'',
     req_RequestURI = ''/v2/tenants/t1/counters/c1/inc'', req_QueryString = [], req_Args = [],
     req_Headers = [(''x-api-key'', ''ck_k-1.AQL6Bw''), (''idempotency-key'', ''k9'')], req_Body = []\<rparr>"

definition sample_start :: request_ctx where
  "sample_start = next_ctx sample_inc None (sample_cx\<lparr>cx_db := snd sample_issue\<rparr>)"

definition sample_reader :: principal where
  "sample_reader = \<lparr>pr_CredentialID = ''k-1'', pr_TenantID = ''t1'', pr_Scopes = [''counter:read''], pr_IsAdmin = False,
     pr_Legacy = False\<rparr>"

lemma sample_served: "served_principal sample_ext sample_env sample_config sample_start = Some sample_reader"
  by code_simp


theorem unauthorized_changes_nothing_witness:
  "cx_db (NewRouterWithObservability sample_match sample_options sample_config sample_ext sample_env sample_start) =
   snd sample_issue"
proof -
  have "new_request sample_start" "cx_db sample_start = snd sample_issue" by (simp_all add: sample_start_def)
  moreover have "\<not> entitled r sample_reader (route_param ps ''tenant_id'')"
    if "rt_method r = req_Method (cx_request sample_start)" "sample_match (rt_pattern r) path = Some ps" for r ps path
    using that by (auto simp: entitled_def scoped_table_def sample_reader_def sample_match_def split: if_splits)
  ultimately show ?thesis
    using unauthorized_changes_nothing [of sample_start sample_ext sample_env sample_config sample_options sample_match]
      sample_served by simp
qed

theorem served_history_appended_witness:
  "wf_database sample_ext (cx_db (serve sample_match sample_options sample_config sample_ext
     [(sample_env, sample_inc, None), (sample_env, sample_inc, Some [127, 0, 0, 1])] (sample_cx\<lparr>cx_db := sample_db\<rparr>)))"
  using served_history_appended [of "sample_cx\<lparr>cx_db := sample_db\<rparr>" sample_match sample_options sample_config sample_ext
      "[(sample_env, sample_inc, None), (sample_env, sample_inc, Some [127, 0, 0, 1])]"] sample_wf sample_ext_laws
  by (simp add: Let_def)

text \<open>The registered routes are the ones the source lists.\<close>

lemma route_surface_exact:
  "set (map (\<lambda>r. rt_method r @ '' '' @ rt_pattern r) (registerRoutes o')) = set routeSurface" "distinct routeSurface"
  "length (registerRoutes o') = length routeSurface"
  by (auto simp: registerRoutes_def public_routes_def admin_routes_def scoped_table_def scoped_route_def options_route_def
      routeSurface_def)

end
