(* ===== verification/Config.thy ===== *)
theory Config
  imports Complex_Main Prelude Text
begin

text \<open>
  \<open>internal/config/config.go\<close>: the settings read from the environment, with their defaults, and the
  checks that refuse a configuration. The environment is a partial map. Reading a floating-point number
  is a parameter; its values are rational numbers, the infinities and the value that is not a number,
  which compares with nothing.
\<close>

section \<open>Reading the environment\<close>

type_synonym environment = "string \<Rightarrow> string option"

datatype float64 = Finite rat | PosInf | NegInf | NaN

fun below_zero :: "float64 \<Rightarrow> bool" where
  "below_zero (Finite r) = (r < 0)"
| "below_zero NegInf = True"
| "below_zero _ = False"

fun above_one :: "float64 \<Rightarrow> bool" where
  "above_one (Finite r) = (r > 1)"
| "above_one PosInf = True"
| "above_one _ = False"

definition Getenv :: "environment \<Rightarrow> string \<Rightarrow> string" where
  "Getenv env key = (case env key of None \<Rightarrow> [] | Some v \<Rightarrow> v)"

definition getEnv :: "environment \<Rightarrow> string \<Rightarrow> string \<Rightarrow> string" where
  "getEnv env key defaultValue = (let v = Getenv env key in if v \<noteq> [] then v else defaultValue)"

definition getEnvInt :: "environment \<Rightarrow> string \<Rightarrow> int64 \<Rightarrow> int64" where
  "getEnvInt env key defaultValue =
     (let v = Getenv env key
      in if v \<noteq> [] then (case ParseInt64 v of Some i \<Rightarrow> i | None \<Rightarrow> defaultValue) else defaultValue)"

definition ParseBool :: "string \<Rightarrow> bool option" where
  "ParseBool s =
     (if s \<in> {''1'', ''t'', ''T'', ''TRUE'', ''true'', ''True''} then Some True
      else if s \<in> {''0'', ''f'', ''F'', ''FALSE'', ''false'', ''False''} then Some False else None)"

definition getEnvBool :: "environment \<Rightarrow> string \<Rightarrow> bool \<Rightarrow> bool" where
  "getEnvBool env key defaultValue =
     (let v = Getenv env key
      in if v \<noteq> [] then (case ParseBool v of Some b \<Rightarrow> b | None \<Rightarrow> defaultValue) else defaultValue)"

definition getEnvFloat :: "(string \<Rightarrow> float64 option) \<Rightarrow> environment \<Rightarrow> string \<Rightarrow> float64 \<Rightarrow> float64" where
  "getEnvFloat parse_float env key defaultValue =
     (let v = Getenv env key
      in if v \<noteq> [] then (case parse_float v of Some f \<Rightarrow> f | None \<Rightarrow> defaultValue) else defaultValue)"

section \<open>The configuration\<close>

record config =
  cf_ServerHost :: string
  cf_ServerPort :: int64
  cf_DatabaseURL :: string
  cf_MigrationDatabaseURL :: string
  cf_DBMaxOpenConns :: int64
  cf_DBMaxIdleConns :: int64
  cf_DBMaxIdleTime :: int64
  cf_DBTimeoutMS :: int64
  cf_DBStatementTimeoutMS :: int64
  cf_DBLockTimeoutMS :: int64
  cf_DBIdleTransactionTimeoutMS :: int64
  cf_RequestReadTimeoutSeconds :: int64
  cf_RequestMutationTimeoutSeconds :: int64
  cf_ServerReadTimeoutSeconds :: int64
  cf_ServerWriteTimeoutSeconds :: int64
  cf_ServerIdleTimeoutSeconds :: int64
  cf_ServerConcurrency :: int64
  cf_ServerMaxConnsPerIP :: int64
  cf_MaxRequestBodyBytes :: int64
  cf_APIKey :: string
  cf_LegacyAPIKeyEnabled :: bool
  cf_RateLimitRequests :: int64
  cf_RateLimitGetMultiplier :: int64
  cf_RateLimitWindow :: int64
  cf_RateLimitCleanup :: int64
  cf_RateLimitRedisURL :: string
  cf_CounterReadCacheRedisURL :: string
  cf_CounterReadCacheMaxEntries :: int64
  cf_CounterReadCacheTTLSeconds :: int64
  cf_CORSAllowedOrigins :: string
  cf_CORSAllowedMethods :: string
  cf_CORSAllowedHeaders :: string
  cf_CORSAllowCredentials :: bool
  cf_CORSMaxAge :: int64
  cf_LogLevel :: string
  cf_SentryDSN :: string
  cf_SentryEnvironment :: string
  cf_SentryRelease :: string
  cf_SentrySampleRate :: float64

definition read_config :: "(string \<Rightarrow> float64 option) \<Rightarrow> environment \<Rightarrow> config" where
  "read_config parse_float env =
     \<lparr>cf_ServerHost = getEnv env ''SERVER_HOST'' ''127.0.0.1'',
      cf_ServerPort = getEnvInt env ''SERVER_PORT'' 8080,
      cf_DatabaseURL = getEnv env ''DATABASE_URL'' [],
      cf_MigrationDatabaseURL = getEnv env ''MIGRATION_DATABASE_URL'' [],
      cf_DBMaxOpenConns = getEnvInt env ''DB_MAX_OPEN_CONNS'' 25,
      cf_DBMaxIdleConns = getEnvInt env ''DB_MAX_IDLE_CONNS'' 5,
      cf_DBMaxIdleTime = getEnvInt env ''DB_MAX_IDLE_TIME_SECONDS'' 300,
      cf_DBTimeoutMS = getEnvInt env ''DB_TIMEOUT_MS'' 2000,
      cf_DBStatementTimeoutMS = getEnvInt env ''DB_STATEMENT_TIMEOUT_MS'' 2000,
      cf_DBLockTimeoutMS = getEnvInt env ''DB_LOCK_TIMEOUT_MS'' 500,
      cf_DBIdleTransactionTimeoutMS = getEnvInt env ''DB_IDLE_TRANSACTION_TIMEOUT_MS'' 10000,
      cf_RequestReadTimeoutSeconds = getEnvInt env ''REQUEST_READ_TIMEOUT_SECONDS'' 5,
      cf_RequestMutationTimeoutSeconds = getEnvInt env ''REQUEST_MUTATION_TIMEOUT_SECONDS'' 10,
      cf_ServerReadTimeoutSeconds = getEnvInt env ''SERVER_READ_TIMEOUT_SECONDS'' 10,
      cf_ServerWriteTimeoutSeconds = getEnvInt env ''SERVER_WRITE_TIMEOUT_SECONDS'' 10,
      cf_ServerIdleTimeoutSeconds = getEnvInt env ''SERVER_IDLE_TIMEOUT_SECONDS'' 30,
      cf_ServerConcurrency = getEnvInt env ''SERVER_CONCURRENCY'' 128,
      cf_ServerMaxConnsPerIP = getEnvInt env ''SERVER_MAX_CONNS_PER_IP'' 100,
      cf_MaxRequestBodyBytes = getEnvInt env ''MAX_REQUEST_BODY_BYTES'' (64 * 1024),
      cf_APIKey = getEnv env ''API_KEY'' [],
      cf_LegacyAPIKeyEnabled = getEnvBool env ''LEGACY_API_KEY_ENABLED'' True,
      cf_RateLimitRequests = getEnvInt env ''RATE_LIMIT_REQUESTS'' 10,
      cf_RateLimitGetMultiplier = getEnvInt env ''RATE_LIMIT_GET_MULTIPLIER'' 3,
      cf_RateLimitWindow = getEnvInt env ''RATE_LIMIT_WINDOW'' 60,
      cf_RateLimitCleanup = getEnvInt env ''RATE_LIMIT_CLEANUP'' 300,
      cf_RateLimitRedisURL = getEnv env ''RATE_LIMIT_REDIS_URL'' [],
      cf_CounterReadCacheRedisURL = getEnv env ''COUNTER_READ_CACHE_REDIS_URL'' [],
      cf_CounterReadCacheMaxEntries = getEnvInt env ''COUNTER_READ_CACHE_MAX_ENTRIES'' 1000,
      cf_CounterReadCacheTTLSeconds = getEnvInt env ''COUNTER_READ_CACHE_TTL_SECONDS'' 300,
      cf_CORSAllowedOrigins = getEnv env ''CORS_ALLOWED_ORIGINS'' ''*'',
      cf_CORSAllowedMethods = getEnv env ''CORS_ALLOWED_METHODS'' ''GET,POST,PUT,DELETE,OPTIONS'',
      cf_CORSAllowedHeaders = getEnv env ''CORS_ALLOWED_HEADERS''
        ''Content-Type,Authorization,X-Request-ID,X-API-Key,Idempotency-Key,If-Match,If-None-Match'',
      cf_CORSAllowCredentials = getEnvBool env ''CORS_ALLOW_CREDENTIALS'' False,
      cf_CORSMaxAge = getEnvInt env ''CORS_MAX_AGE'' 3600,
      cf_LogLevel = getEnv env ''LOG_LEVEL'' ''info'',
      cf_SentryDSN = getEnv env ''SENTRY_DSN'' [],
      cf_SentryEnvironment = getEnv env ''SENTRY_ENVIRONMENT'' ''development'',
      cf_SentryRelease = getEnv env ''SENTRY_RELEASE'' [],
      cf_SentrySampleRate = getEnvFloat parse_float env ''SENTRY_SAMPLE_RATE'' (Finite (1 / 2))\<rparr>"

text \<open>The checks in their order; the message of the first that fails.\<close>

definition config_checks :: "config \<Rightarrow> (bool \<times> string) list" where
  "config_checks c =
     [(cf_DatabaseURL c = [], ''missing required DATABASE_URL''),
      (cf_APIKey c = [], ''missing required API_KEY''),
      (cf_DBMaxOpenConns c < 1, ''DB_MAX_OPEN_CONNS must be at least 1''),
      (cf_DBMaxIdleConns c < 0 \<or> cf_DBMaxIdleConns c > cf_DBMaxOpenConns c,
       ''DB_MAX_IDLE_CONNS must be between 0 and DB_MAX_OPEN_CONNS''),
      (cf_DBMaxIdleTime c < 1, ''DB_MAX_IDLE_TIME_SECONDS must be at least 1''),
      (cf_DBTimeoutMS c < 1 \<or> cf_DBStatementTimeoutMS c < 1 \<or> cf_DBLockTimeoutMS c < 1 \<or> cf_DBIdleTransactionTimeoutMS c < 1,
       ''database timeout settings must be positive''),
      (cf_RequestReadTimeoutSeconds c < 1 \<or> cf_RequestMutationTimeoutSeconds c < 1, ''request timeout settings must be positive''),
      (cf_ServerReadTimeoutSeconds c < 1 \<or> cf_ServerWriteTimeoutSeconds c < 1 \<or> cf_ServerIdleTimeoutSeconds c < 1,
       ''server timeout settings must be positive''),
      (cf_ServerConcurrency c < 1 \<or> cf_ServerMaxConnsPerIP c < 1, ''server concurrency settings must be positive''),
      (cf_MaxRequestBodyBytes c < 1, ''MAX_REQUEST_BODY_BYTES must be positive''),
      (cf_RateLimitGetMultiplier c < 1, ''RATE_LIMIT_GET_MULTIPLIER must be at least 1''),
      (cf_RateLimitRequests c < 1, ''RATE_LIMIT_REQUESTS must be at least 1''),
      (cf_RateLimitWindow c < 1, ''RATE_LIMIT_WINDOW must be at least 1 second''),
      (cf_RateLimitCleanup c < 1, ''RATE_LIMIT_CLEANUP must be at least 1 second''),
      (cf_CounterReadCacheMaxEntries c < 1, ''COUNTER_READ_CACHE_MAX_ENTRIES must be at least 1''),
      (cf_CounterReadCacheTTLSeconds c < 1, ''COUNTER_READ_CACHE_TTL_SECONDS must be at least 1 second''),
      (cf_ServerPort c < 1 \<or> cf_ServerPort c > 65535, ''SERVER_PORT must be between 1 and 65535''),
      (below_zero (cf_SentrySampleRate c) \<or> above_one (cf_SentrySampleRate c), ''SENTRY_SAMPLE_RATE must be between 0.0 and 1.0'')]"

text \<open>The warning about the first setting that is no longer used.\<close>

definition warnLegacyCacheSettings :: "environment \<Rightarrow> string list" where
  "warnLegacyCacheSettings env =
     (case find (\<lambda>key. env key \<noteq> None) [''CACHE_ENABLED'', ''CACHE_SIZE'', ''CACHE_TTL_SECONDS'', ''CACHE_WORKERS'',
         ''CACHE_QUEUE_SIZE'', ''CACHE_SHUTDOWN_WAIT''] of
        None \<Rightarrow> []
      | Some key \<Rightarrow> [''WARNING: '' @ key @ '' is deprecated and ignored; PostgreSQL is the sole counter data path''])"

definition Load :: "(string \<Rightarrow> float64 option) \<Rightarrow> environment \<Rightarrow> (go_error + config) \<times> string list" where
  "Load parse_float env =
     (let c = read_config parse_float env
      in (case find fst (config_checks c) of Some (_, message) \<Rightarrow> Inl (Msg message) | None \<Rightarrow> Inr c, warnLegacyCacheSettings env))"

section \<open>What a loaded configuration promises\<close>

text \<open>The values the rest of the program relies on.\<close>

definition usable :: "config \<Rightarrow> bool" where
  "usable c \<longleftrightarrow>
     cf_DatabaseURL c \<noteq> [] \<and> cf_APIKey c \<noteq> [] \<and> 1 \<le> cf_ServerPort c \<and> cf_ServerPort c \<le> 65535 \<and>
     0 \<le> cf_DBMaxIdleConns c \<and> cf_DBMaxIdleConns c \<le> cf_DBMaxOpenConns c \<and>
     list_all (\<lambda>v. 1 \<le> v \<and> in_int64 v)
       [cf_DBMaxOpenConns c, cf_DBMaxIdleTime c, cf_DBTimeoutMS c, cf_DBStatementTimeoutMS c, cf_DBLockTimeoutMS c,
        cf_DBIdleTransactionTimeoutMS c, cf_RequestReadTimeoutSeconds c, cf_RequestMutationTimeoutSeconds c,
        cf_ServerReadTimeoutSeconds c, cf_ServerWriteTimeoutSeconds c, cf_ServerIdleTimeoutSeconds c, cf_ServerConcurrency c,
        cf_ServerMaxConnsPerIP c, cf_MaxRequestBodyBytes c, cf_RateLimitRequests c, cf_RateLimitGetMultiplier c,
        cf_RateLimitWindow c, cf_RateLimitCleanup c, cf_CounterReadCacheMaxEntries c, cf_CounterReadCacheTTLSeconds c]"

lemma getEnvInt_range: "in_int64 d \<Longrightarrow> in_int64 (getEnvInt env key d)"
  by (auto simp: getEnvInt_def Let_def dest: ParseInt64_in_range split: option.split)

lemma Load_usable:
  assumes "Load parse_float env = (Inr c, warnings)"
  shows "usable c"
proof -
  from assms have c: "c = read_config parse_float env" and "find fst (config_checks c) = None"
    by (auto simp: Load_def Let_def split: option.splits)
  then have "\<forall>x \<in> set (config_checks c). \<not> fst x" by (auto simp: find_None_iff)
  then have "usable c \<longleftrightarrow> list_all in_int64 [cf_DBMaxOpenConns c, cf_DBMaxIdleTime c, cf_DBTimeoutMS c, cf_DBStatementTimeoutMS c,
        cf_DBLockTimeoutMS c, cf_DBIdleTransactionTimeoutMS c, cf_RequestReadTimeoutSeconds c, cf_RequestMutationTimeoutSeconds c,
        cf_ServerReadTimeoutSeconds c, cf_ServerWriteTimeoutSeconds c, cf_ServerIdleTimeoutSeconds c, cf_ServerConcurrency c,
        cf_ServerMaxConnsPerIP c, cf_MaxRequestBodyBytes c, cf_RateLimitRequests c, cf_RateLimitGetMultiplier c,
        cf_RateLimitWindow c, cf_RateLimitCleanup c, cf_CounterReadCacheMaxEntries c, cf_CounterReadCacheTTLSeconds c]"
    by (simp add: config_checks_def usable_def not_less)
  moreover have "in_int64 (getEnvInt env key d)" if "0 \<le> d" "d \<le> 65536" for key d
    using that by (intro getEnvInt_range) (simp add: in_int64_def minInt64_def maxInt64_def)
  ultimately show ?thesis unfolding c by (simp add: read_config_def)
qed

end
