(* ===== verification/Migrations.thy ===== *)
theory Migrations
  imports Database Text "HOL-Library.AList"
begin

text \<open>
  \<open>internal/migrations/migrations.go\<close>: the discovery of the embedded migrations, the runner that
  applies and rolls them back under the advisory lock, and the check of the schema version at startup.
  What an SQL script does is a parameter: a partial function on the schema and the tracking table. The
  progress lines that the runner prints are left out.
\<close>

section \<open>File names\<close>

definition name_char :: "char \<Rightarrow> bool" where
  "name_char c \<longleftrightarrow> is_digit c \<or> (CHR ''a'' \<le> c \<and> c \<le> CHR ''z'') \<or> (CHR ''A'' \<le> c \<and> c \<le> CHR ''Z'')"

definition base_name :: "string \<Rightarrow> string" where
  "base_name path = rev (takeWhile (\<lambda>c. c \<noteq> CHR ''/'') (rev path))"

text \<open>
  The pattern of the file names: digits, an underscore, a name without a dot that starts with a letter
  or a digit, and one of the two suffixes. The digits of a name that matches.
\<close>

definition match_filename :: "string \<Rightarrow> string option" where
  "match_filename name =
     (let ds = takeWhile is_digit name; rest = dropWhile is_digit name;
          body = takeWhile (\<lambda>c. c \<noteq> CHR ''.'') (tl rest); suffix = dropWhile (\<lambda>c. c \<noteq> CHR ''.'') (tl rest)
      in if ds \<noteq> [] \<and> rest \<noteq> [] \<and> hd rest = CHR ''_'' \<and> body \<noteq> [] \<and> name_char (hd body) \<and>
            list_all (\<lambda>c. name_char c \<or> c = CHR ''_'' \<or> c = CHR ''-'') (tl body) \<and> suffix \<in> {''.up.sql'', ''.down.sql''}
         then Some ds else None)"

definition extractVersion :: "string \<Rightarrow> go_error + int64" where
  "extractVersion filename =
     (case match_filename (base_name filename) of
        None \<Rightarrow> Inl (Msg (''invalid migration filename format: '' @ filename))
      | Some ds \<Rightarrow>
        (case ParseInt64 ds of
           None \<Rightarrow> Inl (Msg (''invalid migration version in filename: '' @ filename))
         | Some version \<Rightarrow>
             if version < 1 then Inl (Msg (''invalid migration version in filename: '' @ filename)) else Inr version))"

fun index_loop :: "string \<Rightarrow> string list \<Rightarrow> (int64 \<times> string) list \<Rightarrow> go_error + (int64 \<times> string) list" where
  "index_loop direction [] indexed = Inr indexed"
| "index_loop direction (path # paths) indexed =
     (case extractVersion path of
        Inl e \<Rightarrow> Inl e
      | Inr version \<Rightarrow>
        if map_of indexed version \<noteq> None
        then Inl (Msg (''duplicate '' @ direction @ '' migration version '' @ itoa version))
        else index_loop direction paths (indexed @ [(version, path)]))"

definition indexMigrationPaths :: "string list \<Rightarrow> string \<Rightarrow> go_error + (int64 \<times> string) list" where
  "indexMigrationPaths paths direction = index_loop direction paths []"

text \<open>The versions are compared in the order of the paths; the source's order is that of a map.\<close>

definition validateMigrationPaths :: "string list \<Rightarrow> string list \<Rightarrow> go_error option" where
  "validateMigrationPaths upPaths downPaths =
     (case indexMigrationPaths upPaths ''up'' of
        Inl e \<Rightarrow> Some e
      | Inr ups \<Rightarrow>
        (case indexMigrationPaths downPaths ''down'' of
           Inl e \<Rightarrow> Some e
         | Inr downs \<Rightarrow>
           (case find (\<lambda>(v, _). map_of downs v = None) ups of
              Some (v, _) \<Rightarrow> Some (Msg (''missing down migration for version '' @ itoa v))
            | None \<Rightarrow>
              (case find (\<lambda>(v, _). map_of ups v = None) downs of
                 Some (v, _) \<Rightarrow> Some (Msg (''missing up migration for version '' @ itoa v))
               | None \<Rightarrow> None))))"

text \<open>Every path has a version once the paths are validated.\<close>

definition pathsByVersion :: "string list \<Rightarrow> (int64 \<times> string) list" where
  "pathsByVersion paths =
     fold (\<lambda>path indexed. AList.update (case extractVersion path of Inl _ \<Rightarrow> 0 | Inr v \<Rightarrow> v) path indexed) paths []"

text \<open>The embedded files: paths and contents.\<close>

type_synonym embedded = "(string \<times> string) list"

definition migrationPaths :: "embedded \<Rightarrow> string \<Rightarrow> string list" where
  "migrationPaths files suffix = sort (filter (\<lambda>p. HasSuffix p suffix) (map fst files))"

record migrationFile =
  mf_version :: int64
  mf_up :: string
  mf_down :: string
  mf_upPath :: string
  mf_downPath :: string

definition read_file :: "embedded \<Rightarrow> string \<Rightarrow> string" where
  "read_file files path = the (map_of files path)"

definition discoverMigrations :: "embedded \<Rightarrow> go_error + migrationFile list" where
  "discoverMigrations files =
     (let upPaths = migrationPaths files ''.up.sql''; downPaths = migrationPaths files ''.down.sql''
      in case validateMigrationPaths upPaths downPaths of
           Some e \<Rightarrow> Inl e
         | None \<Rightarrow>
           (let ups = pathsByVersion upPaths; downs = pathsByVersion downPaths
            in Inr (map (\<lambda>version.
                 (let upPath = the (map_of ups version);
                      downPath = (case map_of downs version of None \<Rightarrow> [] | Some p \<Rightarrow> p)
                  in \<lparr>mf_version = version, mf_up = read_file files upPath, mf_down = read_file files downPath,
                      mf_upPath = upPath, mf_downPath = downPath\<rparr>)) (sort (map fst ups)))))"

section \<open>The runner\<close>

text \<open>The database of the runner: the tracking table, \<open>None\<close> before it is created, and the schema.\<close>

record 's migration_db =
  mg_versions :: "int64 list option"
  mg_schema :: 's

type_synonym 's script_run = "string \<Rightarrow> 's \<times> int64 list \<Rightarrow> go_error + 's \<times> int64 list"

datatype migration_step = MConn | MLock | MEnsure | MStatus | MBegin int64 | MTrack int64 | MUnlock | MClose

record migration_faults =
  mgf_err :: "migration_step \<Rightarrow> go_error option"
  mgf_commit :: "int64 \<Rightarrow> commit_outcome"

definition executeMigration ::
  "'s script_run \<Rightarrow> migration_faults \<Rightarrow> int64 \<Rightarrow> string \<Rightarrow> bool \<Rightarrow> 's migration_db \<Rightarrow> go_error option \<times> 's migration_db" where
  "executeMigration run f version content up db =
     (case mgf_err f (MBegin version) of
        Some e \<Rightarrow> (Some e, db)
      | None \<Rightarrow>
        (case run content (mg_schema db, the (mg_versions db)) of
           Inl e \<Rightarrow> (Some e, db)
         | Inr (schema, versions) \<Rightarrow>
           (case mgf_err f (MTrack version) of
              Some e \<Rightarrow> (Some e, db)
            | None \<Rightarrow>
              (let versions' = (if up then (if version \<in> set versions then versions else versions @ [version])
                                else filter (\<lambda>v. v \<noteq> version) versions);
                   db' = db\<lparr>mg_versions := Some versions', mg_schema := schema\<rparr>
               in case mgf_commit f version of
                    CommitOK \<Rightarrow> (None, db')
                  | CommitRejected e \<Rightarrow> (Some e, db)
                  | CommitLost e \<Rightarrow> (Some e, db')))))"

definition ensureSchemaMigrationsTable ::
  "migration_faults \<Rightarrow> 's migration_db \<Rightarrow> go_error option \<times> 's migration_db" where
  "ensureSchemaMigrationsTable f db =
     (case mgf_err f MEnsure of
        Some e \<Rightarrow> (Some e, db)
      | None \<Rightarrow> (None, db\<lparr>mg_versions := Some (case mg_versions db of None \<Rightarrow> [] | Some vs \<Rightarrow> vs)\<rparr>))"

definition migrationStatus :: "migration_faults \<Rightarrow> 's migration_db \<Rightarrow> go_error + int64 list" where
  "migrationStatus f db = (case mgf_err f MStatus of Some e \<Rightarrow> Inl e | None \<Rightarrow> Inr (the (mg_versions db)))"

fun up_loop ::
  "'s script_run \<Rightarrow> migration_faults \<Rightarrow> int64 list \<Rightarrow> migrationFile list \<Rightarrow> 's migration_db \<Rightarrow> go_error option \<times> 's migration_db" where
  "up_loop run f status [] db = (None, db)"
| "up_loop run f status (file # files) db =
     (if mf_version file \<in> set status then up_loop run f status files db
      else
        (case executeMigration run f (mf_version file) (mf_up file) True db of
           (Some e, db') \<Rightarrow> (Some (Wrapf (''failed to apply migration '' @ itoa (mf_version file)) e), db')
         | (None, db') \<Rightarrow> up_loop run f status files db'))"

text \<open>The loop downwards stops after the first file that it rolls back.\<close>

fun down_loop ::
  "'s script_run \<Rightarrow> migration_faults \<Rightarrow> int64 list \<Rightarrow> migrationFile list \<Rightarrow> 's migration_db \<Rightarrow> go_error option \<times> 's migration_db" where
  "down_loop run f status [] db = (None, db)"
| "down_loop run f status (file # files) db =
     (if mf_version file \<notin> set status then down_loop run f status files db
      else
        (case executeMigration run f (mf_version file) (mf_down file) False db of
           (Some e, db') \<Rightarrow> (Some (Wrapf (''failed to rollback migration '' @ itoa (mf_version file)) e), db')
         | (None, db') \<Rightarrow> (None, db')))"

text \<open>The lock is released and the connection closed however the function ends.\<close>

definition withMigrationLock ::
  "migration_faults \<Rightarrow> ('s migration_db \<Rightarrow> go_error option \<times> 's migration_db) \<Rightarrow> 's migration_db \<Rightarrow> go_error option \<times> 's migration_db" where
  "withMigrationLock f body db =
     (case mgf_err f MConn of
        Some e \<Rightarrow> (Some (Wrapf ''acquire migration connection'' e), db)
      | None \<Rightarrow>
        (let (locked, err, db') =
               (case mgf_err f MLock of
                  Some e \<Rightarrow> (False, Some (Wrapf ''acquire migration lock'' e), db)
                | None \<Rightarrow> (True, body db));
             err1 = (if locked \<and> err = None then map_option (Wrapf ''release migration lock'') (mgf_err f MUnlock) else err);
             err2 = (if err1 = None then map_option (Wrapf ''close migration connection'') (mgf_err f MClose) else err1)
         in (err2, db')))"

definition run_migrations ::
  "(int64 list \<Rightarrow> migrationFile list \<Rightarrow> 's migration_db \<Rightarrow> go_error option \<times> 's migration_db) \<Rightarrow> migration_faults \<Rightarrow> embedded \<Rightarrow>
   's migration_db \<Rightarrow> go_error option \<times> 's migration_db" where
  "run_migrations loop f embedded db0 =
     withMigrationLock f (\<lambda>d.
       case ensureSchemaMigrationsTable f d of
         (Some e, d1) \<Rightarrow> (Some (Wrapf ''failed to create schema_migrations table'' e), d1)
       | (None, d1) \<Rightarrow>
         (case migrationStatus f d1 of
            Inl e \<Rightarrow> (Some (Wrapf ''failed to get migration status'' e), d1)
          | Inr status \<Rightarrow>
            (case discoverMigrations embedded of
               Inl e \<Rightarrow> (Some (Wrapf ''failed to discover migrations'' e), d1)
             | Inr files \<Rightarrow> loop status files d1))) db0"

definition RunUp :: "'s script_run \<Rightarrow> migration_faults \<Rightarrow> embedded \<Rightarrow> 's migration_db \<Rightarrow> go_error option \<times> 's migration_db" where
  "RunUp run f = run_migrations (up_loop run f) f"

definition RunDown :: "'s script_run \<Rightarrow> migration_faults \<Rightarrow> embedded \<Rightarrow> 's migration_db \<Rightarrow> go_error option \<times> 's migration_db" where
  "RunDown run f = run_migrations (\<lambda>status files. down_loop run f status (rev files)) f"

section \<open>The version at startup\<close>

abbreviation LatestVersion :: int64 where "LatestVersion \<equiv> 10"

definition CurrentVersion :: "go_error option \<Rightarrow> 's migration_db \<Rightarrow> go_error + int64" where
  "CurrentVersion failure db =
     (case (failure, mg_versions db) of
        (Some e, _) \<Rightarrow> Inl (Wrapf ''read schema version'' e)
      | (None, None) \<Rightarrow> Inl (Wrapf ''read schema version'' (Pq ''42P01''))
      | (None, Some []) \<Rightarrow> Inr 0
      | (None, Some vs) \<Rightarrow> Inr (Max (set vs)))"

definition ValidateSchemaVersion :: "int64 \<Rightarrow> int64 \<Rightarrow> go_error option" where
  "ValidateSchemaVersion current supported =
     (if current \<noteq> supported
      then Some (Msg (''schema version '' @ itoa current @ '' is incompatible with supported version '' @ itoa supported))
      else None)"

definition VerifySchemaCompatibility :: "go_error option \<Rightarrow> 's migration_db \<Rightarrow> (int64 \<times> go_error option)" where
  "VerifySchemaCompatibility failure db =
     (case CurrentVersion failure db of
        Inl e \<Rightarrow> (0, Some e)
      | Inr current \<Rightarrow> (current, ValidateSchemaVersion current LatestVersion))"

text \<open>
  \<open>internal/database/migrations.go\<close>: the status with the failures of its calls, and the record of a version
  outside the runner.
\<close>

text \<open>The failures of the four calls, each of which may happen.\<close>

record status_faults =
  sf_exists :: "go_error option"
  sf_query :: "go_error option"
  sf_scan :: "go_error option"
  sf_rows :: "go_error option"

definition GetMigrationStatus :: "status_faults \<Rightarrow> 's migration_db \<Rightarrow> go_error + int64 list" where
  "GetMigrationStatus f db =
     (case (sf_exists f, mg_versions db, sf_query f, sf_scan f, sf_rows f) of
        (Some e, _) \<Rightarrow> Inl (Wrapf ''failed to check schema_migrations table'' e)
      | (None, None, _) \<Rightarrow> Inr []
      | (None, Some vs, Some e, _) \<Rightarrow> Inl (Wrapf ''failed to query migrations'' e)
      | (None, Some vs, None, scan, iteration) \<Rightarrow>
        (case (scan, iteration, vs) of
           (Some e, _, _ # _) \<Rightarrow> Inl (Wrapf ''failed to scan migration version'' e)
         | (_, Some e, _) \<Rightarrow> Inl (Wrapf ''error iterating migrations'' e)
         | _ \<Rightarrow> Inr vs))"

definition RecordMigration :: "go_error option \<Rightarrow> int64 \<Rightarrow> 's migration_db \<Rightarrow> go_error option \<times> 's migration_db" where
  "RecordMigration failure version db =
     (case (failure, mg_versions db) of
        (Some e, _) \<Rightarrow> (Some (Wrapf ''failed to record migration'' e), db)
      | (None, None) \<Rightarrow> (Some (Wrapf ''failed to record migration'' (Pq ''42P01'')), db)
      | (None, Some vs) \<Rightarrow> (None, db\<lparr>mg_versions := Some (if version \<in> set vs then vs else vs @ [version])\<rparr>))"

lemma RecordMigration_status:
  "RecordMigration None v db = (None, db') \<Longrightarrow>
     \<exists>vs. GetMigrationStatus \<lparr>sf_exists = None, sf_query = None, sf_scan = None, sf_rows = None\<rparr> db' = Inr vs \<and> set vs = insert v (set (the (mg_versions db)))"
  by (auto simp: RecordMigration_def GetMigrationStatus_def split: option.splits if_splits)

section \<open>The schema is what the recorded migrations make it\<close>

text \<open>
  What the scripts do, as their authors intend it: \<open>eff\<close> is the effect of a migration on the schema, its
  rollback undoes that effect, and neither touches the tracking of other versions.
\<close>

definition scripts_ok :: "'s script_run \<Rightarrow> (migrationFile \<Rightarrow> 's \<Rightarrow> 's option) \<Rightarrow> migrationFile list \<Rightarrow> bool" where
  "scripts_ok run eff files \<longleftrightarrow>
     (\<forall>f \<in> set files.
        (\<forall>s T s' T'. run (mf_up f) (s, T) = Inr (s', T') \<longrightarrow>
           eff f s = Some s' \<and> set T \<subseteq> set T' \<and> set T' \<subseteq> insert (mf_version f) (set T)) \<and>
        (\<forall>s s' T r T'. eff f s = Some s' \<longrightarrow> run (mf_down f) (s', T) = Inr (r, T') \<longrightarrow>
           r = s \<and> set T - {mf_version f} \<subseteq> set T' \<and> set T' \<subseteq> set T))"

fun replay :: "(migrationFile \<Rightarrow> 's \<Rightarrow> 's option) \<Rightarrow> migrationFile list \<Rightarrow> 's \<Rightarrow> 's option" where
  "replay eff [] s = Some s"
| "replay eff (f # fs) s = Option.bind (eff f s) (replay eff fs)"

definition recorded :: "'s migration_db \<Rightarrow> int64 set" where
  "recorded db = (case mg_versions db of None \<Rightarrow> {} | Some vs \<Rightarrow> set vs)"

text \<open>The database after exactly the migrations \<open>fs\<close>.\<close>

definition migrated :: "(migrationFile \<Rightarrow> 's \<Rightarrow> 's option) \<Rightarrow> 's \<Rightarrow> migrationFile list \<Rightarrow> 's migration_db \<Rightarrow> bool" where
  "migrated eff s0 fs db \<longleftrightarrow> recorded db = mf_version ` set fs \<and> replay eff fs s0 = Some (mg_schema db)"

definition consistent :: "(migrationFile \<Rightarrow> 's \<Rightarrow> 's option) \<Rightarrow> 's \<Rightarrow> migrationFile list \<Rightarrow> 's migration_db \<Rightarrow> bool" where
  "consistent eff s0 files db \<longleftrightarrow> (\<exists>n \<le> length files. migrated eff s0 (take n files) db)"

lemma replay_append: "replay eff (fs @ gs) s = Option.bind (replay eff fs s) (replay eff gs)"
  by (induction fs arbitrary: s) (auto split: bind_split)

definition track :: "bool \<Rightarrow> int64 \<Rightarrow> int64 list \<Rightarrow> int64 list" where
  "track up version vs =
     (if up then (if version \<in> set vs then vs else vs @ [version]) else filter (\<lambda>v. v \<noteq> version) vs)"

lemma track_set [simp]: "set (track up v vs) = (if up then insert v (set vs) else set vs - {v})"
  by (auto simp: track_def)

text \<open>A migration is all or nothing: the script and the record of its version commit together.\<close>

lemma executeMigration_cases:
  assumes "executeMigration run f version content up db = (r, db')"
  obtains (undone) e where "r = Some e" "db' = db"
  | (applied) s T where "run content (mg_schema db, the (mg_versions db)) = Inr (s, T)"
      "db' = db\<lparr>mg_versions := Some (track up version T), mg_schema := s\<rparr>"
proof (cases "mgf_err f (MBegin version)")
  case (Some e)
  with assms show thesis by (intro undone [of e]) (simp_all add: executeMigration_def)
next
  case b: None
  show thesis
  proof (cases "run content (mg_schema db, the (mg_versions db))")
    case (Inl e)
    with b assms show thesis by (intro undone [of e]) (simp_all add: executeMigration_def)
  next
    case (Inr st)
    obtain s T where st: "st = (s, T)" by (cases st)
    show thesis
    proof (cases "mgf_err f (MTrack version)")
      case (Some e)
      with b Inr st assms show thesis by (intro undone [of e]) (simp_all add: executeMigration_def)
    next
      case None
      with b Inr st assms have "r \<noteq> None \<and> db' = db \<or> db' = db\<lparr>mg_versions := Some (track up version T), mg_schema := s\<rparr>"
        by (cases "mgf_commit f version") (auto simp: executeMigration_def track_def)
      with Inr st undone applied show thesis by blast
    qed
  qed
qed

lemma executeMigration_up:
  assumes "scripts_ok run eff files" "mig \<in> set files" "migrated eff s0 fs db" "mg_versions db \<noteq> None"
    and "executeMigration run f (mf_version mig) (mf_up mig) True db = (r, db')"
  shows "(r \<noteq> None \<and> db' = db \<or> migrated eff s0 (fs @ [mig]) db') \<and> mg_versions db' \<noteq> None"
  using assms(5)
proof (cases rule: executeMigration_cases)
  case undone
  with assms(4) show ?thesis by simp
next
  case (applied s T)
  obtain vs where vs: "mg_versions db = Some vs" using assms(4) by blast
  from assms(1,2) applied(1) have "eff mig (mg_schema db) = Some s" "set vs \<subseteq> set T" "set T \<subseteq> insert (mf_version mig) (set vs)"
    unfolding scripts_ok_def vs option.sel by blast+
  moreover from this have "insert (mf_version mig) (set T) = insert (mf_version mig) (set vs)" by blast
  ultimately show ?thesis using assms(3) vs applied(2) by (simp add: migrated_def recorded_def replay_append)
qed

lemma executeMigration_down:
  assumes "scripts_ok run eff files" "mig \<in> set files" "migrated eff s0 (fs @ [mig]) db" "mg_versions db \<noteq> None"
    and "mf_version mig \<notin> mf_version ` set fs"
    and "executeMigration run f (mf_version mig) (mf_down mig) False db = (r, db')"
  shows "r \<noteq> None \<and> db' = db \<or> migrated eff s0 fs db'"
  using assms(6)
proof (cases rule: executeMigration_cases)
  case undone
  then show ?thesis by simp
next
  case (applied s T)
  obtain vs where vs: "mg_versions db = Some vs" using assms(4) by blast
  obtain s1 where s1: "replay eff fs s0 = Some s1" "eff mig s1 = Some (mg_schema db)"
    using assms(3) by (auto simp: migrated_def replay_append split: bind_splits)
  from assms(1,2) applied(1) s1(2) have "s = s1" "set vs - {mf_version mig} \<subseteq> set T" "set T \<subseteq> set vs"
    unfolding scripts_ok_def vs option.sel by blast+
  moreover from this have "set T - {mf_version mig} = set vs - {mf_version mig}" by blast
  ultimately show ?thesis using assms(3,5) vs applied(2) s1(1) by (simp add: migrated_def recorded_def)
qed

lemma up_loop_skip: "mf_version ` set fs \<subseteq> set status \<Longrightarrow> up_loop run f status (fs @ gs) db = up_loop run f status gs db"
  by (induction fs) auto

lemma down_loop_skip:
  "mf_version ` set fs \<inter> set status = {} \<Longrightarrow> down_loop run f status (fs @ gs) db = down_loop run f status gs db"
  by (induction fs) auto

lemma up_loop_migrated:
  assumes "scripts_ok run eff files" "set gs \<subseteq> set files" "mf_version ` set gs \<inter> set status = {}"
    and "migrated eff s0 fs db" "mg_versions db \<noteq> None" "up_loop run f status gs db = (r, db')"
  shows "\<exists>m \<le> length gs. migrated eff s0 (fs @ take m gs) db' \<and> (r = None \<longrightarrow> m = length gs)"
  using assms(2-6)
proof (induction gs arbitrary: fs db)
  case (Cons mig gs)
  obtain r1 db1 where ex: "executeMigration run f (mf_version mig) (mf_up mig) True db = (r1, db1)" by fastforce
  note step = executeMigration_up [OF assms(1) _ Cons.prems(3,4) ex]
  show ?case
  proof (cases r1)
    case (Some e)
    then have "db' = db1" "r \<noteq> None" using Cons.prems(2,5) ex by auto
    moreover have "migrated eff s0 (fs @ take 0 (mig # gs)) db1 \<or> migrated eff s0 (fs @ take 1 (mig # gs)) db1"
      using step Cons.prems(1,3) by auto
    ultimately show ?thesis by (metis One_nat_def Suc_leI le0 length_greater_0_conv list.distinct(1))
  next
    case None
    then have "migrated eff s0 (fs @ [mig]) db1" "mg_versions db1 \<noteq> None" "up_loop run f status gs db1 = (r, db')"
      using step Cons.prems(1,2,5) ex by auto
    from Cons.IH [OF _ _ this] Cons.prems(1,2) obtain m where "m \<le> length gs" "migrated eff s0 ((fs @ [mig]) @ take m gs) db'"
      "r = None \<longrightarrow> m = length gs" by auto
    then show ?thesis by (intro exI [of _ "Suc m"]) simp
  qed
qed simp

lemma down_loop_migrated:
  assumes "scripts_ok run eff files" "set fs \<subseteq> set files" "distinct (map mf_version (fs @ gs))" "set status = mf_version ` set fs"
    and "migrated eff s0 fs db" "mg_versions db \<noteq> None" "down_loop run f status (rev (fs @ gs)) db = (r, db')"
  shows "migrated eff s0 fs db' \<and> (r \<noteq> None \<or> fs = []) \<or> migrated eff s0 (butlast fs) db'"
proof -
  have "down_loop run f status (rev fs) db = (r, db')"
    using assms(3,4,7) down_loop_skip [of "rev gs" status run f "rev fs" db] by (simp add: Int_commute)
  moreover have "fs \<noteq> [] \<Longrightarrow> fs = butlast fs @ [last fs]" by simp
  ultimately show ?thesis
  proof (cases fs rule: rev_cases)
    case Nil
    with \<open>down_loop run f status (rev fs) db = (r, db')\<close> assms(5) show ?thesis by simp
  next
    case (snoc pre mig)
    obtain r1 db1 where ex: "executeMigration run f (mf_version mig) (mf_down mig) False db = (r1, db1)" by fastforce
    have "r1 \<noteq> None \<and> db1 = db \<or> migrated eff s0 pre db1"
      by (rule executeMigration_down [OF assms(1) _ _ assms(6) _ ex]) (use assms(2,3,5) snoc in auto)
    moreover have "db1 = db'" "r1 = None \<longleftrightarrow> r = None"
      using \<open>down_loop run f status (rev fs) db = (r, db')\<close> assms(4) snoc ex by (auto split: option.splits)
    ultimately show ?thesis using assms(5) snoc by auto
  qed
qed

text \<open>The versions of the files that are found are strictly ascending.\<close>

lemma pathsByVersion_distinct: "distinct (map fst (pathsByVersion paths))"
proof -
  have "distinct (map fst (fold (\<lambda>path indexed. AList.update (k path) path indexed) paths acc))" if "distinct (map fst acc)" for k acc
    using that by (induction paths arbitrary: acc) (auto simp: distinct_update)
  from this [of "[]" "\<lambda>path. case extractVersion path of Inl _ \<Rightarrow> 0 | Inr v \<Rightarrow> v"]
  show ?thesis unfolding pathsByVersion_def by simp
qed

lemma discovered_versions:
  assumes "discoverMigrations embedded = Inr files"
  shows "sorted (map mf_version files)" "distinct (map mf_version files)"
proof -
  from assms obtain ups where "map mf_version files = sort (map fst (pathsByVersion ups))"
    by (auto simp: discoverMigrations_def Let_def comp_def split: option.splits)
  then show "sorted (map mf_version files)" "distinct (map mf_version files)" by (simp_all add: pathsByVersion_distinct)
qed

lemma run_migrations_cases:
  assumes "run_migrations loop f embedded db = (r, db')" "discoverMigrations embedded = Inr files"
  obtains (before) "r \<noteq> None" "mg_schema db' = mg_schema db" "recorded db' = recorded db"
  | (looped) d r' where "mg_schema d = mg_schema db" "mg_versions d \<noteq> None" "recorded d = recorded db"
      "loop (the (mg_versions d)) files d = (r', db')" "r = None \<longrightarrow> r' = None"
proof -
  let ?d = "db\<lparr>mg_versions := Some (case mg_versions db of None \<Rightarrow> [] | Some vs \<Rightarrow> vs)\<rparr>"
  have d: "mg_schema ?d = mg_schema db" "mg_versions ?d \<noteq> None" "recorded ?d = recorded db"
    by (simp_all add: recorded_def split: option.split)
  show thesis
  proof (cases "mgf_err f MConn = None \<and> mgf_err f MLock = None \<and> mgf_err f MEnsure = None \<and> mgf_err f MStatus = None")
    case True
    obtain r' d' where l: "loop (the (mg_versions ?d)) files ?d = (r', d')" by fastforce
    with True assms have "db' = d' \<and> (r = None \<longrightarrow> r' = None)"
      by (auto simp: run_migrations_def withMigrationLock_def ensureSchemaMigrationsTable_def migrationStatus_def Let_def
          split: if_splits)
    with l show thesis by (intro looped [OF d, of r']) simp_all
  next
    case False
    with assms have "r \<noteq> None \<and> (db' = db \<or> db' = ?d)"
      by (auto simp: run_migrations_def withMigrationLock_def ensureSchemaMigrationsTable_def migrationStatus_def Let_def
          split: option.splits)
    with d show thesis by (intro before) auto
  qed
qed

lemma migrated_cong:
  "recorded db' = recorded db \<Longrightarrow> mg_schema db' = mg_schema db \<Longrightarrow> migrated eff s0 fs db' = migrated eff s0 fs db"
  by (simp add: migrated_def)

lemma RunUp_migrated:
  assumes "discoverMigrations embedded = Inr files" "scripts_ok run eff files" "migrated eff s0 (take n files) db" "n \<le> length files"
    and "RunUp run f embedded db = (r, db')"
  shows "\<exists>m \<le> length files. migrated eff s0 (take m files) db' \<and> (r = None \<longrightarrow> m = length files)"
  using assms(5) [unfolded RunUp_def] assms(1)
proof (cases rule: run_migrations_cases)
  case before
  with assms(3,4) migrated_cong [OF before(3,2)] show ?thesis by (intro exI [of _ n]) auto
next
  case (looped d r')
  let ?st = "the (mg_versions d)"
  have d: "migrated eff s0 (take n files) d" using assms(3) migrated_cong [OF looped(3,1)] by simp
  have st: "set ?st = mf_version ` set (take n files)" using d looped(2) by (auto simp: migrated_def recorded_def)
  have "up_loop run f ?st (drop n files) d = (r', db')"
    using looped(4) up_loop_skip [of "take n files" ?st run f "drop n files" d] st by simp
  moreover have "mf_version ` set (drop n files) \<inter> set ?st = {}"
  proof -
    have "distinct (map mf_version (take n files @ drop n files))" using discovered_versions(2) [OF assms(1)] by simp
    then show ?thesis unfolding st map_append distinct_append by (simp add: Int_commute del: append_take_drop_id)
  qed
  ultimately obtain m where m: "m \<le> length files - n" "migrated eff s0 (take n files @ take m (drop n files)) db'"
    "r' = None \<longrightarrow> m = length files - n"
    using up_loop_migrated [OF assms(2) _ _ d looped(2), of "drop n files" ?st f r' db'] set_drop_subset [of n files] by auto
  moreover have "take n files @ take m (drop n files) = take (n + m) files" by (simp add: take_add)
  ultimately show ?thesis using assms(4) looped(5) by (intro exI [of _ "n + m"]) auto
qed

lemma RunDown_migrated:
  assumes "discoverMigrations embedded = Inr files" "scripts_ok run eff files" "migrated eff s0 (take n files) db" "n \<le> length files"
    and "RunDown run f embedded db = (r, db')"
  shows "migrated eff s0 (take n files) db' \<and> (r \<noteq> None \<or> n = 0) \<or> migrated eff s0 (take (n - 1) files) db'"
  using assms(5) [unfolded RunDown_def] assms(1)
proof (cases rule: run_migrations_cases)
  case before
  with assms(3,4) migrated_cong [OF before(3,2)] show ?thesis by simp
next
  case (looped d r')
  let ?st = "the (mg_versions d)"
  have d: "migrated eff s0 (take n files) d" using assms(3) migrated_cong [OF looped(3,1)] by simp
  have st: "set ?st = mf_version ` set (take n files)" using d looped(2) by (auto simp: migrated_def recorded_def)
  have "migrated eff s0 (take n files) db' \<and> (r' \<noteq> None \<or> take n files = []) \<or> migrated eff s0 (butlast (take n files)) db'"
    using down_loop_migrated [OF assms(2) _ _ st d looped(2), of "drop n files" f r' db'] looped(4)
      discovered_versions(2) [OF assms(1)] set_take_subset [of n files] by simp
  moreover have "butlast (take n files) = take (n - 1) files" using assms(4) by (rule butlast_take)
  ultimately show ?thesis using looped(5) assms(4) by auto
qed


section \<open>The start after the migrations\<close>

text \<open>
  The embedded files are those of versions 1 to 10. After a successful run the program starts: the
  version it finds is the one it supports.
\<close>

lemma migrated_compatible:
  assumes "migrated eff s0 files db" "map mf_version files = [1, 2, 3, 4, 5, 6, 7, 8, 9, LatestVersion]"
  shows "VerifySchemaCompatibility None db = (LatestVersion, None)"
proof -
  have "mf_version ` set files = set [1, 2, 3, 4, 5, 6, 7, 8, 9, LatestVersion]" using assms(2) by (metis list.set_map)
  with assms(1) have "recorded db = set [1, 2, 3, 4, 5, 6, 7, 8, 9, LatestVersion]" by (simp add: migrated_def)
  then obtain xs where xs: "mg_versions db = Some xs" "set xs = set [1, 2, 3, 4, 5, 6, 7, 8, 9, LatestVersion]"
    by (auto simp: recorded_def split: option.splits)
  then obtain v vs where "xs = v # vs" by (cases xs) auto
  with xs have "mg_versions db = Some (v # vs)" "set (v # vs) = set [1, 2, 3, 4, 5, 6, 7, 8, 9, LatestVersion]" by simp_all
  moreover have "Max (set [1, 2, 3, 4, 5, 6, 7, 8, 9, LatestVersion]) = (LatestVersion :: int64)" by simp
  ultimately show ?thesis by (simp add: VerifySchemaCompatibility_def CurrentVersion_def ValidateSchemaVersion_def del: list.set)
qed

definition sample_embedded :: embedded where
  "sample_embedded = [(''000001_init.up.sql'', ''u1''), (''000001_init.down.sql'', ''d1''), (''2_more.up.sql'', ''u2''), (''2_more.down.sql'', ''d2'')]"

definition sample_files :: "migrationFile list" where
  "sample_files =
     [\<lparr>mf_version = 1, mf_up = ''u1'', mf_down = ''d1'', mf_upPath = ''000001_init.up.sql'', mf_downPath = ''000001_init.down.sql''\<rparr>,
      \<lparr>mf_version = 2, mf_up = ''u2'', mf_down = ''d2'', mf_upPath = ''2_more.up.sql'', mf_downPath = ''2_more.down.sql''\<rparr>]"

definition sample_run :: "string list script_run" where
  "sample_run content st = (if hd content = CHR ''u'' then Inr (content # fst st, snd st) else Inr (tl (fst st), snd st))"

definition sample_eff :: "migrationFile \<Rightarrow> string list \<Rightarrow> string list option" where
  "sample_eff mig s = Some (mf_up mig # s)"

definition sample_failure :: migration_faults where
  "sample_failure = \<lparr>mgf_err = (\<lambda>st. if st = MTrack 2 then Some (Msg ''down'') else None), mgf_commit = (\<lambda>_. CommitOK)\<rparr>"


end
