(* ===== verification/Connection.thy ===== *)
theory Connection
  imports Strings Url Scrub
begin

text \<open>
  \<open>internal/database/db.go\<close>: the connection string with the session timeouts, and the checks before the
  pool is opened. Parsing a URL into its parts and writing it back are parameters.
\<close>

section \<open>The connection string\<close>

text \<open>A parsed URL: the host name, the raw query, and everything else.\<close>

record url =
  u_Hostname :: string
  u_RawQuery :: string
  u_Rest :: string

record url_library =
  ul_Parse :: "string \<Rightarrow> go_error + url"
  ul_String :: "url \<Rightarrow> string"

definition IsNeonPoolerURL :: "externals \<Rightarrow> url_library \<Rightarrow> string \<Rightarrow> bool" where
  "IsNeonPoolerURL X U databaseURL =
     (case ul_Parse U databaseURL of
        Inl _ \<Rightarrow> False
      | Inr parsed \<Rightarrow>
        let host = strings_ToLower X (u_Hostname parsed) in HasSuffix host ''.neon.tech'' \<and> Contains host ''-pooler.'')"

text \<open>\<open>URL.Query\<close> drops what does not parse; \<open>Values.Get\<close> and \<open>Values.Set\<close>.\<close>

definition URL_Query :: "string \<Rightarrow> url_values" where
  "URL_Query rawQuery =
     fold (\<lambda>(k, v). add_value k v) (List.map_filter parse_pair (filter (\<lambda>p. p \<noteq> []) (split_on (CHR ''&'') rawQuery))) []"

definition Values_Get :: "url_values \<Rightarrow> string \<Rightarrow> string" where
  "Values_Get m k = (case map_of m k of Some (v # _) \<Rightarrow> v | _ \<Rightarrow> [])"

definition Values_Set :: "string \<Rightarrow> string \<Rightarrow> url_values \<Rightarrow> url_values" where
  "Values_Set k v m = AList.update k [v] m"

definition timeout_options :: "duration \<Rightarrow> duration \<Rightarrow> duration \<Rightarrow> string list" where
  "timeout_options statementTimeout lockTimeout idleTransactionTimeout =
     (if statementTimeout > 0 then [''-c statement_timeout='' @ itoa (go_div statementTimeout time_Millisecond) @ ''ms''] else []) @
     (if lockTimeout > 0 then [''-c lock_timeout='' @ itoa (go_div lockTimeout time_Millisecond) @ ''ms''] else []) @
     (if idleTransactionTimeout > 0
      then [''-c idle_in_transaction_session_timeout='' @ itoa (go_div idleTransactionTimeout time_Millisecond) @ ''ms''] else [])"

definition withPostgresTimeouts ::
  "externals \<Rightarrow> url_library \<Rightarrow> string \<Rightarrow> duration \<Rightarrow> duration \<Rightarrow> duration \<Rightarrow> go_error + string" where
  "withPostgresTimeouts X U databaseURL statementTimeout lockTimeout idleTransactionTimeout =
     (let options = timeout_options statementTimeout lockTimeout idleTransactionTimeout
      in if IsNeonPoolerURL X U databaseURL then Inr databaseURL
         else if options = [] then Inr databaseURL
         else if \<not> Contains databaseURL ''://''
         then Inr (TrimSpace databaseURL @ '' options='' @ [CHR 0x27] @ join '' '' options @ [CHR 0x27])
         else
           (case ul_Parse U databaseURL of
              Inl e \<Rightarrow> Inl (Wrapf ''parse database URL'' e)
            | Inr parsed \<Rightarrow>
              (let query1 = URL_Query (u_RawQuery parsed);
                   existing = Values_Get query1 ''options'';
                   options1 = (if existing \<noteq> [] then existing # options else options)
               in Inr (ul_String U (parsed\<lparr>u_RawQuery :=
                    Values_Encode (Values_Set ''options'' (join '' '' options1) query1)\<rparr>)))))"

lemma withPostgresTimeouts_total: "ul_Parse U url = Inr parsed \<Longrightarrow> \<exists>url'. withPostgresTimeouts X U url st lt idle = Inr url'"
  unfolding withPostgresTimeouts_def Let_def
  by (cases "IsNeonPoolerURL X U url"; cases "timeout_options st lt idle = []"; cases "Contains url ''://''") simp_all

section \<open>The pool\<close>

record db_config =
  dc_DatabaseURL :: string
  dc_MaxOpenConns :: int64
  dc_MaxIdleConns :: int64
  dc_ConnMaxIdleTime :: duration
  dc_StatementTimeout :: duration
  dc_LockTimeout :: duration
  dc_IdleTransactionTimeout :: duration

text \<open>The settings of an open pool; without an idle time connections stay idle as long as they live.\<close>

record db_pool =
  dp_URL :: string
  dp_MaxOpenConns :: int64
  dp_MaxIdleConns :: int64
  dp_ConnMaxLifetime :: duration
  dp_ConnMaxIdleTime :: "duration option"

text \<open>\<open>connect\<close> is the driver.\<close>

definition NewDB :: "externals \<Rightarrow> url_library \<Rightarrow> (string \<Rightarrow> go_error option) \<Rightarrow> db_config option \<Rightarrow> go_error + db_pool" where
  "NewDB X U connect cfg =
     (case cfg of
        None \<Rightarrow> Inl (Msg ''database configuration is required'')
      | Some c \<Rightarrow>
        if dc_MaxOpenConns c < 1 then Inl (Msg ''max open connections must be at least 1'')
        else if dc_MaxIdleConns c < 0 \<or> dc_MaxIdleConns c > dc_MaxOpenConns c
        then Inl (Msg ''max idle connections must be between 0 and max open connections'')
        else
          (case withPostgresTimeouts X U (dc_DatabaseURL c) (dc_StatementTimeout c) (dc_LockTimeout c) (dc_IdleTransactionTimeout c) of
             Inl e \<Rightarrow> Inl e
           | Inr databaseURL \<Rightarrow>
             (case connect databaseURL of
                Some e \<Rightarrow> Inl (Wrapf ''failed to connect to database'' e)
              | None \<Rightarrow> Inr \<lparr>dp_URL = databaseURL, dp_MaxOpenConns = dc_MaxOpenConns c, dp_MaxIdleConns = dc_MaxIdleConns c,
                  dp_ConnMaxLifetime = 3600 * time_Second,
                  dp_ConnMaxIdleTime = (if dc_ConnMaxIdleTime c > 0 then Some (dc_ConnMaxIdleTime c) else None)\<rparr>)))"

section \<open>An encoded query is read back\<close>

lemma upper_hex_code: "k < 16 \<Longrightarrow> of_char (upper_hex k) = (if k < 10 then 48 + k else 55 + k :: nat)"
  by (simp del: of_char_of add: upper_hex_def of_char_of_nat_small)

lemma nibbles: "of_char c div 16 < (16 :: nat)" "of_char c mod 16 < (16 :: nat)"
proof -
  have "of_char c < (256 :: nat)" by (metis of_char_mod_256 mod_less_divisor zero_less_numeral)
  then show "of_char c div 16 < (16 :: nat)" by (simp add: less_mult_imp_div_less)
qed simp

lemma QueryUnescape_QueryEscape: "QueryUnescape (QueryEscape s) = Some s"
proof (induction s)
  case (Cons c s)
  have n: "hex_nibble (upper_hex k) = Some k" if "k < 16" for k
    using that by (simp add: upper_hex_code Let_def)
  have "char_of (of_char c div 16 * 16 + of_char c mod 16 :: nat) = c" by (metis char_of_char div_mult_mod_eq)
  moreover have "c \<noteq> CHR ''%'' \<and> c \<noteq> CHR ''+''" if "unreserved c"
    using that by (auto simp: unreserved_def is_digit_def)
  ultimately show ?case
    using Cons n [OF nibbles(1)] n [OF nibbles(2)] by (auto simp: QueryEscape_def simp del: hex_nibble.simps)
qed (simp add: QueryEscape_def)

lemma QueryEscape_chars: "set (QueryEscape s) \<inter> {CHR ''&'', CHR ''='', CHR '';''} = {}"
proof -
  have n: "upper_hex k \<notin> {CHR ''&'', CHR ''='', CHR '';''}" if "k < 16" for k
    using upper_hex_code [OF that] by (auto split: if_splits)
  have "\<not> unreserved c" if "c \<in> {CHR ''&'', CHR ''='', CHR '';''}" for c
    using that by (auto simp: unreserved_def is_digit_def)
  moreover have "set (if unreserved c then [c] else if c = CHR '' '' then ''+''
      else [CHR ''%'', upper_hex (of_char c div 16), upper_hex (of_char c mod 16)]) \<inter> {CHR ''&'', CHR ''='', CHR '';''} = {}" for c
    using n [OF nibbles(1) [of c]] n [OF nibbles(2) [of c]] calculation [of c] by auto
  ultimately show ?thesis unfolding QueryEscape_def by (induction s) (simp_all add: Int_Un_distrib2)
qed

definition pair_text :: "string \<times> string \<Rightarrow> string" where
  "pair_text p = QueryEscape (fst p) @ ''='' @ QueryEscape (snd p)"

lemma pair_text_plain: "CHR ''&'' \<notin> set (pair_text p)" "CHR '';'' \<notin> set (pair_text p)" "pair_text p \<noteq> []"
  using QueryEscape_chars [of "fst p"] QueryEscape_chars [of "snd p"] by (auto simp: pair_text_def)

lemma parse_pair_text: "parse_pair (pair_text p) = Some p"
proof -
  have "cut (CHR ''='') (pair_text p) = Some (QueryEscape (fst p), QueryEscape (snd p))"
    using QueryEscape_chars [of "fst p"] unfolding pair_text_def append_Cons append_Nil by (intro cut_append) auto
  with pair_text_plain(2) show ?thesis by (simp add: parse_pair_def QueryUnescape_QueryEscape)
qed

lemma split_joined:
  assumes "\<forall>w \<in> set (w # ws). sep \<notin> set w"
  shows "split_on sep (w @ concat (map (\<lambda>q. sep # q) ws)) = w # ws"
  using assms
proof (induction ws arbitrary: w)
  case Nil
  then have "sep \<notin> set w" by simp
  then show ?case by (induction w) auto
next
  case (Cons v ws)
  from Cons.prems have "sep \<notin> set w" by simp
  moreover have "split_on sep (v @ concat (map (\<lambda>q. sep # q) ws)) = v # ws" using Cons by simp
  ultimately show ?case by (induction w) auto
qed

abbreviation value_pairs :: "url_values \<Rightarrow> (string \<times> string) list" where
  "value_pairs m \<equiv> concat (map (\<lambda>(k, vs). map (Pair k) vs) m)"

lemma add_values:
  assumes "k \<notin> fst ` set acc" "vs \<noteq> []"
  shows "fold (\<lambda>(k, v). add_value k v) (map (Pair k) vs) acc = acc @ [(k, vs)]"
proof -
  have new: "add_value k v acc = acc @ [(k, [v])]" for v
    using assms(1) by (induction acc) auto
  have old: "add_value k v (acc @ [(k, us)]) = acc @ [(k, us @ [v])]" for v us
    using assms(1) by (induction acc) auto
  have "fold (\<lambda>(k, v). add_value k v) (map (Pair k) vs) (acc @ [(k, us)]) = acc @ [(k, us @ vs)]" for us vs
    by (induction vs arbitrary: us) (simp_all add: old)
  with assms(2) new show ?thesis by (cases vs) simp_all
qed

lemma fold_value_pairs:
  assumes "distinct (map fst (acc @ m))" "\<forall>(k, vs) \<in> set m. vs \<noteq> []"
  shows "fold (\<lambda>(k, v). add_value k v) (value_pairs m) acc = acc @ m"
  using assms
proof (induction m arbitrary: acc)
  case (Cons kv m)
  obtain k vs where kv: "kv = (k, vs)" by fastforce
  with Cons.prems have "fold (\<lambda>(k, v). add_value k v) (map (Pair k) vs) acc = acc @ [(k, vs)]"
    by (intro add_values) auto
  with Cons kv show ?case by simp
qed simp

lemma URL_Query_Encode:
  assumes "distinct (map fst m)" "\<forall>(k, vs) \<in> set m. vs \<noteq> []"
  shows "URL_Query (Values_Encode m) = sort_key fst m"
proof -
  let ?m = "sort_key fst m"
  have m: "distinct (map fst ?m)" "\<forall>(k, vs) \<in> set ?m. vs \<noteq> []"
    using assms by (simp_all add: distinct_map)
  have t: "concat (map (\<lambda>(k, vs). map (\<lambda>v. QueryEscape k @ ''='' @ QueryEscape v) vs) ?m) = map pair_text (value_pairs ?m)"
    by (simp add: map_concat pair_text_def comp_def case_prod_unfold)
  have "List.map_filter parse_pair (filter (\<lambda>p. p \<noteq> []) (split_on (CHR ''&'') (Values_Encode m))) = value_pairs ?m"
  proof (cases "value_pairs ?m")
    case Nil
    then show ?thesis by (simp only: Values_Encode_def t Let_def list.map list.case) (simp add: map_filter_simps)
  next
    case (Cons p ps)
    have "split_on (CHR ''&'') (pair_text p @ concat (map (\<lambda>q. CHR ''&'' # q) (map pair_text ps))) = map pair_text (p # ps)"
      using split_joined [of "pair_text p" "map pair_text ps" "CHR ''&''"] pair_text_plain(1) by auto
    moreover have "filter (\<lambda>p. p \<noteq> []) (map pair_text qs) = map pair_text qs" for qs
      using pair_text_plain(3) by (induction qs) auto
    moreover have "List.map_filter parse_pair (map pair_text qs) = qs" for qs
      by (induction qs) (simp_all add: map_filter_simps parse_pair_text)
    moreover have "Values_Encode m = pair_text p @ concat (map (\<lambda>q. CHR ''&'' # q) (map pair_text ps))"
      by (simp only: Values_Encode_def t Cons Let_def list.map list.case)
    ultimately show ?thesis by (simp only: Cons)
  qed
  then show ?thesis using fold_value_pairs [of "[]" ?m] m by (simp add: URL_Query_def)
qed

lemma URL_Query_ok: "distinct (map fst (URL_Query q)) \<and> (\<forall>(k, vs) \<in> set (URL_Query q). vs \<noteq> [])"
proof -
  have keys: "fst ` set (add_value k v m) = insert k (fst ` set m)" for k v m
    by (induction k v m rule: add_value.induct) auto
  have add: "distinct (map fst (add_value k v m)) \<and> (\<forall>(k, vs) \<in> set (add_value k v m). vs \<noteq> [])"
    if "distinct (map fst m) \<and> (\<forall>(k, vs) \<in> set m. vs \<noteq> [])" for k v m
    using that
  proof (induction k v m rule: add_value.induct)
    case (2 k v k' vs m)
    then show ?case using keys [of k v m] by (auto simp: image_iff)
  qed simp
  have "distinct (map fst (fold (\<lambda>(k, v). add_value k v) ps m)) \<and>
      (\<forall>(k, vs) \<in> set (fold (\<lambda>(k, v). add_value k v) ps m). vs \<noteq> [])"
    if "distinct (map fst m) \<and> (\<forall>(k, vs) \<in> set m. vs \<noteq> [])" for ps m
    using that
  proof (induction ps arbitrary: m)
    case (Cons p ps)
    obtain k v where p: "p = (k, v)" by fastforce
    show ?case unfolding p fold_simps split by (rule Cons.IH [OF add [OF Cons.prems]])
  qed simp
  from this [of "[]"] show ?thesis unfolding URL_Query_def by simp
qed

text \<open>
  The timeouts in a URL: every other parameter keeps its values, and the session options are those of the
  operator followed by the timeouts.
\<close>

theorem timeouts_keep_parameters:
  assumes "\<not> IsNeonPoolerURL X U databaseURL" "Contains databaseURL ''://''" "ul_Parse U databaseURL = Inr parsed"
    "timeout_options st lt idle \<noteq> []"
  shows "\<exists>q. withPostgresTimeouts X U databaseURL st lt idle = Inr (ul_String U (parsed\<lparr>u_RawQuery := q\<rparr>)) \<and>
    (\<forall>k. k \<noteq> ''options'' \<longrightarrow> map_of (URL_Query q) k = map_of (URL_Query (u_RawQuery parsed)) k) \<and>
    Values_Get (URL_Query q) ''options'' =
      (let existing = Values_Get (URL_Query (u_RawQuery parsed)) ''options''
       in (if existing = [] then [] else existing @ '' '') @ join '' '' (timeout_options st lt idle))"
proof -
  let ?q = "URL_Query (u_RawQuery parsed)" and ?opts = "timeout_options st lt idle"
  let ?existing = "Values_Get ?q ''options''"
  let ?joined = "join '' '' (if ?existing \<noteq> [] then ?existing # ?opts else ?opts)"
  let ?set = "Values_Set ''options'' ?joined ?q"
  have "distinct (map fst ?set)"
    using URL_Query_ok [of "u_RawQuery parsed"] by (simp add: Values_Set_def distinct_update)
  moreover have "\<forall>(k, vs) \<in> set ?set. vs \<noteq> []"
  proof -
    have "\<forall>(k, vs) \<in> set (AList.update k' [v] m). vs \<noteq> []" if "\<forall>(k, vs) \<in> set m. vs \<noteq> []" for k' v and m :: url_values
      using that by (induction m) auto
    with URL_Query_ok show ?thesis unfolding Values_Set_def by blast
  qed
  ultimately have rt: "URL_Query (Values_Encode ?set) = sort_key fst ?set" and d: "distinct (map fst ?set)"
    by (auto intro: URL_Query_Encode)
  have "map_of (sort_key fst ?set) = map_of ?set"
    using d by (subst map_of_inject_set) (simp_all add: distinct_map)
  then have look: "map_of (URL_Query (Values_Encode ?set)) = (map_of ?q)(''options'' \<mapsto> [?joined])"
    by (simp only: rt) (simp add: Values_Set_def update_conv')
  have "?joined = (if ?existing = [] then [] else ?existing @ '' '') @ join '' '' ?opts"
    using assms(4) by (cases ?opts) (auto simp: join_def)
  with look have "Values_Get (URL_Query (Values_Encode ?set)) ''options'' =
      (if ?existing = [] then [] else ?existing @ '' '') @ join '' '' ?opts"
    by (simp add: Values_Get_def)
  moreover have "withPostgresTimeouts X U databaseURL st lt idle =
      Inr (ul_String U (parsed\<lparr>u_RawQuery := Values_Encode ?set\<rparr>))"
    using assms by (simp add: withPostgresTimeouts_def Let_def)
  ultimately show ?thesis using look by (intro exI [of _ "Values_Encode ?set"]) (simp add: Let_def)
qed

end
