(* ===== verification/Startup.thy ===== *)
theory Startup
  imports Config Migrations Router Connection
begin

text \<open>
  \<open>main.go\<close>: from the command line to the listening server, and its end. What the process meets is an
  argument: the environment, the answers of the database, the scripts of the migrations, the parsers of
  URLs, the listener and the event that ends the server. \<open>log.Fatal\<close> ends the process with a message.
\<close>

section \<open>Helpers\<close>

datatype dotenv_failure = PathError go_error | OtherDotenvError

definition loadEnvironmentFile :: "(string \<Rightarrow> dotenv_failure option) \<Rightarrow> string \<Rightarrow> bool \<Rightarrow> go_error option" where
  "loadEnvironmentFile dotenv path required =
     (case dotenv path of
        None \<Rightarrow> None
      | Some failure \<Rightarrow>
        if \<not> required then None
        else case failure of
               PathError e \<Rightarrow> Some (Wrapf ''load environment file'' e)
             | OtherDotenvError \<Rightarrow>
                 Some (Msg (''load environment file '' @ [CHR 0x22] @ path @ [CHR 0x22] @ '': invalid dotenv syntax'')))"

definition databaseURLForCommand :: "string \<Rightarrow> string \<Rightarrow> bool \<Rightarrow> string" where
  "databaseURLForCommand runtimeURL migrationURL isMigration =
     (if isMigration \<and> migrationURL \<noteq> [] then migrationURL else runtimeURL)"

text \<open>\<open>VerifyRuntimeRole\<close>: the two answers are those of its two queries.\<close>

definition VerifyRuntimeRole :: "go_error + bool \<Rightarrow> go_error + bool \<Rightarrow> go_error option" where
  "VerifyRuntimeRole bypasses owns =
     (case bypasses of
        Inl e \<Rightarrow> Some (Wrapf ''verify runtime role'' e)
      | Inr True \<Rightarrow> Some (Msg (''runtime database role must not be superuser or BYPASSRLS; use a restricted role '' @
          ''and a separate migration owner''))
      | Inr False \<Rightarrow>
        (case owns of
           Inl e \<Rightarrow> Some (Wrapf ''verify runtime ownership'' e)
         | Inr True \<Rightarrow> Some (Msg ''runtime role must not own protected tables or be a member of their owner role'')
         | Inr False \<Rightarrow> None))"

definition NewRedisCounterReadCache :: "(string \<Rightarrow> go_error option) \<Rightarrow> redis_server \<Rightarrow> string \<Rightarrow> int \<Rightarrow> duration \<Rightarrow> go_error + redis_cache" where
  "NewRedisCounterReadCache parse_url server rawURL maxSize ttl =
     (if maxSize < 1 then Inl (Msg ''counter read cache max size must be positive'')
      else if ttl \<le> 0 then Inl (Msg ''counter read cache TTL must be positive'')
      else
        (case parse_url rawURL of
           Some e \<Rightarrow> Inl (Wrapf ''parse counter read cache Redis URL'' e)
         | None \<Rightarrow> Inr \<lparr>rcc_maxSize = maxSize, rcc_ttl = ttl, rcc_unavailableTil = 0, rcc_server = server\<rparr>))"

section \<open>The command\<close>

record flags =
  fl_version :: bool
  fl_env :: string
  fl_envExplicit :: bool
  fl_migrate :: string
  fl_reconcile :: bool

record 's world =
  wd_dotenv :: "string \<Rightarrow> dotenv_failure option"
  wd_env :: environment
  wd_parse_float :: "string \<Rightarrow> float64 option"
  wd_url :: url_library
  wd_connect :: "string \<Rightarrow> go_error option"
  wd_ping :: "go_error option"
  wd_run :: "'s script_run"
  wd_migration_faults :: migration_faults
  wd_embedded :: embedded
  wd_migration_db :: "'s migration_db"
  wd_version_failure :: "go_error option"
  wd_bypasses :: "go_error + bool"
  wd_owns :: "go_error + bool"
  wd_fuel :: nat
  wd_page_faults :: "nat \<Rightarrow> faults"
  wd_tables :: "nat \<Rightarrow> database"
  wd_started :: time
  wd_completed :: time
  wd_redis_url :: "string \<Rightarrow> go_error option"
  wd_redis_server :: redis_server
  wd_hub :: "(request_ctx \<Rightarrow> sentry_request) option"
  wd_listen :: "string \<Rightarrow> go_error option"

record server =
  sv_addr :: string
  sv_router :: router_config
  sv_cache :: cache_impl
  sv_limiter :: rate_limiter
  sv_sharedLimiter :: bool
  sv_health :: health_state
  sv_cleanup :: duration
  sv_ReadTimeout :: duration
  sv_WriteTimeout :: duration
  sv_IdleTimeout :: duration
  sv_Concurrency :: int64
  sv_MaxConnsPerIP :: int64
  sv_MaxRequestBodySize :: int64

text \<open>
  How the command ends: normally, with a fatal message, or as a server, with the migrated database; or it
  is still reconciling after the pages that \<open>wd_fuel\<close> allows.
\<close>

datatype 's main_result =
  Exits "'s migration_db" | Fatal string "'s migration_db" | Serves server "'s migration_db" | Reconciling

abbreviation seconds :: "int64 \<Rightarrow> duration" where "seconds n \<equiv> wrap64 (n * time_Second)"

abbreviation milliseconds :: "int64 \<Rightarrow> duration" where "milliseconds n \<equiv> wrap64 (n * time_Millisecond)"

definition db_config_of :: "config \<Rightarrow> string \<Rightarrow> db_config" where
  "db_config_of cfg url =
     \<lparr>dc_DatabaseURL = url, dc_MaxOpenConns = cf_DBMaxOpenConns cfg, dc_MaxIdleConns = cf_DBMaxIdleConns cfg,
      dc_ConnMaxIdleTime = seconds (cf_DBMaxIdleTime cfg), dc_StatementTimeout = milliseconds (cf_DBStatementTimeoutMS cfg),
      dc_LockTimeout = milliseconds (cf_DBLockTimeoutMS cfg),
      dc_IdleTransactionTimeout = milliseconds (cf_DBIdleTransactionTimeoutMS cfg)\<rparr>"

definition run_migration_command :: "externals \<Rightarrow> 's world \<Rightarrow> string \<Rightarrow> 's main_result" where
  "run_migration_command X w direction =
     (let db = wd_migration_db w
      in if direction = ''up'' then
           (case RunUp (wd_run w) (wd_migration_faults w) (wd_embedded w) db of
              (Some e, db') \<Rightarrow> Fatal (''Migration failed: '' @ error_text X e) db'
            | (None, db') \<Rightarrow> Exits db')
         else if direction = ''down'' then
           (case RunDown (wd_run w) (wd_migration_faults w) (wd_embedded w) db of
              (Some e, db') \<Rightarrow> Fatal (''Migration failed: '' @ error_text X e) db'
            | (None, db') \<Rightarrow> Exits db')
         else Fatal (''Invalid migration direction: '' @ direction @ '' (use 'up' or 'down')'') db)"

definition run_reconciliation :: "externals \<Rightarrow> 's world \<Rightarrow> 's main_result" where
  "run_reconciliation X w =
     (case Reconcile (wd_fuel w) X (wd_page_faults w) (WithAccess context_Background
         \<lparr>acc_TenantID = [], acc_PrincipalID = ''operator-reconcile'', acc_Admin = True, acc_AuthenticationID = []\<rparr>) 100
         (wd_started w) (wd_completed w) (wd_tables w) of
        None \<Rightarrow> Reconciling
      | Some (Some e, _) \<Rightarrow> Fatal (''Reconciliation failed: '' @ error_text X e) (wd_migration_db w)
      | Some (None, report) \<Rightarrow>
          if rp_Mismatches report \<noteq> 0 \<or> rp_InitialValueViolations report \<noteq> 0
          then Fatal ''Reconciliation found inconsistent counter history'' (wd_migration_db w)
          else Exits (wd_migration_db w))"

definition read_cache_of :: "externals \<Rightarrow> 's world \<Rightarrow> config \<Rightarrow> string + cache_impl" where
  "read_cache_of X w cfg =
     (let ttl = seconds (cf_CounterReadCacheTTLSeconds cfg)
      in if cf_CounterReadCacheRedisURL cfg \<noteq> [] then
           (case NewRedisCounterReadCache (wd_redis_url w) (wd_redis_server w) (cf_CounterReadCacheRedisURL cfg)
               (cf_CounterReadCacheMaxEntries cfg) ttl of
              Inl e \<Rightarrow> Inl (''Failed to initialize counter read cache: '' @ error_text X e)
            | Inr c \<Rightarrow> Inr (RedisCache c))
         else
           (case NewMemoryCounterReadCache (cf_CounterReadCacheMaxEntries cfg) ttl of
              Inl e \<Rightarrow> Inl (''Failed to initialize in-memory counter read cache: '' @ error_text X e)
            | Inr c \<Rightarrow> Inr (MemoryCache c)))"

definition cors_config_of :: "config \<Rightarrow> cors_config" where
  "cors_config_of cfg =
     \<lparr>co_AllowedOrigins = cf_CORSAllowedOrigins cfg, co_AllowedMethods = cf_CORSAllowedMethods cfg,
      co_AllowedHeaders = cf_CORSAllowedHeaders cfg, co_AllowCredentials = cf_CORSAllowCredentials cfg,
      co_MaxAge = cf_CORSMaxAge cfg\<rparr>"

text \<open>A shared limiter whose URL does not parse leaves the local one.\<close>

definition shared_limiter :: "'s world \<Rightarrow> config \<Rightarrow> bool" where
  "shared_limiter w cfg \<longleftrightarrow> cf_RateLimitRedisURL cfg \<noteq> [] \<and> wd_redis_url w (cf_RateLimitRedisURL cfg) = None"

text \<open>The server of a configuration, before it listens.\<close>

definition server_of :: "'s world \<Rightarrow> config \<Rightarrow> cache_impl \<Rightarrow> server" where
  "server_of w cfg cache =
     \<lparr>sv_addr = cf_ServerHost cfg @ '':'' @ itoa (cf_ServerPort cfg),
      sv_router =
        \<lparr>rc_cors = cors_config_of cfg,
         rc_apiKey = cf_APIKey cfg, rc_legacyAPIKeyEnabled = cf_LegacyAPIKeyEnabled cfg,
         rc_timeouts = \<lparr>to_Read = seconds (cf_RequestReadTimeoutSeconds cfg),
           to_Mutation = seconds (cf_RequestMutationTimeoutSeconds cfg), to_Database = milliseconds (cf_DBTimeoutMS cfg)\<rparr>,
         rc_maxConcurrency = cf_ServerConcurrency cfg, rc_level = cf_LogLevel cfg, rc_sentryDSN = cf_SentryDSN cfg,
         rc_hub = wd_hub w\<rparr>,
      sv_cache = cache,
      sv_limiter = NewRateLimiter (cf_RateLimitRequests cfg) (cf_RateLimitGetMultiplier cfg) (cf_RateLimitWindow cfg),
      sv_sharedLimiter = shared_limiter w cfg,
      sv_health = NewHealthState LatestVersion,
      sv_cleanup = seconds (cf_RateLimitCleanup cfg),
      sv_ReadTimeout = seconds (cf_ServerReadTimeoutSeconds cfg), sv_WriteTimeout = seconds (cf_ServerWriteTimeoutSeconds cfg),
      sv_IdleTimeout = seconds (cf_ServerIdleTimeoutSeconds cfg), sv_Concurrency = cf_ServerConcurrency cfg,
      sv_MaxConnsPerIP = cf_ServerMaxConnsPerIP cfg, sv_MaxRequestBodySize = cf_MaxRequestBodyBytes cfg\<rparr>"

definition start_server :: "externals \<Rightarrow> 's world \<Rightarrow> config \<Rightarrow> int64 \<Rightarrow> 's main_result" where
  "start_server X w cfg schemaVersion =
     (case read_cache_of X w cfg of
        Inl message \<Rightarrow> Fatal message (wd_migration_db w)
      | Inr cache \<Rightarrow>
        (let s = server_of w cfg cache
         in case wd_listen w (sv_addr s) of
              Some e \<Rightarrow> Fatal (''Failed to bind server on '' @ sv_addr s @ '': '' @ error_text X e) (wd_migration_db w)
            | None \<Rightarrow> Serves (s\<lparr>sv_health := MarkStarted schemaVersion (sv_health s)\<rparr>) (wd_migration_db w)))"

text \<open>The checks of schema and role stand before everything but the migrations.\<close>

definition run_service :: "externals \<Rightarrow> flags \<Rightarrow> 's world \<Rightarrow> config \<Rightarrow> 's main_result" where
  "run_service X fl w cfg =
     (case VerifySchemaCompatibility (wd_version_failure w) (wd_migration_db w) of
        (_, Some e) \<Rightarrow> Fatal (''Database schema is not compatible: '' @ error_text X e) (wd_migration_db w)
      | (schemaVersion, None) \<Rightarrow>
        (case VerifyRuntimeRole (wd_bypasses w) (wd_owns w) of
           Some e \<Rightarrow> Fatal (''Unsafe runtime database role: '' @ error_text X e) (wd_migration_db w)
         | None \<Rightarrow> if fl_reconcile fl then run_reconciliation X w else start_server X w cfg schemaVersion))"

definition main :: "externals \<Rightarrow> flags \<Rightarrow> 's world \<Rightarrow> 's main_result" where
  "main X fl w =
     (let db = wd_migration_db w; isMigration = (fl_migrate fl \<noteq> [])
      in if fl_version fl then Exits db
         else
           (case loadEnvironmentFile (wd_dotenv w) (fl_env fl) (fl_envExplicit fl) of
              Some e \<Rightarrow> Fatal (error_text X e) db
            | None \<Rightarrow>
              (case fst (Load (wd_parse_float w) (wd_env w)) of
                 Inl e \<Rightarrow> Fatal (''Failed to load configuration: '' @ error_text X e) db
               | Inr cfg \<Rightarrow>
                 (let url = databaseURLForCommand (cf_DatabaseURL cfg) (cf_MigrationDatabaseURL cfg) isMigration
                  in if isMigration \<and> IsNeonPoolerURL X (wd_url w) url
                     then Fatal (''database migrations require a direct Neon URL; set MIGRATION_DATABASE_URL '' @
                       ''without the -pooler hostname'') db
                     else
                       (case NewDB X (wd_url w) (wd_connect w) (Some (db_config_of cfg url)) of
                          Inl e \<Rightarrow> Fatal (''Failed to connect to database: '' @ error_text X e) db
                        | Inr _ \<Rightarrow>
                          (case wd_ping w of
                             Some e \<Rightarrow> Fatal (''Failed to ping database: '' @ error_text X e) db
                           | None \<Rightarrow>
                               if isMigration then run_migration_command X w (fl_migrate fl)
                               else run_service X fl w cfg))))))"

text \<open>The end: after a signal the process drains before it stops; a server that ends by itself just stops.\<close>

datatype stop = Signalled | Ended

fun shut_down :: "stop \<Rightarrow> health_state \<Rightarrow> health_state list" where
  "shut_down Signalled s = [MarkDraining s, MarkStopped (MarkDraining s)]"
| "shut_down Ended s = [MarkStopped s]"

section \<open>What has been checked when the server listens\<close>

lemma main_Serves:
  assumes "main X fl w = Serves s db"
  obtains cfg warnings cache where "Load (wd_parse_float w) (wd_env w) = (Inr cfg, warnings)"
    "VerifySchemaCompatibility (wd_version_failure w) db = (LatestVersion, None)"
    "wd_bypasses w = Inr False" "wd_owns w = Inr False" "db = wd_migration_db w" "wd_ping w = None"
    "s = (server_of w cfg cache)\<lparr>sv_health := MarkStarted LatestVersion (NewHealthState LatestVersion)\<rparr>"
    "read_cache_of X w cfg = Inr cache"
proof -
  let ?v = "VerifySchemaCompatibility (wd_version_failure w) (wd_migration_db w)"
  obtain r warnings where l: "Load (wd_parse_float w) (wd_env w) = (r, warnings)" by fastforce
  from assms obtain cfg where r: "r = Inr cfg" and ping: "wd_ping w = None"
    and run: "(if fl_migrate fl \<noteq> [] then run_migration_command X w (fl_migrate fl) else run_service X fl w cfg) = Serves s db"
    by (auto simp: main_def l Let_def split: if_splits option.splits sum.splits)
  have "run_migration_command X w (fl_migrate fl) \<noteq> Serves s db"
    by (auto simp: run_migration_command_def Let_def split: prod.splits option.splits if_splits)
  with run have svc: "run_service X fl w cfg = Serves s db" by (simp split: if_splits)
  have "run_reconciliation X w \<noteq> Serves s db"
    by (auto simp: run_reconciliation_def split: prod.splits option.splits if_splits)
  with svc obtain v where v: "?v = (v, None)" and role: "VerifyRuntimeRole (wd_bypasses w) (wd_owns w) = None"
    and st: "start_server X w cfg v = Serves s db"
    by (auto simp: run_service_def split: prod.splits option.splits if_splits)
  have v10: "v = LatestVersion"
    using v by (auto simp: VerifySchemaCompatibility_def ValidateSchemaVersion_def split: sum.splits if_splits)
  have b: "wd_bypasses w = Inr False" "wd_owns w = Inr False"
    using role by (auto simp: VerifyRuntimeRole_def split: sum.splits bool.splits)
  from st obtain cache where "read_cache_of X w cfg = Inr cache" "db = wd_migration_db w"
    "s = (server_of w cfg cache)\<lparr>sv_health := MarkStarted v (sv_health (server_of w cfg cache))\<rparr>"
    by (auto simp: start_server_def Let_def split: sum.splits option.splits)
  with l r v v10 b ping show thesis by (intro that [of cfg warnings cache]) (simp_all add: server_of_def)
qed

lemma mem_cache_started: "read_cache_of X w cfg = Inr cache \<Longrightarrow> cache \<noteq> NoCache"
  by (auto simp: read_cache_of_def Let_def split: if_splits sum.splits)

text \<open>
  C14. The program listens only when it may. When the command ends up serving, the configuration it
  loaded is usable, the database answered, the highest recorded migration is the version the program
  supports, and its role neither bypasses the row-level policies nor owns the tables. The process is ready
  from then on, is not ready from the moment it is told to stop, and is no longer alive at the end.
\<close>

theorem startup_checked:
  assumes "main X fl w = Serves s db"
  shows "(\<exists>cfg warnings. Load (wd_parse_float w) (wd_env w) = (Inr cfg, warnings) \<and> usable cfg \<and>
      rc_apiKey (sv_router s) = cf_APIKey cfg \<and> sv_MaxRequestBodySize s = cf_MaxRequestBodyBytes cfg) \<and>
    wd_ping w = None \<and> wd_bypasses w = Inr False \<and> wd_owns w = Inr False \<and> CurrentVersion None db = Inr LatestVersion \<and>
    sv_cache s \<noteq> NoCache \<and> CheckReady (Some (Inr ())) (sv_health s) = None \<and>
    list_all (\<lambda>h. CheckReady (Some (Inr ())) h \<noteq> None) (shut_down why (sv_health s)) \<and>
    \<not> Live (last (shut_down why (sv_health s)))"
proof -
  from assms obtain cfg warnings cache where m: "Load (wd_parse_float w) (wd_env w) = (Inr cfg, warnings)"
    "VerifySchemaCompatibility (wd_version_failure w) db = (LatestVersion, None)"
    "wd_bypasses w = Inr False" "wd_owns w = Inr False" "wd_ping w = None"
    "s = (server_of w cfg cache)\<lparr>sv_health := MarkStarted LatestVersion (NewHealthState LatestVersion)\<rparr>"
    "read_cache_of X w cfg = Inr cache" by (rule main_Serves)
  have "CurrentVersion None db = Inr LatestVersion"
    using m(2) by (auto simp: VerifySchemaCompatibility_def CurrentVersion_def ValidateSchemaVersion_def
        split: sum.splits option.splits list.splits if_splits)
  with m Load_usable [OF m(1)] mem_cache_started [OF m(7)] show ?thesis
    by (cases why) (auto simp: server_of_def CheckReady_def MarkStarted_def NewHealthState_def MarkDraining_def MarkStopped_def Live_def)
qed

definition sample_world :: "string list world" where
  "sample_world =
     \<lparr>wd_dotenv = (\<lambda>_. Some OtherDotenvError),
      wd_env = [''DATABASE_URL'' \<mapsto> ''postgres://db/app'', ''API_KEY'' \<mapsto> ''secret'', ''SERVER_PORT'' \<mapsto> ''80x''],
      wd_parse_float = (\<lambda>_. None), wd_url = \<lparr>ul_Parse = (\<lambda>s. Inr \<lparr>u_Hostname = ''db'', u_RawQuery = [], u_Rest = s\<rparr>), ul_String = u_Rest\<rparr>, wd_connect = (\<lambda>_. None), wd_ping = None,
      wd_run = sample_run, wd_migration_faults = sample_failure, wd_embedded = sample_embedded,
      wd_migration_db = \<lparr>mg_versions = Some [1, 2, 3, 4, 5, 6, 7, 8, 9, 10], mg_schema = []\<rparr>, wd_version_failure = None,
      wd_bypasses = Inr False, wd_owns = Inr False, wd_fuel = 0, wd_page_faults = (\<lambda>_. no_faults),
      wd_tables = (\<lambda>_. empty_database), wd_started = 0, wd_completed = 0, wd_redis_url = (\<lambda>_. None),
      wd_redis_server = \<lparr>rd_values = [], rd_lru = [], rd_expiry = []\<rparr>, wd_hub = None, wd_listen = (\<lambda>_. None)\<rparr>"

definition sample_flags :: flags where
  "sample_flags = \<lparr>fl_version = False, fl_env = ''.env'', fl_envExplicit = False, fl_migrate = [], fl_reconcile = False\<rparr>"

abbreviation "sample_settings \<equiv> read_config (wd_parse_float sample_world) (wd_env sample_world)"

lemma sample_loaded: "fst (Load (wd_parse_float sample_world) (wd_env sample_world)) = Inr sample_settings"
  by code_simp

lemma sample_values:
  "cf_DBMaxOpenConns sample_settings = 25" "cf_DBMaxIdleConns sample_settings = 5" "cf_CounterReadCacheRedisURL sample_settings = []"
  "cf_CounterReadCacheMaxEntries sample_settings = 1000" "cf_CounterReadCacheTTLSeconds sample_settings = 300"
  by code_simp+

lemma sample_connected:
  "\<exists>pool. NewDB sample_ext (wd_url sample_world) (wd_connect sample_world) (Some (db_config_of sample_settings u)) = Inr pool"
proof -
  let ?c = "db_config_of sample_settings u"
  have "ul_Parse (wd_url sample_world) u = Inr \<lparr>u_Hostname = ''db'', u_RawQuery = [], u_Rest = u\<rparr>"
    by (simp add: sample_world_def)
  then obtain url where "withPostgresTimeouts sample_ext (wd_url sample_world) u (dc_StatementTimeout ?c) (dc_LockTimeout ?c)
      (dc_IdleTransactionTimeout ?c) = Inr url" using withPostgresTimeouts_total by blast
  moreover have "dc_MaxOpenConns ?c = 25" "dc_MaxIdleConns ?c = 5" "dc_DatabaseURL ?c = u"
    by (simp_all add: db_config_of_def sample_values)
  moreover have "wd_connect sample_world url = None" by (simp add: sample_world_def)
  ultimately show ?thesis by (simp add: NewDB_def)
qed

lemma sample_serves: "\<exists>s. main sample_ext sample_flags sample_world = Serves s (wd_migration_db sample_world)"
proof -
  have "VerifySchemaCompatibility (wd_version_failure sample_world) (wd_migration_db sample_world) = (LatestVersion, None)"
    by (simp add: sample_world_def VerifySchemaCompatibility_def CurrentVersion_def ValidateSchemaVersion_def)
  moreover have "VerifyRuntimeRole (wd_bypasses sample_world) (wd_owns sample_world) = None"
    by (simp add: sample_world_def VerifyRuntimeRole_def)
  moreover have "\<exists>cache. read_cache_of sample_ext sample_world sample_settings = Inr cache"
  proof -
    have "seconds 300 = 300000000000" by code_simp
    then show ?thesis by (simp add: read_cache_of_def sample_values NewMemoryCounterReadCache_def Let_def)
  qed
  moreover have "wd_listen sample_world a = None" "wd_connect sample_world c = None" "wd_ping sample_world = None"
    "wd_dotenv sample_world e = Some OtherDotenvError" for a c e
    by (simp_all add: sample_world_def)
  moreover note sample_connected
  ultimately show ?thesis
    by (auto simp: main_def sample_flags_def loadEnvironmentFile_def sample_loaded run_service_def start_server_def Let_def
        split: sum.splits) (metis sum.distinct(1))+
qed

theorem startup_checked_witness:
  "\<exists>s db. main sample_ext sample_flags sample_world = Serves s db \<and> CurrentVersion None db = Inr LatestVersion \<and>
     sv_cache s \<noteq> NoCache \<and> CheckReady (Some (Inr ())) (sv_health s) = None"
proof -
  obtain s db where m: "main sample_ext sample_flags sample_world = Serves s db" using sample_serves by blast
  from startup_checked [OF m] m show ?thesis by blast
qed

end
