(* ===== verification/Exposition.thy ===== *)
theory Exposition
  imports Middleware
begin

text \<open>
  \<open>RenderPrometheus\<close> of \<open>internal/observability/metrics.go\<close>: the text of the metrics. The printing of a
  number of seconds with \<open>%g\<close> is a parameter that takes nanoseconds. Strings are compared byte by byte.
\<close>

section \<open>The text\<close>

record pool_metrics =
  pm_OpenConnections :: int64
  pm_InUse :: int64
  pm_Idle :: int64
  pm_WaitCount :: int64
  pm_WaitDuration :: duration

text \<open>What the runtime reports.\<close>

record runtime_stats =
  ru_goroutines :: nat
  ru_heapAlloc :: nat
  ru_heapSys :: nat
  ru_numGC :: nat
  ru_pauseTotalNs :: nat

abbreviation newline :: char where "newline \<equiv> CHR 0x0A"

definition in_quotes :: "string \<Rightarrow> string" where
  "in_quotes s = CHR 0x22 # s @ [CHR 0x22]"

definition knownEvents :: "string list" where
  "knownEvents = [''idempotency_conflict'', ''idempotency_replay'', ''overload_rejected'', ''rate_limit_rejected'',
     ''rate_limit_backend_fallback'', ''reconciliation_mismatch'', ''service_error'', ''transaction_error'']"

definition request_labels :: "string \<times> string \<times> int \<Rightarrow> string" where
  "request_labels key = (case key of (meth, route, status) \<Rightarrow>
     ''method='' @ in_quotes (escapeLabel meth) @ '',route='' @ in_quotes (escapeLabel route) @
     '',status='' @ in_quotes (itoa status))"

definition request_lines :: "(int \<Rightarrow> string) \<Rightarrow> metrics \<Rightarrow> string list" where
  "request_lines seconds_text m =
     concat (map (\<lambda>(key, count, total).
         [''counter_requests_total{'' @ request_labels key @ ''} '' @ itoa (int count),
          ''counter_request_duration_seconds_sum{'' @ request_labels key @ ''} '' @ seconds_text total])
       (sort_key (\<lambda>((meth, route, status), _). (route, meth, status)) (mt_requests m)))"

definition event_lines :: "metrics \<Rightarrow> string list" where
  "event_lines m =
     map (\<lambda>name. ''counter_events_total{name='' @ in_quotes (escapeLabel name) @ ''} '' @
         itoa (int (case map_of (mt_events m) name of None \<Rightarrow> 0 | Some n \<Rightarrow> n)))
       (sort (knownEvents @ filter (\<lambda>name. name \<notin> set knownEvents) (map fst (mt_events m))))"

definition pool_lines :: "(int \<Rightarrow> string) \<Rightarrow> pool_metrics \<Rightarrow> string list" where
  "pool_lines seconds_text pool =
     [''# TYPE counter_database_pool gauge'',
      ''counter_database_pool{state='' @ in_quotes ''open'' @ ''} '' @ itoa (pm_OpenConnections pool),
      ''counter_database_pool{state='' @ in_quotes ''in_use'' @ ''} '' @ itoa (pm_InUse pool),
      ''counter_database_pool{state='' @ in_quotes ''idle'' @ ''} '' @ itoa (pm_Idle pool),
      ''# TYPE counter_database_pool_wait_total counter'',
      ''counter_database_pool_wait_total '' @ itoa (pm_WaitCount pool),
      ''# TYPE counter_database_pool_wait_duration_seconds counter'',
      ''counter_database_pool_wait_duration_seconds '' @ seconds_text (pm_WaitDuration pool)]"

definition runtime_lines :: "(int \<Rightarrow> string) \<Rightarrow> runtime_stats \<Rightarrow> string list" where
  "runtime_lines seconds_text ru =
     [''# TYPE counter_go_runtime_goroutines gauge'',
      ''counter_go_runtime_goroutines '' @ itoa (int (ru_goroutines ru)),
      ''# TYPE counter_go_runtime_heap_alloc_bytes gauge'',
      ''counter_go_runtime_heap_alloc_bytes '' @ itoa (int (ru_heapAlloc ru)),
      ''# TYPE counter_go_runtime_heap_sys_bytes gauge'',
      ''counter_go_runtime_heap_sys_bytes '' @ itoa (int (ru_heapSys ru)),
      ''# TYPE counter_go_runtime_gc_cycles_total counter'',
      ''counter_go_runtime_gc_cycles_total '' @ itoa (int (ru_numGC ru)),
      ''# TYPE counter_go_runtime_gc_pause_seconds_total counter'',
      ''counter_go_runtime_gc_pause_seconds_total '' @ seconds_text (int (ru_pauseTotalNs ru))]"

definition metric_lines ::
  "(int \<Rightarrow> string) \<Rightarrow> runtime_stats \<Rightarrow> pool_metrics \<Rightarrow> string \<Rightarrow> int64 \<Rightarrow> metrics \<Rightarrow> string list" where
  "metric_lines seconds_text ru pool version schemaVersion m =
     [''# TYPE counter_requests_total counter''] @ request_lines seconds_text m @
     [''# TYPE counter_events_total counter''] @ event_lines m @ pool_lines seconds_text pool @ runtime_lines seconds_text ru @
     [''# TYPE counter_build_info gauge'',
      ''counter_build_info{version='' @ in_quotes (escapeLabel version) @ '',schema_version='' @ in_quotes (itoa schemaVersion) @ ''} 1'']"

definition RenderPrometheus ::
  "(int \<Rightarrow> string) \<Rightarrow> runtime_stats \<Rightarrow> pool_metrics \<Rightarrow> string \<Rightarrow> int64 \<Rightarrow> metrics option \<Rightarrow> string" where
  "RenderPrometheus seconds_text ru pool version schemaVersion m =
     concat (map (\<lambda>l. l @ [newline])
       (metric_lines seconds_text ru pool version schemaVersion (case m of None \<Rightarrow> NewMetrics | Some r \<Rightarrow> r)))"

section \<open>No value breaks out of its label\<close>

lemma escapeLabel_line: "newline \<notin> set (escapeLabel s)"
  by (induction s) (auto simp: escapeLabel_def)

text \<open>Reading an escaped label up to its closing quote gives the value back and the rest of the line.\<close>

fun unescape_label :: "string \<Rightarrow> (string \<times> string) option" where
  "unescape_label [] = None"
| "unescape_label (c # cs) =
     (if c = CHR 0x22 then Some ([], cs)
      else if c = CHR 0x5C then
        (case cs of
           [] \<Rightarrow> None
         | d # ds \<Rightarrow> map_option (\<lambda>(v, r). ((if d = CHR ''n'' then newline else d) # v, r)) (unescape_label ds))
      else map_option (\<lambda>(v, r). (c # v, r)) (unescape_label cs))"

lemma unescape_escape: "unescape_label (escapeLabel s @ CHR 0x22 # rest) = Some (s, rest)"
  by (induction s) (auto simp: escapeLabel_def)

lemma itoa_line: "newline \<notin> set (itoa i)"
proof -
  have "\<forall>c \<in> set (digits n). is_digit c" for n
  proof (induction n rule: digits.induct)
    case (1 n)
    show ?case using 1 is_digit_digit by (subst digits.simps) auto
  qed
  moreover have "\<not> is_digit newline" by (simp add: is_digit_def)
  ultimately show ?thesis by (auto simp: itoa_def)
qed

lemma split_lines:
  assumes "\<forall>l \<in> set ls. newline \<notin> set l"
  shows "split_on newline (concat (map (\<lambda>l. l @ [newline]) ls)) = ls @ [[]]"
proof -
  have "split_on newline (l @ newline # r) = l # split_on newline r" if "newline \<notin> set l" for l r
    using that by (induction l) auto
  with assms show ?thesis by (induction ls) auto
qed

lemma request_labels_line: "newline \<notin> set (request_labels key)"
  using escapeLabel_line itoa_line by (auto simp: request_labels_def in_quotes_def split: prod.split)



section \<open>The size of the registry\<close>

text \<open>The keys of the registry after a sequence of requests are the labels of those requests.\<close>

lemma RecordRequest_keys:
  "fst ` set (mt_requests (RecordRequest meth route status d m)) =
     insert (meth, route, status) (fst ` set (mt_requests m))"
  by (simp add: RecordRequest_def Let_def AList.update_conv' flip: dom_map_of_conv_image_fst split: prod.split)

lemma RecordRequests_keys:
  "fst ` set (mt_requests (fold (\<lambda>p. RecordRequest meth (f p) status d) ps m)) =
     (\<lambda>p. (meth, f p, status)) ` set ps \<union> fst ` set (mt_requests m)"
  by (induction ps arbitrary: m) (auto simp: RecordRequest_keys)

text \<open>A path that repeats a segment the template keeps.\<close>

definition v2_path :: "nat \<Rightarrow> string" where
  "v2_path n = concat (replicate n ''/v2'')"

lemma v2_path_template:
  assumes "uuid_parse X ''v2'' = None"
  shows "RouteTemplate X (v2_path n) = v2_path n"
proof -
  have "split_on (CHR ''/'') (v2_path n) = [] # replicate n ''v2''"
    by (induction n) (simp_all add: v2_path_def)
  moreover have "template_segment X ''v2'' = ''v2''" "template_segment X [] = []"
    using assms by (simp_all add: template_segment_def staticSegments_def)
  moreover have "join ''/'' ([] # replicate n ''v2'') = v2_path n"
    by (induction n) (simp_all add: v2_path_def join_def)
  ultimately show ?thesis by (simp add: RouteTemplate_def)
qed

lemma v2_path_inj: "inj v2_path"
proof (rule injI)
  fix i j assume "v2_path i = v2_path j"
  moreover have "length (v2_path n) = 3 * n" for n by (induction n) (simp_all add: v2_path_def)
  ultimately show "i = j" by (metis mult_left_cancel zero_neq_numeral)
qed

text \<open>
  The registry is not bounded by the route templates. The template keeps a segment of the known set
  however often it occurs, so for every number there is a set of as many paths, each of an unknown route,
  that leave as many entries in the registry.
\<close>

theorem metrics_cardinality_unbounded:
  assumes "uuid_parse X ''v2'' = None"
  shows "card (fst ` set (mt_requests
           (fold (\<lambda>p. RecordRequest ''GET'' (RouteTemplate X p) 404 d) (map v2_path [0..<n]) NewMetrics))) = n"
proof -
  have "fst ` set (mt_requests
      (fold (\<lambda>p. RecordRequest ''GET'' (RouteTemplate X p) 404 d) (map v2_path [0..<n]) NewMetrics)) =
    (\<lambda>p. (''GET'', RouteTemplate X p, 404)) ` v2_path ` {0..<n}"
    by (simp add: RecordRequests_keys NewMetrics_def)
  also have "\<dots> = (\<lambda>i. (''GET'', v2_path i, 404)) ` {0..<n}"
    by (simp add: image_image v2_path_template [OF assms])
  also have "card \<dots> = card {0..<n}"
    using v2_path_inj by (intro card_image) (auto simp: inj_on_def)
  finally show ?thesis by simp
qed

theorem metrics_cardinality_unbounded_witness:
  "card (fst ` set (mt_requests (fold (\<lambda>p. RecordRequest ''GET''
       (RouteTemplate (sample_ext\<lparr>uuid_parse := \<lambda>s. if length s = 36 then Some (to_lower s) else None\<rparr>) p) 404 1)
     (map v2_path [0..<1000000]) NewMetrics))) = 1000000"
proof -
  have "uuid_parse (sample_ext\<lparr>uuid_parse := \<lambda>s. if length s = 36 then Some (to_lower s) else None\<rparr>) ''v2'' = None" by simp
  then show ?thesis by (rule metrics_cardinality_unbounded)
qed

end
