(* ===== verification/Docs_Page.thy ===== *)
theory Docs_Page
  imports Strings Scrub
begin

text \<open>
  \<open>cmd/docs-generator/main.go\<close>: which requests of the collection the page shows, what of their
  documentation it keeps, and the conversion of that documentation from Markdown to HTML. The frame of the
  page and the table of the references are constants and are left out.
\<close>

abbreviation backtick :: string where "backtick \<equiv> [CHR 0x60]"

abbreviation fence :: string where "fence \<equiv> [CHR 0x60, CHR 0x60, CHR 0x60]"

abbreviation line_end :: char where "line_end \<equiv> CHR 0x0A"

section \<open>The requests of the page\<close>

record bruno_request =
  br_Name :: string
  br_Type :: string
  br_Seq :: int64
  br_Method :: string
  br_URL :: string
  br_Docs :: string

definition displayName :: "bruno_request \<Rightarrow> string" where
  "displayName req = TrimPrefix (br_Name req) ''V2 ''"

definition displayPath :: "string \<Rightarrow> string" where
  "displayPath raw =
     ReplaceAll (ReplaceAll (ReplaceAll raw ''{{BASE_URL}}'' ''{base_url}'') ''{{tenant_id}}'' ''{tenant_id}'')
       ''{{counter_id}}'' ''{counter_id}''"

definition slugify :: "externals \<Rightarrow> string \<Rightarrow> string" where
  "slugify X s = strings_ToLower X (ReplaceAll (ReplaceAll s '' '' ''-'') ''/'' ''-'')"

definition wanted :: "string list" where
  "wanted = [''Create Tenant'', ''Get Tenant'', ''Create Credential'', ''Create Counter'', ''List Counters'', ''Get Counter'',
     ''Increment Counter'', ''Set Counter'', ''V2 Operation History'', ''Get Metadata'', ''Put Metadata'', ''Delete Metadata'']"

definition credential_request_doc :: bruno_request where
  "credential_request_doc =
     \<lparr>br_Name = ''Create Credential'', br_Type = [], br_Seq = 0, br_Method = ''POST'',
      br_URL = ''{{BASE_URL}}/v2/tenants/{tenant_id}/credentials'',
      br_Docs = ''Creates a tenant-scoped key. Requires the administrator API key. '' @
        ''The secret is returned once; store it securely. Supported scopes: '' @
        concat (map (\<lambda>s. backtick @ s @ backtick @ '', '')
          [''tenant:read'', ''counter:read'', ''counter:list'', ''counter:create'', ''counter:increment'', ''counter:adjust'',
           ''counter:history'', ''metadata:read'']) @ ''and '' @ backtick @ ''metadata:write'' @ backtick @
        ''. By default, keys receive read, increment, and history scopes; listing, counter creation, adjustment, '' @
        ''and metadata access must be granted explicitly.''\<rparr>"

text \<open>Of two requests with one name the later counts.\<close>

definition homepageRequests :: "bruno_request list \<Rightarrow> bruno_request list" where
  "homepageRequests all_requests =
     (let byName = fold (\<lambda>req m. m(br_Name req \<mapsto> req)) all_requests Map.empty;
          byName1 = (if byName ''Create Credential'' = None
                     then byName(br_Name credential_request_doc \<mapsto> credential_request_doc) else byName)
      in List.map_filter byName1 wanted)"

section \<open>What is kept of the documentation\<close>

definition homepageDocs :: "externals \<Rightarrow> bruno_request \<Rightarrow> string" where
  "homepageDocs X req =
     TrimSpace (join [line_end]
       (filter (\<lambda>line.
          let trimmed = TrimSpace line; lower = strings_ToLower X trimmed
          in \<not> (HasPrefix trimmed ''# '' \<or> Contains lower ''v1'' \<or> Contains lower ''v2'' \<or>
                Contains trimmed ''canonical contract'' \<or> Contains trimmed ''docs/api-v2.md''))
         (split_on line_end (br_Docs req))))"

definition skipped_headings :: "string list" where
  "skipped_headings = [''request'', ''request body'', ''response'', ''url parameters'', ''query parameters'', ''headers'',
     ''fields'', ''examples'', ''response (201 created)'']"

text \<open>The state: skipping to the next heading, inside a code block, the lines kept.\<close>

definition supplemental_line :: "externals \<Rightarrow> string \<Rightarrow> bool \<times> bool \<times> string list \<Rightarrow> bool \<times> bool \<times> string list" where
  "supplemental_line X line st =
     (case st of (skipUntilHeading, skipCodeBlock, kept) \<Rightarrow>
        let trimmed = TrimSpace line; lower = strings_ToLower X trimmed;
            isHeading = (HasPrefix trimmed ''## '' \<or> HasPrefix trimmed ''### '');
            heading = strings_ToLower X (TrimLeft trimmed ''# '');
            skip1 = (if isHeading then False else skipUntilHeading)
        in if HasPrefix trimmed fence then (skipUntilHeading, \<not> skipCodeBlock, kept)
           else if skipCodeBlock then st
           else if isHeading \<and> heading \<in> set skipped_headings
           then (heading \<noteq> ''request'' \<and> heading \<noteq> ''response'', skipCodeBlock, kept)
           else if skip1 then (skip1, skipCodeBlock, kept)
           else if Contains lower ''docs/api-v2.md'' \<or> Contains lower ''canonical contract'' \<or>
                   Contains lower ''v2 is the recommended contract''
           then (skip1, skipCodeBlock, kept)
           else (skip1, skipCodeBlock, kept @ [line]))"

definition homepageSupplementalDocs :: "externals \<Rightarrow> bruno_request \<Rightarrow> string" where
  "homepageSupplementalDocs X req =
     (case fold (supplemental_line X) (split_on line_end (homepageDocs X req)) (False, False, []) of
        (_, _, kept) \<Rightarrow> TrimSpace (join [line_end] kept))"

section \<open>Markdown within a line\<close>

definition next_marker :: "string \<Rightarrow> (nat \<times> string \<times> string) option" where
  "next_marker md =
     (case (Index md backtick, Index md ''**'') of
        (None, None) \<Rightarrow> None
      | (Some codeAt, None) \<Rightarrow> Some (codeAt, backtick, ''code'')
      | (None, Some boldAt) \<Rightarrow> Some (boldAt, ''**'', ''strong'')
      | (Some codeAt, Some boldAt) \<Rightarrow>
          if boldAt < codeAt then Some (boldAt, ''**'', ''strong'') else Some (codeAt, backtick, ''code''))"

lemma next_marker_Some:
  assumes "next_marker md = Some (markerAt, marker, tag)"
  shows "Index md marker = Some markerAt \<and> (marker, tag) \<in> {(backtick, ''code''), (''**'', ''strong'')}"
  using assms by (auto simp: next_marker_def split: option.splits if_splits)

lemma marker_within: "next_marker md = Some (markerAt, marker, tag) \<Longrightarrow> md \<noteq> [] \<and> marker \<noteq> []"
  using next_marker_Some [of md markerAt marker tag] Index_Some [of md marker markerAt] by auto

function renderInlineMarkdown :: "string \<Rightarrow> string" where
  "renderInlineMarkdown md =
     (case next_marker md of
        None \<Rightarrow> EscapeString md
      | Some (markerAt, marker, tag) \<Rightarrow>
        (let afterMarker = drop (markerAt + length marker) md
         in case Index afterMarker marker of
              None \<Rightarrow> EscapeString (take markerAt md) @ EscapeString (drop markerAt md)
            | Some endAt \<Rightarrow>
                EscapeString (take markerAt md) @ ''<'' @ tag @ ''>'' @ EscapeString (take endAt afterMarker) @
                ''</'' @ tag @ ''>'' @ renderInlineMarkdown (drop (endAt + length marker) afterMarker)))"
  by auto
termination
  by (relation "measure length") (auto dest!: marker_within)

declare renderInlineMarkdown.simps [simp del]

section \<open>Markdown by lines\<close>

text \<open>
  The state of the loop: what was written, piece by piece, and whether a code block and a list are open.
\<close>

record markdown_state =
  ms_result :: "string list"
  ms_inCodeBlock :: bool
  ms_inList :: bool

definition WriteString :: "string \<Rightarrow> markdown_state \<Rightarrow> markdown_state" where
  "WriteString s st = st\<lparr>ms_result := ms_result st @ [s]\<rparr>"

definition list_end :: string where "list_end = ''</ul>'' @ [line_end]"

definition list_start :: string where "list_start = ''<ul>'' @ [line_end]"

definition error_start :: string where
  "error_start = ''<ul class='' @ [CHR 0x22] @ ''error-box'' @ [CHR 0x22] @ ''>'' @ [line_end]"

definition code_start :: string where "code_start = ''<pre><code>''"

definition code_end :: string where "code_end = ''</code></pre>'' @ [line_end]"

definition closeList :: "markdown_state \<Rightarrow> markdown_state" where
  "closeList st = (if ms_inList st then (WriteString list_end st)\<lparr>ms_inList := False\<rparr> else st)"

definition element :: "string \<Rightarrow> string \<Rightarrow> string \<Rightarrow> string" where
  "element opening content closing = opening @ content @ closing @ [line_end]"

definition bold_line :: "string \<Rightarrow> string" where
  "bold_line content =
     (if Contains content ''Authentication''
      then element (''<div class='' @ [CHR 0x22] @ ''auth-box'' @ [CHR 0x22] @ ''><strong>'') content ''</strong></div>''
      else if Contains content ''Rate Limit''
      then element (''<div class='' @ [CHR 0x22] @ ''rate-limit-box'' @ [CHR 0x22] @ ''><strong>'') content ''</strong></div>''
      else element ''<p><strong>'' content ''</strong></p>'')"

definition render_line :: "string \<Rightarrow> markdown_state \<Rightarrow> markdown_state" where
  "render_line line st =
     (let trimmed = TrimSpace line
      in if HasPrefix trimmed fence then
           (if ms_inCodeBlock st then (WriteString code_end st)\<lparr>ms_inCodeBlock := False\<rparr>
            else (WriteString code_start st)\<lparr>ms_inCodeBlock := True\<rparr>)
         else if ms_inCodeBlock st then WriteString (EscapeString line @ [line_end]) st
         else if HasPrefix trimmed ''### '' then
           WriteString (element ''<h4>'' (renderInlineMarkdown (TrimPrefix trimmed ''### '')) ''</h4>'') (closeList st)
         else if HasPrefix trimmed ''# '' then
           WriteString (element ''<h3>'' (renderInlineMarkdown (TrimPrefix trimmed ''# '')) ''</h3>'') (closeList st)
         else if HasPrefix trimmed ''## '' then
           (let content = TrimPrefix trimmed ''## ''
            in if content = ''Errors''
               then (WriteString error_start (WriteString (element ''<h3>'' content ''</h3>'') (closeList st)))\<lparr>ms_inList := True\<rparr>
               else WriteString (element ''<h3>'' content ''</h3>'') (closeList st))
         else if HasPrefix trimmed ''**'' \<and> HasSuffix trimmed ''**'' then
           WriteString (bold_line (Trim trimmed ''*'')) (closeList st)
         else if HasPrefix trimmed ''- '' then
           WriteString (element ''<li>'' (renderInlineMarkdown (TrimPrefix trimmed ''- '')) ''</li>'')
             (if ms_inList st then st else (WriteString list_start st)\<lparr>ms_inList := True\<rparr>)
         else
           (let content = renderInlineMarkdown trimmed
            in if content \<noteq> [] then WriteString (element ''<p>'' content ''</p>'') (closeList st) else st))"

definition markdown_pieces :: "string \<Rightarrow> string list" where
  "markdown_pieces md = ms_result (closeList (fold render_line (split_on line_end md)
     \<lparr>ms_result = [], ms_inCodeBlock = False, ms_inList = False\<rparr>))"

definition renderMarkdown :: "string \<Rightarrow> string" where
  "renderMarkdown md = concat (markdown_pieces md)"

section \<open>Tables\<close>

record api_doc_row =
  ad_key :: string
  ad_value :: string
  ad_description :: string

definition renderRows :: "string \<Rightarrow> api_doc_row list \<Rightarrow> string" where
  "renderRows title rows =
     (let quoted = (\<lambda>s. [CHR 0x22] @ s @ [CHR 0x22]); col = (\<lambda>s. ''<th scope='' @ quoted ''col'' @ ''>'' @ s @ ''</th>'')
      in if rows = [] then []
         else ''<h4>'' @ title @ ''</h4>'' @ [line_end] @ ''<div class='' @ quoted ''api-table-wrap'' @ ''><table class='' @
           quoted ''api-table'' @ ''><thead><tr>'' @ col ''Key'' @ col ''Value'' @ col ''Description'' @
           ''</tr></thead><tbody>'' @ [line_end] @
           concat (map (\<lambda>row. ''<tr><td><code>'' @ EscapeString (ad_key row) @ ''</code></td><td><code>'' @
             EscapeString (ad_value row) @ ''</code></td><td>'' @ renderInlineMarkdown (ad_description row) @
             ''</td></tr>'' @ [line_end]) rows) @
           ''</tbody></table></div>'' @ [line_end])"

section \<open>What a reader sees of a line\<close>

text \<open>The text a browser shows of a fragment: tags are left out, the five entities stand for their character.\<close>

fun html_text :: "bool \<Rightarrow> string \<Rightarrow> string" where
  "html_text inTag [] = []"
| "html_text True (c # cs) = html_text (c \<noteq> CHR ''>'') cs"
| "html_text False (c # cs) =
     (if c = CHR ''<'' then html_text True cs
      else if HasPrefix (c # cs) ''&amp;'' then CHR ''&'' # html_text False (drop 4 cs)
      else if HasPrefix (c # cs) ''&#39;'' then CHR 0x27 # html_text False (drop 4 cs)
      else if HasPrefix (c # cs) ''&lt;'' then CHR ''<'' # html_text False (drop 3 cs)
      else if HasPrefix (c # cs) ''&gt;'' then CHR ''>'' # html_text False (drop 3 cs)
      else if HasPrefix (c # cs) ''&#34;'' then CHR 0x22 # html_text False (drop 4 cs)
      else c # html_text False cs)"

lemma html_text_EscapeString: "html_text False (EscapeString s @ r) = s @ html_text False r"
proof (induction s)
  case (Cons c s)
  then show ?case by (simp add: EscapeString_def numeral_eq_Suc)
qed (simp add: EscapeString_def)

text \<open>A line of Markdown in pieces: plain text, and text between two markers.\<close>

datatype inline = Plain string | Code string | Strong string

fun inline_source :: "inline \<Rightarrow> string" where
  "inline_source (Plain s) = s"
| "inline_source (Code s) = backtick @ s @ backtick"
| "inline_source (Strong s) = ''**'' @ s @ ''**''"

fun inline_shown :: "inline \<Rightarrow> string" where
  "inline_shown (Plain s) = s"
| "inline_shown (Code s) = s"
| "inline_shown (Strong s) = s"

fun inline_html :: "inline \<Rightarrow> string" where
  "inline_html (Plain s) = EscapeString s"
| "inline_html (Code s) = ''<code>'' @ EscapeString s @ ''</code>''"
| "inline_html (Strong s) = ''<strong>'' @ EscapeString s @ ''</strong>''"

lemma html_text_inline: "html_text False (inline_html p @ r) = inline_shown p @ html_text False r"
proof (cases p)
  case (Code s)
  have "html_text False (''</code>'' @ r) = html_text False r" by simp
  with Code html_text_EscapeString [of s "''</code>'' @ r"] show ?thesis by simp
next
  case (Strong s)
  have "html_text False (''</strong>'' @ r) = html_text False r" by simp
  with Strong html_text_EscapeString [of s "''</strong>'' @ r"] show ?thesis by simp
qed (simp add: html_text_EscapeString)

lemma html_text_inlines: "html_text False (concat (map inline_html ps)) = concat (map inline_shown ps)"
  by (induction ps) (simp_all add: html_text_inline)

lemma renderInline_pieces:
  "\<exists>ps. concat (map inline_source ps) = md \<and> renderInlineMarkdown md = concat (map inline_html ps)"
proof (induction md rule: renderInlineMarkdown.induct)
  case (1 md)
  show ?case
  proof (cases "next_marker md")
    case None
    then show ?thesis by (intro exI [of _ "[Plain md]"]) (simp add: renderInlineMarkdown.simps)
  next
    case (Some p)
    then obtain markerAt marker tag where m: "next_marker md = Some (markerAt, marker, tag)" by (cases p) auto
    let ?after = "drop (markerAt + length marker) md"
    have split: "md = take markerAt md @ marker @ ?after" using next_marker_Some [OF m] Index_Some by blast
    show ?thesis
    proof (cases "Index ?after marker")
      case None
      with m have "renderInlineMarkdown md = EscapeString (take markerAt md) @ EscapeString (drop markerAt md)"
        by (subst renderInlineMarkdown.simps) (simp add: Let_def)
      then show ?thesis
        by (intro exI [of _ "[Plain (take markerAt md), Plain (drop markerAt md)]"]) simp
    next
      case (Some endAt)
      let ?inner = "take endAt ?after" and ?rest = "drop (endAt + length marker) ?after"
      obtain ps where ps: "concat (map inline_source ps) = ?rest" "renderInlineMarkdown ?rest = concat (map inline_html ps)"
        using "1.IH" [OF m refl refl refl Some] by blast
      have after: "?after = ?inner @ marker @ ?rest" using Index_Some [OF Some] .
      have r: "renderInlineMarkdown md = EscapeString (take markerAt md) @ ''<'' @ tag @ ''>'' @ EscapeString ?inner @
          ''</'' @ tag @ ''>'' @ renderInlineMarkdown ?rest"
        using m Some by (subst renderInlineMarkdown.simps) (simp add: Let_def)
      obtain piece where piece: "inline_source piece = marker @ ?inner @ marker"
        "inline_html piece = ''<'' @ tag @ ''>'' @ EscapeString ?inner @ ''</'' @ tag @ ''>''"
        using next_marker_Some [OF m] that [of "Code ?inner"] that [of "Strong ?inner"] by auto
      have "concat (map inline_source (Plain (take markerAt md) # piece # ps)) = md"
        using ps(1) piece(1) split after by (metis append_assoc concat.simps(2) inline_source.simps(1) list.simps(9))
      moreover have "renderInlineMarkdown md = concat (map inline_html (Plain (take markerAt md) # piece # ps))"
        by (simp add: r ps(2) piece(2) del: drop_drop)
      ultimately show ?thesis by blast
    qed
  qed
qed

text \<open>
  C35. A line of the documentation is shown as it was written. The conversion ends on every line, and the
  line is a sequence of pieces, plain or between two markers, that together are the whole line, such that
  the page holds each piece escaped and in the element of its marker, and a browser shows the text of
  every piece in order: no character is lost, and none is taken for markup.
\<close>

theorem inline_markdown_shown:
  "\<exists>ps. concat (map inline_source ps) = md \<and> renderInlineMarkdown md = concat (map inline_html ps) \<and>
     html_text False (renderInlineMarkdown md) = concat (map inline_shown ps)"
  using renderInline_pieces [of md] html_text_inlines by metis

section \<open>Lists and code blocks\<close>

abbreviation list_starts :: "string list \<Rightarrow> nat" where
  "list_starts ps \<equiv> count_list ps list_start + count_list ps error_start"

abbreviation list_ends :: "string list \<Rightarrow> nat" where "list_ends ps \<equiv> count_list ps list_end"

text \<open>Every list that is open is counted once, and an element is never taken for the start or end of one.\<close>

definition lists_open :: "markdown_state \<Rightarrow> bool" where
  "lists_open st \<longleftrightarrow> list_starts (ms_result st) = list_ends (ms_result st) + of_bool (ms_inList st)"

lemma list_marks: "list_start \<noteq> list_end" "error_start \<noteq> list_end" "list_start \<noteq> error_start"
  by (simp_all add: list_start_def error_start_def list_end_def)

definition no_list :: "string \<Rightarrow> bool" where
  "no_list s \<longleftrightarrow> s \<noteq> list_start \<and> s \<noteq> error_start \<and> s \<noteq> list_end"

lemma lists_open_write: "no_list s \<Longrightarrow> lists_open (WriteString s st) = lists_open st"
  by (simp add: lists_open_def WriteString_def no_list_def)

lemma lists_open_close: "lists_open st \<Longrightarrow> lists_open (closeList st) \<and> \<not> ms_inList (closeList st)"
  using list_marks by (auto simp: lists_open_def closeList_def WriteString_def)

lemma lists_open_start:
  assumes "lists_open st" "\<not> ms_inList st" "s = list_start \<or> s = error_start"
  shows "lists_open ((WriteString s st)\<lparr>ms_inList := True\<rparr>)"
  using assms list_marks by (auto simp: lists_open_def WriteString_def)

lemma element_no_list: "t \<noteq> CHR ''u'' \<Longrightarrow> t \<noteq> CHR ''/'' \<Longrightarrow> no_list (element (CHR ''<'' # t # x) content closing)"
  by (simp add: no_list_def element_def list_start_def error_start_def list_end_def)

lemma bold_no_list: "no_list (bold_line c)"
  by (simp add: bold_line_def element_no_list)

lemma escaped_no_list: "no_list (EscapeString s @ [line_end])"
proof -
  have "EscapeString s @ [line_end] \<noteq> CHR ''<'' # r" for r
    using EscapeString_plain [of s] by (cases "EscapeString s") auto
  then show ?thesis by (simp add: no_list_def list_start_def error_start_def list_end_def)
qed

lemma code_no_list: "no_list code_start" "no_list code_end"
  by (simp_all add: no_list_def code_start_def code_end_def list_start_def error_start_def list_end_def)

lemma lists_open_line:
  assumes o: "lists_open st"
  shows "lists_open (render_line line st)"
proof -
  note closed = lists_open_close [OF o]
  have flag: "lists_open (s\<lparr>ms_inCodeBlock := b\<rparr>) = lists_open s" for s b by (simp add: lists_open_def)
  have items: "lists_open (if ms_inList st then st else (WriteString list_start st)\<lparr>ms_inList := True\<rparr>)"
    using o lists_open_start by simp
  have errors: "lists_open ((WriteString error_start (WriteString (element ''<h3>'' c ''</h3>'') (closeList st)))\<lparr>ms_inList := True\<rparr>)"
    for c
  proof (rule lists_open_start)
    show "lists_open (WriteString (element ''<h3>'' c ''</h3>'') (closeList st))"
      using closed by (simp add: lists_open_write element_no_list)
    show "\<not> ms_inList (WriteString (element ''<h3>'' c ''</h3>'') (closeList st))"
      using closed by (simp add: WriteString_def)
  qed simp
  have branch: "(b \<Longrightarrow> lists_open x) \<Longrightarrow> (\<not> b \<Longrightarrow> lists_open y) \<Longrightarrow> lists_open (if b then x else y)" for b x y by simp
  show ?thesis
    unfolding render_line_def Let_def
    by (intro branch errors) (use o closed items in \<open>simp_all only: flag lists_open_write element_no_list
        escaped_no_list bold_no_list code_no_list, simp_all add: element_no_list lists_open_write\<close>)
qed

text \<open>
  The lists of a rendered document are closed: the pieces written open as many lists as they close, whatever
  the document is, and no list is left open within one.
\<close>

theorem markdown_lists_closed: "list_starts (markdown_pieces md) = list_ends (markdown_pieces md)"
proof -
  have "lists_open (fold render_line ls st)" if "lists_open st" for ls st
    using that by (induction ls arbitrary: st) (simp_all add: lists_open_line)
  moreover have "lists_open \<lparr>ms_result = [], ms_inCodeBlock = False, ms_inList = False\<rparr>" by (simp add: lists_open_def)
  ultimately show ?thesis using lists_open_close unfolding markdown_pieces_def lists_open_def by fastforce
qed

end
