(* ===== verification/Spec2Isabelle.thy ===== *)
theory Spec2Isabelle
  imports Prelude Text Database Counter_Store Ledger Retry Counter_Spec Tenant History Read_Cache
    Counter_Service Pagination Coherence Rate_Limit Validation Credential Metadata Time_Text
    Observability Cursors Serving Startup Exposition Docs_Page
begin

text \<open>
  A verification of \<open>counter-api\<close>, a multi-tenant counter service in Go over PostgreSQL: its tables and
  transactions, stores, services, caches, limiter, credentials, handlers, middleware and router, its
  migrations and its start.

  \<^bold>\<open>The program.\<close> A request passes the chain of middleware (\<open>internal/middleware\<close>, assembled in
  \<open>internal/router/router.go\<close>): request identifier, logging and metrics, error tracker, deadlines, load
  limit, CORS, authentication by API key, rate limit. The router picks a handler (\<open>internal/handlers\<close>)
  behind a check of the scope and of the tenant of the route; a keyed mutation runs inside a wrapper that
  records its response. A handler calls a service (\<open>internal/service\<close>), which uses a store
  (\<open>internal/store\<close>) and, for counters, a read cache (\<open>internal/cache\<close>). A store runs statements in a
  transaction (\<open>internal/database\<close>) whose settings carry the identity of the caller to the row-level
  policies of the database. Every change of a counter leaves a row in the table of operations.

  \<^bold>\<open>The model.\<close> Each Go function is a HOL function of the same name. State is passed explicitly: the tables
  are one record, a handler maps a request context to a request context, the caches and the limiter are
  records. Fallible functions return a sum whose left side is a Go error value; \<open>errors.Is\<close> looks through
  the wrapping. An \<open>int64\<close> is an \<open>int\<close> with the wrap-around written out (\<open>wrap64\<close>), a time is the number
  of nanoseconds in UTC, a string is a list of bytes. Failures are arguments: \<open>faults\<close> says which
  statement fails and whether a commit succeeds, is refused, or happens without its answer arriving.

  \<^bold>\<open>The theories.\<close>
  \<^item> \<open>Prelude\<close>, \<open>Text\<close>, \<open>Runes\<close>, \<open>Strings\<close>, \<open>Base64\<close>, \<open>Json\<close>, \<open>Time_Text\<close>, \<open>Url\<close>, \<open>Net_IP\<close>: the Go
    types and the parts of the standard library that the program uses, with the round trips of base64,
    JSON, times and queries.
  \<^item> \<open>Database\<close>: the rows, the access of a context, the policies of migration 10, \<open>BeginWrite\<close> and
    \<open>WithTransaction\<close> of \<open>database/transaction.go\<close>.
  \<^item> \<open>Counter_Store\<close>, \<open>Ledger\<close>, \<open>Retry\<close>, \<open>Counter_Spec\<close>: \<open>store/counter.go\<close>; the invariant that a counter
    is the sum of its operations and that these chain; what retries do; an abstract ledger that the
    increment implements, and that a retried increment is applied exactly once.
  \<^item> \<open>Tenant\<close>, \<open>History\<close>, \<open>Pagination\<close>: tenants; the history and the reconciliation of \<open>store/history.go\<close>,
    which ends with an exact report; keyset pagination, stated once in the locale \<open>keyset_pages\<close> and
    interpreted by both listings.
  \<^item> \<open>Read_Cache\<close>, \<open>Counter_Service\<close>, \<open>Coherence\<close>: \<open>cache/readcache.go\<close> with the contract of a cache as the
    locales \<open>read_cache\<close> and \<open>reliable_cache\<close>, interpreted by the Redis and the memory cache;
    \<open>service/counter.go\<close>; the cache and the tables together.
  \<^item> \<open>Rate_Limit\<close>: the token buckets, both halves interpreting the locale \<open>token_side\<close>; the Redis script.
  \<^item> \<open>Validation\<close>, \<open>Credential\<close>, \<open>Metadata\<close>: validation; keys, credentials and authentication; documents
    with revisions.
  \<^item> \<open>Http\<close>, \<open>Handlers\<close>, \<open>Cursors\<close>, \<open>Idempotency\<close>: the request context, the handlers, the tokens of the
    listings, the wrapper of keyed mutations.
  \<^item> \<open>Tables\<close>, \<open>Isolation\<close>, \<open>Append_Only\<close>: the locale \<open>operation_laws\<close> states that every store operation
    keeps a relation between tables and concludes that every handler does; it is interpreted by ``the rows
    of other tenants are the same'' and by ``the ledger is only appended to''.
  \<^item> \<open>Observability\<close>, \<open>Exposition\<close>, \<open>Middleware\<close>, \<open>Scrub\<close>, \<open>Sentry\<close>, \<open>Router\<close>, \<open>Serving\<close>: metrics and health,
    the chain, the routes, and the program as it answers one request: who may change what, in which
    tenant, over any run of requests.
  \<^item> \<open>Config\<close>, \<open>Connection\<close>, \<open>Migrations\<close>, \<open>Startup\<close>: \<open>config/config.go\<close>, \<open>database/db.go\<close>,
    \<open>migrations/migrations.go\<close> and \<open>main.go\<close>.
  \<^item> \<open>Docs_Page\<close>: the Markdown conversion of \<open>cmd/docs-generator\<close>.

  \<^bold>\<open>What is a parameter.\<close> Code outside the repository: PostgreSQL's reading of identifiers, timestamps and
  JSON, UUID parsing and hash functions (the record \<open>externals\<close>, with the laws \<open>pg_laws\<close> where a proof needs
  them), the matching of routes, the hub of the error tracker, the parser of URLs, the reading and
  printing of floating-point numbers, and the effect of a migration script. Each theorem that assumes
  something of them has a witness in which they are concrete functions.

  \<^bold>\<open>Bounds and fuel.\<close> A client that follows cursors (\<open>walk_pages\<close>) and the loop of the reconciliation
  (\<open>reconcile_loop\<close>) have fuel, since they page through tables that others may change; the theorems show
  that fuel above the number of rows is enough. Every other loop is a function with a termination proof. The
  bound of 64 on the depth of a document and those on keys, labels and cursors are the program's own.

  \<^bold>\<open>Concurrency.\<close> Transactions are atomic and run one after the other; failures and lost answers may happen
  at every one. The interleaving of two transactions at the level of row locks is left to the database.

  \<^bold>\<open>Not modelled.\<close> The two embedded HTML pages (one constant body), the frame of the generated page and its
  table of examples, YAML and file access of the generator, the transport of the error tracker, the
  goroutine that calls \<open>Cleanup\<close> (the operation itself is modelled), log lines, signal channels, and
  \<open>internal/testutil\<close>: they are constants or pure input and output.
\<close>

end
